theory Spec2Isabelle
  imports Complex_Main "HOL-Library.Word" "HOL-Library.Monad_Syntax"
begin

unbundle bit_operations_syntax

section \<open>Numbers\<close>

text \<open>
  \<open>FractionalDataType\<close> is the source's floating-point type.  A value is a real number or
  one of the three special values of IEEE 754.  Finite arithmetic is exact here: rounding,
  overflow to infinity and the sign of zero are not modelled.  Comparisons and the special
  values follow IEEE 754: every comparison with \<open>NaN\<close> is false.
\<close>

datatype FractionalDataType = Finite real | PosInf | NegInf | NaN

fun flt :: "FractionalDataType \<Rightarrow> FractionalDataType \<Rightarrow> bool" where
  "flt NaN y = False"
| "flt x NaN = False"
| "flt (Finite x) (Finite y) = (x < y)"
| "flt (Finite x) PosInf = True"
| "flt (Finite x) NegInf = False"
| "flt PosInf y = False"
| "flt NegInf NegInf = False"
| "flt NegInf y = True"

definition fle :: "FractionalDataType \<Rightarrow> FractionalDataType \<Rightarrow> bool" where
  "fle x y = (flt x y \<or> (x = y \<and> x \<noteq> NaN))"

fun fneg :: "FractionalDataType \<Rightarrow> FractionalDataType" where
  "fneg (Finite x) = Finite (- x)"
| "fneg PosInf = NegInf"
| "fneg NegInf = PosInf"
| "fneg NaN = NaN"

fun fadd :: "FractionalDataType \<Rightarrow> FractionalDataType \<Rightarrow> FractionalDataType" where
  "fadd NaN y = NaN"
| "fadd x NaN = NaN"
| "fadd (Finite x) (Finite y) = Finite (x + y)"
| "fadd (Finite x) y = y"
| "fadd PosInf NegInf = NaN"
| "fadd NegInf PosInf = NaN"
| "fadd x y = x"

definition fsub :: "FractionalDataType \<Rightarrow> FractionalDataType \<Rightarrow> FractionalDataType" where
  "fsub x y = fadd x (fneg y)"

text \<open>The sign of a value: \<open>1\<close>, \<open>0\<close> or \<open>-1\<close>; used for products and quotients
  with an infinite operand.\<close>

fun fsgn :: "FractionalDataType \<Rightarrow> real" where
  "fsgn (Finite x) = sgn x"
| "fsgn PosInf = 1"
| "fsgn NegInf = - 1"
| "fsgn NaN = 0"

definition finf :: "real \<Rightarrow> FractionalDataType" where
  "finf s = (if s = 0 then NaN else if 0 < s then PosInf else NegInf)"

fun fmul :: "FractionalDataType \<Rightarrow> FractionalDataType \<Rightarrow> FractionalDataType" where
  "fmul NaN y = NaN"
| "fmul x NaN = NaN"
| "fmul (Finite x) (Finite y) = Finite (x * y)"
| "fmul x y = finf (fsgn x * fsgn y)"

fun fdiv :: "FractionalDataType \<Rightarrow> FractionalDataType \<Rightarrow> FractionalDataType" where
  "fdiv NaN y = NaN"
| "fdiv x NaN = NaN"
| "fdiv (Finite x) (Finite y) = (if y = 0 then finf (sgn x) else Finite (x / y))"
| "fdiv (Finite x) y = Finite 0"
| "fdiv x (Finite y) = finf (fsgn x * (if y < 0 then - 1 else 1))"
| "fdiv x y = NaN"

fun fexp :: "FractionalDataType \<Rightarrow> FractionalDataType" where
  "fexp (Finite x) = Finite (exp x)"
| "fexp PosInf = PosInf"
| "fexp NegInf = Finite 0"
| "fexp NaN = NaN"

fun fsqrt :: "FractionalDataType \<Rightarrow> FractionalDataType" where
  "fsqrt (Finite x) = (if x < 0 then NaN else Finite (sqrt x))"
| "fsqrt PosInf = PosInf"
| "fsqrt NegInf = NaN"
| "fsqrt NaN = NaN"

text \<open>\<open>static_cast<FractionalDataType>\<close> of a \<open>size_t\<close>.\<close>

definition FractionalDataType_of_size_t :: "nat \<Rightarrow> FractionalDataType" where
  "FractionalDataType_of_size_t n = Finite (real n)"

text \<open>\<open>StorageDataTypeCore\<close> is \<open>size_t\<close>; the platform is taken to be a 64-bit one, so
  \<open>k_cBitsForStorageType\<close> is 64.\<close>

type_synonym StorageDataTypeCore = "64 word"

definition k_cBitsForStorageType :: nat where
  "k_cBitsForStorageType = 64"

section \<open>Memory accesses\<close>

text \<open>
  Buffers are lists.  The source reads and writes through raw pointers; an access outside
  the buffer has no defined behaviour in C++, and is the value \<open>None\<close> here.  Every function
  of the model that touches memory therefore returns an \<open>option\<close>: \<open>None\<close> means that the
  run left the defined behaviour of the source; return statuses and null pointers of the
  source are ordinary values inside \<open>Some\<close>.
\<close>

definition rd :: "'a list \<Rightarrow> nat \<Rightarrow> 'a option" where
  "rd xs i = (if i < length xs then Some (xs ! i) else None)"

definition wr :: "'a list \<Rightarrow> nat \<Rightarrow> 'a \<Rightarrow> 'a list option" where
  "wr xs i v = (if i < length xs then Some (xs[i := v]) else None)"

text \<open>A counting loop whose body can leave the defined behaviour.\<close>

fun foldM :: "('a \<Rightarrow> 's \<Rightarrow> 's option) \<Rightarrow> 'a list \<Rightarrow> 's \<Rightarrow> 's option" where
  "foldM f [] s = Some s"
| "foldM f (x # xs) s = (case f x s of None \<Rightarrow> None | Some s' \<Rightarrow> foldM f xs s')"

section \<open>The data model\<close>

text \<open>
  Only \<open>Training.cpp\<close> is at hand.  The classes it uses are declared in headers that are
  not: each is a record of the members that \<open>Training.cpp\<close> reads and writes.
\<close>

record Feature =
  m_cStates :: nat

record FeatureCombination =
  m_cItemsPerBitPackDataUnit :: nat
  m_cFeatures :: nat
  m_iInputData :: nat
  m_FeatureCombinationEntry :: "Feature list"

text \<open>
  A data set: the residual buffer (\<open>GetResidualPointer\<close>), the prediction scores
  (\<open>GetPredictionScores\<close>), the classification targets (\<open>GetTargetDataPointer\<close>), one
  bit-packed input column for each feature combination (\<open>GetDataPointer\<close>) and the number
  of cases (\<open>GetCountCases\<close>).
\<close>

record DataSetByFeatureCombination =
  m_aResidualErrors :: "FractionalDataType list"
  m_aPredictionScores :: "FractionalDataType list"
  m_aTargetData :: "StorageDataTypeCore list"
  m_aaInputData :: "StorageDataTypeCore list list"
  m_cCases :: nat

definition GetDataPointer ::
  "DataSetByFeatureCombination \<Rightarrow> FeatureCombination \<Rightarrow> StorageDataTypeCore list option" where
  "GetDataPointer pDataSet pFeatureCombination =
     rd (m_aaInputData pDataSet) (m_iInputData pFeatureCombination)"

text \<open>
  A segmented tensor: the length of the value vector of a cell, the number of dimensions in
  use, the division points of each dimension, the value buffer and the flag that says
  whether the tensor is expanded.
\<close>

record SegmentedTensor =
  m_cVectorLength :: nat
  m_cDimensions :: nat
  m_aDivisions :: "nat list list"
  m_aValues :: "FractionalDataType list"
  m_bExpanded :: bool

text \<open>A sampling set: the number of times each training case occurs in it.\<close>

type_synonym SamplingMethod = "nat list"

record EbmTrainingState =
  m_bRegression :: bool
  m_cTargetStates :: nat
  m_cFeatureCombinations :: nat
  m_apFeatureCombinations :: "FeatureCombination list option"
  m_pTrainingSet :: "DataSetByFeatureCombination option"
  m_pValidationSet :: "DataSetByFeatureCombination option"
  m_cSamplingSets :: nat
  m_apSamplingSets :: "SamplingMethod list option"
  m_apCurrentModel :: "SegmentedTensor list option"
  m_apBestModel :: "SegmentedTensor list option"
  m_bestModelMetric :: FractionalDataType
  m_pSmallChangeToModelOverwriteSingleSamplingSet :: "SegmentedTensor option"
  m_pSmallChangeToModelAccumulatedFromSamplingSets :: "SegmentedTensor option"
  m_cFeatures_state :: nat
  m_aFeatures :: "Feature list option"

section \<open>What the headers provide\<close>

text \<open>
  The constants and functions that \<open>Training.cpp\<close> takes from headers that are not at
  hand are the fields of one record, passed to every function of the model:
  \<^item> the compile-time constants \<open>k_cCompilerOptimizedTargetStatesMax\<close>, \<open>k_iZeroResidual\<close>
    and \<open>k_cDimensionsMax\<close>, and whether \<open>EXPAND_BINARY_LOGITS\<close> is defined;
  \<^item> the statistics of \<open>EbmStatistics\<close>;
  \<^item> the three tree learners, which return the tensor they wrote (and the gain, for the
    one-dimensional learner), or \<open>None\<close> when they report a failure;
  \<^item> the fallible operations of \<open>SegmentedTensor\<close>: \<open>Add\<close> and \<open>Expand\<close> return the new
    tensor or \<open>None\<close> on failure; \<open>Copy\<close> returns the failure flag and the destination as
    it is left.
  The multiclass log loss reads the scores of its case through a pointer: it gets the
  score buffer and the offset of the case.
\<close>

record Externals =
  k_cCompilerOptimizedTargetStatesMax :: int
  k_iZeroResidual :: int
  k_cDimensionsMax :: nat
  bExpandBinaryLogits :: bool
  ComputeClassificationResidualErrorBinaryclass ::
    "FractionalDataType \<Rightarrow> StorageDataTypeCore \<Rightarrow> FractionalDataType"
  ComputeClassificationResidualErrorMulticlass ::
    "FractionalDataType \<Rightarrow> FractionalDataType \<Rightarrow> StorageDataTypeCore \<Rightarrow> StorageDataTypeCore
       \<Rightarrow> FractionalDataType"
  ComputeClassificationSingleCaseLogLossBinaryclass ::
    "FractionalDataType \<Rightarrow> StorageDataTypeCore \<Rightarrow> FractionalDataType"
  ComputeClassificationSingleCaseLogLossMulticlass ::
    "FractionalDataType \<Rightarrow> FractionalDataType list \<Rightarrow> nat \<Rightarrow> StorageDataTypeCore
       \<Rightarrow> FractionalDataType"
  TrainZeroDimensional ::
    "int \<Rightarrow> SamplingMethod \<Rightarrow> SegmentedTensor \<Rightarrow> nat \<Rightarrow> SegmentedTensor option"
  TrainSingleDimensional ::
    "int \<Rightarrow> SamplingMethod \<Rightarrow> FeatureCombination \<Rightarrow> nat \<Rightarrow> nat \<Rightarrow> SegmentedTensor \<Rightarrow> nat
       \<Rightarrow> (SegmentedTensor \<times> FractionalDataType) option"
  TrainMultiDimensional ::
    "int \<Rightarrow> SamplingMethod \<Rightarrow> FeatureCombination \<Rightarrow> SegmentedTensor \<Rightarrow> nat
       \<Rightarrow> SegmentedTensor option"
  Add :: "SegmentedTensor \<Rightarrow> SegmentedTensor \<Rightarrow> SegmentedTensor option"
  Expand :: "SegmentedTensor \<Rightarrow> nat list \<Rightarrow> SegmentedTensor option"
  Copy :: "SegmentedTensor \<Rightarrow> SegmentedTensor \<Rightarrow> bool \<times> SegmentedTensor"

text \<open>
  Modelled from the spec: the learning modes of \<open>EbmInternal.h\<close>, which is not at hand.
  The template parameter \<open>countCompilerClassificationTargetStates\<close> is \<open>k_Regression\<close> for
  regression, \<open>k_DynamicClassification\<close> for a class count known at run time only, and the
  class count itself otherwise.  The vector length is 1 for regression and for binary
  classification, and the number of classes for multiclass classification.
\<close>

definition k_Regression :: int where
  "k_Regression = - 1"

definition k_DynamicClassification :: int where
  "k_DynamicClassification = 0"

definition IsRegression :: "int \<Rightarrow> bool" where
  "IsRegression cCompilerClassificationTargetStates =
     (k_Regression = cCompilerClassificationTargetStates)"

definition IsClassification :: "int \<Rightarrow> bool" where
  "IsClassification cCompilerClassificationTargetStates =
     (0 \<le> cCompilerClassificationTargetStates)"

definition IsBinaryClassification :: "int \<Rightarrow> bool" where
  "IsBinaryClassification cCompilerClassificationTargetStates =
     (2 = cCompilerClassificationTargetStates)"

definition GetVectorLengthFlatCore :: "int \<Rightarrow> nat" where
  "GetVectorLengthFlatCore cTargetStates = (if cTargetStates \<le> 2 then 1 else nat cTargetStates)"

definition GET_VECTOR_LENGTH :: "int \<Rightarrow> nat \<Rightarrow> nat" where
  "GET_VECTOR_LENGTH cCompilerClassificationTargetStates cRuntimeTargetStates =
     (if k_DynamicClassification = cCompilerClassificationTargetStates then cRuntimeTargetStates
      else GetVectorLengthFlatCore cCompilerClassificationTargetStates)"

text \<open>
  Modelled from the spec: \<open>GetCountBits\<close> of \<open>EbmInternal.h\<close>, the number of bits of one
  item when \<open>cItemsBitPacked\<close> items share a storage word.  The division by zero of the
  source has no defined behaviour.
\<close>

definition GetCountBits :: "nat \<Rightarrow> nat option" where
  "GetCountBits cItemsBitPacked =
     (if cItemsBitPacked = 0 then None else Some (k_cBitsForStorageType div cItemsBitPacked))"

text \<open>
  Modelled from the spec: \<open>EbmStatistics::ComputeRegressionResidualError\<close>; the new residual
  of a regression case is the value it is given, the old residual minus the update.
\<close>

definition ComputeRegressionResidualError :: "FractionalDataType \<Rightarrow> FractionalDataType" where
  "ComputeRegressionResidualError value = value"

section \<open>The bit-packed input iterator\<close>

text \<open>
  The four loops over a bit-packed column (training and validation, regression and
  classification) are the same loop around four bodies.  The model has the loop once, with
  the body as a parameter: \<open>body iBin iCase st\<close> is the work on the case \<open>iCase\<close>, whose bin
  is \<open>iBin\<close>.

  \<open>do_items\<close> is the inner \<open>do ... while(0 != cItemsRemaining)\<close>: it takes the items of one
  storage word.  \<open>cItemsRemaining\<close> is a \<open>size_t\<close>: decrementing 0 wraps around.  The shift
  \<open>iBinCombined >>= cBitsPerItemMax\<close> is \<open>drop_bit\<close>; with one item to the word the source
  shifts by the whole width, and never looks at the result.
\<close>

function do_items ::
  "(nat \<Rightarrow> nat \<Rightarrow> 's \<Rightarrow> 's option) \<Rightarrow> nat \<Rightarrow> StorageDataTypeCore \<Rightarrow> nat \<Rightarrow> StorageDataTypeCore
     \<Rightarrow> nat \<Rightarrow> 's \<Rightarrow> (nat \<times> 's) option" where
  "do_items body cBitsPerItemMax maskBits cItemsRemaining iBinCombined iCase st =
     (case body (unat (maskBits AND iBinCombined)) iCase st of
        None \<Rightarrow> None
      | Some st' \<Rightarrow>
          (if (if cItemsRemaining = 0 then 2 ^ 64 - 1 else cItemsRemaining - 1) = 0
           then Some (Suc iCase, st')
           else do_items body cBitsPerItemMax maskBits
                  (if cItemsRemaining = 0 then 2 ^ 64 - 1 else cItemsRemaining - 1)
                  (drop_bit cBitsPerItemMax iBinCombined) (Suc iCase) st'))"
  by pat_completeness auto
termination
  by (relation "measure (\<lambda>(body, b, m, n, w, i, st). if n = 0 then 2 ^ 64 else n)") auto

declare do_items.simps [simp del]

lemma do_items_advances:
  "do_items body b m n w i st = Some (i', st') \<Longrightarrow> i < i'"
proof (induction body b m n w i st arbitrary: i' st' rule: do_items.induct)
  case (1 body b m n w i st)
  from "1.prems" obtain st1 where b1: "body (unat (m AND w)) i st = Some st1"
    by (subst (asm) do_items.simps) (auto split: option.splits)
  show ?case
  proof (cases "(if n = 0 then 2 ^ 64 - 1 else n - 1) = (0::nat)")
    case True
    with "1.prems" b1 show ?thesis
      by (subst (asm) do_items.simps) auto
  next
    case False
    with "1.prems" b1 have
      "do_items body b m (if n = 0 then 2 ^ 64 - 1 else n - 1) (drop_bit b w) (Suc i) st1
         = Some (i', st')"
      by (subst (asm) do_items.simps) auto
    from "1.IH" [OF b1 False this] show ?thesis by simp
  qed
qed

text \<open>
  \<open>BitPackedLoop\<close> is the \<open>while\<close> loop with the label inside it.  Pointers into the
  residual (or score) buffer are offsets in elements: the pointer that the loop advances
  stands at \<open>cVectorLength * iCase\<close>, the pointer
  \<open>...LastItemWhereNextLoopCouldDoFullLoopOrLessAndComplete\<close> at
  \<open>cVectorLength * (cCases - cItemsPerBitPackDataUnit)\<close>, which can be negative, and the
  end pointer \<open>cVectorLength * cItemsPerBitPackDataUnit\<close> further.  While the pointer is
  before the former, a full word is taken.  When the loop is left and the pointer is before
  the end, the \<open>goto\<close> enters the loop body with the number of items that remain; from the
  end of the body control is back at the loop condition.
\<close>

function BitPackedLoop ::
  "(nat \<Rightarrow> nat \<Rightarrow> 's \<Rightarrow> 's option) \<Rightarrow> nat \<Rightarrow> nat \<Rightarrow> StorageDataTypeCore \<Rightarrow> StorageDataTypeCore list
     \<Rightarrow> nat \<Rightarrow> nat \<Rightarrow> nat \<Rightarrow> nat \<Rightarrow> 's \<Rightarrow> 's option" where
  "BitPackedLoop body cItemsPerBitPackDataUnit cBitsPerItemMax maskBits pInputData
       cVectorLength cCases iInputData iCase st =
     (if int (cVectorLength * iCase)
           < int cVectorLength * (int cCases - int cItemsPerBitPackDataUnit)
      then
        (case rd pInputData iInputData of
           None \<Rightarrow> None
         | Some iBinCombined \<Rightarrow>
             (case do_items body cBitsPerItemMax maskBits cItemsPerBitPackDataUnit
                     iBinCombined iCase st of
                None \<Rightarrow> None
              | Some (iCase', st') \<Rightarrow>
                  BitPackedLoop body cItemsPerBitPackDataUnit cBitsPerItemMax maskBits pInputData
                    cVectorLength cCases (Suc iInputData) iCase' st'))
      else if int (cVectorLength * iCase)
           < int cVectorLength * (int cCases - int cItemsPerBitPackDataUnit)
               + int (cVectorLength * cItemsPerBitPackDataUnit)
      then
        (case rd pInputData iInputData of
           None \<Rightarrow> None
         | Some iBinCombined \<Rightarrow>
             (case do_items body cBitsPerItemMax maskBits
                     (nat ((int cVectorLength * (int cCases - int cItemsPerBitPackDataUnit)
                              + int (cVectorLength * cItemsPerBitPackDataUnit)
                              - int (cVectorLength * iCase)) div int cVectorLength))
                     iBinCombined iCase st of
                None \<Rightarrow> None
              | Some (iCase', st') \<Rightarrow>
                  BitPackedLoop body cItemsPerBitPackDataUnit cBitsPerItemMax maskBits pInputData
                    cVectorLength cCases (Suc iInputData) iCase' st'))
      else Some st)"
  by pat_completeness auto

lemma BitPackedLoop_before_last:
  "int (v * i) < int v * (int n - int p) \<Longrightarrow> i < n"
proof -
  assume a: "int (v * i) < int v * (int n - int p)"
  have "int v * int i < int v * (int n - int p)" using a by simp
  then have "int i < int n - int p"
    by (simp add: mult_less_cancel_left split: if_splits)
  then show "i < n" by linarith
qed

lemma BitPackedLoop_before_end:
  "int (v * i) < int v * (int n - int p) + int (v * p) \<Longrightarrow> i < n"
proof -
  assume a: "int (v * i) < int v * (int n - int p) + int (v * p)"
  have "int v * (int n - int p) + int (v * p) = int v * int n"
    by (simp add: algebra_simps)
  with a have "int v * int i < int v * int n" by simp
  then show "i < n"
    by (simp add: mult_less_cancel_left split: if_splits)
qed

termination BitPackedLoop
proof (relation "measure (\<lambda>(body, p, b, m, ws, v, n, iw, i, st). n - i)", goal_cases)
  case 1
  show ?case by simp
next
  case (2 body p b m ws v n iw i st w r i' st')
  from "2"(1) have "i < n" by (rule BitPackedLoop_before_last)
  moreover from "2"(3,4) have "i < i'" using do_items_advances by metis
  ultimately show ?case by simp
next
  case (3 body p b m ws v n iw i st w r i' st')
  from "3"(2) have "i < n" by (rule BitPackedLoop_before_end)
  moreover from "3"(4,5) have "i < i'" using do_items_advances by metis
  ultimately show ?case by simp
qed

declare BitPackedLoop.simps [simp del]

section \<open>The training-set pass\<close>

text \<open>
  The work on one case, as the loop bodies of \<open>TrainingSetTargetFeatureLoop\<close> do it.  The
  source has each body twice, in the loop of the feature combinations without features and
  in the bit-packed loop; the two differ in where the update comes from only.

  Regression: the residual buffer holds the target minus the prediction; the update is
  taken off it.
\<close>

definition TrainingCaseRegression ::
  "FractionalDataType \<Rightarrow> nat \<Rightarrow> DataSetByFeatureCombination
     \<Rightarrow> DataSetByFeatureCombination option" where
  "TrainingCaseRegression smallChangeToPrediction iCase pTrainingSet = do {
     r \<leftarrow> rd (m_aResidualErrors pTrainingSet) iCase;
     aResidualErrors \<leftarrow> wr (m_aResidualErrors pTrainingSet) iCase
       (ComputeRegressionResidualError (fsub r smallChangeToPrediction));
     Some (pTrainingSet\<lparr>m_aResidualErrors := aResidualErrors\<rparr>)
   }"

text \<open>Binary classification: one score and one residual for each case.\<close>

definition TrainingCaseBinary ::
  "Externals \<Rightarrow> FractionalDataType \<Rightarrow> nat \<Rightarrow> DataSetByFeatureCombination
     \<Rightarrow> DataSetByFeatureCombination option" where
  "TrainingCaseBinary ext smallChangeToPredictionScores iCase pTrainingSet = do {
     targetData \<leftarrow> rd (m_aTargetData pTrainingSet) iCase;
     score \<leftarrow> rd (m_aPredictionScores pTrainingSet) iCase;
     let trainingPredictionScore = fadd score smallChangeToPredictionScores;
     aPredictionScores \<leftarrow> wr (m_aPredictionScores pTrainingSet) iCase trainingPredictionScore;
     aResidualErrors \<leftarrow> wr (m_aResidualErrors pTrainingSet) iCase
       (ComputeClassificationResidualErrorBinaryclass ext trainingPredictionScore targetData);
     Some (pTrainingSet\<lparr>m_aPredictionScores := aPredictionScores,
                          m_aResidualErrors := aResidualErrors\<rparr>)
   }"

text \<open>
  Multiclass classification.  The first inner loop adds the update to the scores of the case
  and sums their exponentials; the second writes the residual of every class.  Both are
  \<open>do ... while\<close> loops over the classes, so they run once even for a vector length of 0.
  \<open>pValues\<close> points at the update of the bin: it is the offset \<open>iValues\<close> into the update
  tensor.  After the second loop the residual pointer stands behind the residuals of the
  case, and the residual at \<open>k_iZeroResidual - cVectorLength\<close> from there is set to 0 when
  \<open>k_iZeroResidual\<close> is not negative.
\<close>

definition TrainingCaseMulticlass_scores ::
  "FractionalDataType list \<Rightarrow> nat \<Rightarrow> nat \<Rightarrow> nat \<Rightarrow> nat
     \<Rightarrow> FractionalDataType list \<times> FractionalDataType
     \<Rightarrow> (FractionalDataType list \<times> FractionalDataType) option" where
  "TrainingCaseMulticlass_scores aModelUpdateTensor iValues cVectorLength iCase iVector1 st = do {
     smallChangeToPredictionScores \<leftarrow> rd aModelUpdateTensor (iValues + iVector1);
     score \<leftarrow> rd (fst st) (cVectorLength * iCase + iVector1);
     let trainingPredictionScores = fadd score smallChangeToPredictionScores;
     aPredictionScores \<leftarrow> wr (fst st) (cVectorLength * iCase + iVector1) trainingPredictionScores;
     Some (aPredictionScores, fadd (snd st) (fexp trainingPredictionScores))
   }"

definition TrainingCaseMulticlass_residuals ::
  "Externals \<Rightarrow> FractionalDataType list \<Rightarrow> FractionalDataType \<Rightarrow> StorageDataTypeCore \<Rightarrow> nat \<Rightarrow> nat
     \<Rightarrow> nat \<Rightarrow> FractionalDataType list \<Rightarrow> FractionalDataType list option" where
  "TrainingCaseMulticlass_residuals ext aPredictionScores sumExp targetData cVectorLength iCase
       iVector2 aResidualErrors = do {
     score \<leftarrow> rd aPredictionScores (cVectorLength * iCase + iVector2);
     wr aResidualErrors (cVectorLength * iCase + iVector2)
       (ComputeClassificationResidualErrorMulticlass ext sumExp score targetData
          (word_of_nat iVector2))
   }"

definition TrainingCaseMulticlass ::
  "Externals \<Rightarrow> FractionalDataType list \<Rightarrow> nat \<Rightarrow> nat \<Rightarrow> nat \<Rightarrow> DataSetByFeatureCombination
     \<Rightarrow> DataSetByFeatureCombination option" where
  "TrainingCaseMulticlass ext aModelUpdateTensor iValues cVectorLength iCase pTrainingSet = do {
     targetData \<leftarrow> rd (m_aTargetData pTrainingSet) iCase;
     (aPredictionScores, sumExp) \<leftarrow>
       foldM (TrainingCaseMulticlass_scores aModelUpdateTensor iValues cVectorLength iCase)
         [0..<max 1 cVectorLength] (m_aPredictionScores pTrainingSet, Finite 0);
     aResidualErrors \<leftarrow>
       foldM (TrainingCaseMulticlass_residuals ext aPredictionScores sumExp targetData
                cVectorLength iCase)
         [0..<max 1 cVectorLength] (m_aResidualErrors pTrainingSet);
     aResidualErrors' \<leftarrow>
       (if 0 \<le> k_iZeroResidual ext
        then (if int (cVectorLength * iCase + max 1 cVectorLength)
                   + (k_iZeroResidual ext - int cVectorLength) < 0
              then None
              else wr aResidualErrors
                     (nat (int (cVectorLength * iCase + max 1 cVectorLength)
                             + (k_iZeroResidual ext - int cVectorLength)))
                     (Finite 0))
        else Some aResidualErrors);
     Some (pTrainingSet\<lparr>m_aPredictionScores := aPredictionScores,
                          m_aResidualErrors := aResidualErrors'\<rparr>)
   }"

text \<open>
  \<open>maskBits\<close> is the word of all ones shifted right by the bits that an item does not use.
  With more items than bits in a word an item has no bit, and the shift by the whole width
  has no defined behaviour.
\<close>

definition GetMaskBits :: "nat \<Rightarrow> StorageDataTypeCore option" where
  "GetMaskBits cBitsPerItemMax =
     (if k_cBitsForStorageType \<le> k_cBitsForStorageType - cBitsPerItemMax then None
      else Some (drop_bit (k_cBitsForStorageType - cBitsPerItemMax) (- 1)))"

text \<open>
  \<open>TrainingSetTargetFeatureLoop\<close>.  A feature combination without features has one bin:
  the loops run over the residual buffer from its start to
  \<open>cVectorLength * cCases\<close> elements further, one element of the buffer (regression, binary
  classification) or one case (multiclass classification) at a time.  Otherwise the cases
  are taken from the bit-packed column of the feature combination.  In the regression and
  binary loops the pointers advance by one element a case, and the vector length is 1.
\<close>

definition TrainingSetTargetFeatureLoop ::
  "Externals \<Rightarrow> int \<Rightarrow> FeatureCombination \<Rightarrow> DataSetByFeatureCombination
     \<Rightarrow> FractionalDataType list \<Rightarrow> nat \<Rightarrow> DataSetByFeatureCombination option" where
  "TrainingSetTargetFeatureLoop ext countCompilerClassificationTargetStates pFeatureCombination
       pTrainingSet aModelUpdateTensor cTargetStates =
     (let cVectorLength = GET_VECTOR_LENGTH countCompilerClassificationTargetStates cTargetStates;
          cCases = m_cCases pTrainingSet
      in
      if 0 = m_cFeatures pFeatureCombination then
        (if IsRegression countCompilerClassificationTargetStates then do {
            smallChangeToPrediction \<leftarrow> rd aModelUpdateTensor 0;
            foldM (TrainingCaseRegression smallChangeToPrediction)
              [0..<cVectorLength * cCases] pTrainingSet
          }
         else if IsBinaryClassification countCompilerClassificationTargetStates then do {
            smallChangeToPredictionScores \<leftarrow> rd aModelUpdateTensor 0;
            foldM (TrainingCaseBinary ext smallChangeToPredictionScores)
              [0..<cVectorLength * cCases] pTrainingSet
          }
         else
            foldM (TrainingCaseMulticlass ext aModelUpdateTensor 0 cVectorLength)
              [0..<(if cVectorLength = 0 then 0 else cCases)] pTrainingSet)
      else do {
        cBitsPerItemMax \<leftarrow> GetCountBits (m_cItemsPerBitPackDataUnit pFeatureCombination);
        maskBits \<leftarrow> GetMaskBits cBitsPerItemMax;
        pInputData \<leftarrow> GetDataPointer pTrainingSet pFeatureCombination;
        (if IsRegression countCompilerClassificationTargetStates then
           BitPackedLoop
             (\<lambda>iBin iCase ds. do {
                smallChangeToPrediction \<leftarrow> rd aModelUpdateTensor (iBin * cVectorLength);
                TrainingCaseRegression smallChangeToPrediction iCase ds
              })
             (m_cItemsPerBitPackDataUnit pFeatureCombination) cBitsPerItemMax maskBits
             pInputData cVectorLength cCases 0 0 pTrainingSet
         else
           BitPackedLoop
             (\<lambda>iBin iCase ds.
                if IsBinaryClassification countCompilerClassificationTargetStates then do {
                  smallChangeToPredictionScores \<leftarrow> rd aModelUpdateTensor (iBin * cVectorLength);
                  TrainingCaseBinary ext smallChangeToPredictionScores iCase ds
                }
                else TrainingCaseMulticlass ext aModelUpdateTensor (iBin * cVectorLength)
                       cVectorLength iCase ds)
             (m_cItemsPerBitPackDataUnit pFeatureCombination) cBitsPerItemMax maskBits
             pInputData cVectorLength cCases 0 0 pTrainingSet)
      })"

text \<open>
  \<open>TrainingSetInputFeatureLoop\<close> chooses the template argument \<open>cTargetBits\<close> from the number
  of target states.  \<open>TrainingSetTargetFeatureLoop\<close> never uses that argument, so all seven
  branches are the same call.
\<close>

definition TrainingSetInputFeatureLoop ::
  "Externals \<Rightarrow> int \<Rightarrow> FeatureCombination \<Rightarrow> DataSetByFeatureCombination
     \<Rightarrow> FractionalDataType list \<Rightarrow> nat \<Rightarrow> DataSetByFeatureCombination option" where
  "TrainingSetInputFeatureLoop ext countCompilerClassificationTargetStates pFeatureCombination
       pTrainingSet aModelUpdateTensor cTargetStates =
     TrainingSetTargetFeatureLoop ext countCompilerClassificationTargetStates
       pFeatureCombination pTrainingSet aModelUpdateTensor cTargetStates"

section \<open>The validation-set pass\<close>

text \<open>
  The loop bodies of \<open>ValidationSetTargetFeatureLoop\<close>.  The state of a loop is the data
  set and the sum so far: of the squared residuals for regression, of the log loss of the
  cases for classification.
\<close>

definition ValidationCaseRegression ::
  "FractionalDataType \<Rightarrow> nat \<Rightarrow> DataSetByFeatureCombination \<times> FractionalDataType
     \<Rightarrow> (DataSetByFeatureCombination \<times> FractionalDataType) option" where
  "ValidationCaseRegression smallChangeToPrediction iCase st = do {
     r \<leftarrow> rd (m_aResidualErrors (fst st)) iCase;
     let residualError = ComputeRegressionResidualError (fsub r smallChangeToPrediction);
     aResidualErrors \<leftarrow> wr (m_aResidualErrors (fst st)) iCase residualError;
     Some ((fst st)\<lparr>m_aResidualErrors := aResidualErrors\<rparr>,
           fadd (snd st) (fmul residualError residualError))
   }"

definition ValidationCaseBinary ::
  "Externals \<Rightarrow> FractionalDataType \<Rightarrow> nat \<Rightarrow> DataSetByFeatureCombination \<times> FractionalDataType
     \<Rightarrow> (DataSetByFeatureCombination \<times> FractionalDataType) option" where
  "ValidationCaseBinary ext smallChangeToPredictionScores iCase st = do {
     targetData \<leftarrow> rd (m_aTargetData (fst st)) iCase;
     score \<leftarrow> rd (m_aPredictionScores (fst st)) iCase;
     let validationPredictionScores = fadd score smallChangeToPredictionScores;
     aPredictionScores \<leftarrow> wr (m_aPredictionScores (fst st)) iCase validationPredictionScores;
     Some ((fst st)\<lparr>m_aPredictionScores := aPredictionScores\<rparr>,
           fadd (snd st)
             (ComputeClassificationSingleCaseLogLossBinaryclass ext validationPredictionScores
                targetData))
   }"

text \<open>
  Multiclass: the inner loop over the classes is the first inner loop of the training pass.
  The score pointer is advanced in that loop; the log loss of the case gets the pointer
  \<open>cVectorLength\<close> before it.
\<close>

definition ValidationCaseMulticlass ::
  "Externals \<Rightarrow> FractionalDataType list \<Rightarrow> nat \<Rightarrow> nat \<Rightarrow> nat
     \<Rightarrow> DataSetByFeatureCombination \<times> FractionalDataType
     \<Rightarrow> (DataSetByFeatureCombination \<times> FractionalDataType) option" where
  "ValidationCaseMulticlass ext aModelUpdateTensor iValues cVectorLength iCase st = do {
     targetData \<leftarrow> rd (m_aTargetData (fst st)) iCase;
     (aPredictionScores, sumExp) \<leftarrow>
       foldM (TrainingCaseMulticlass_scores aModelUpdateTensor iValues cVectorLength iCase)
         [0..<max 1 cVectorLength] (m_aPredictionScores (fst st), Finite 0);
     Some ((fst st)\<lparr>m_aPredictionScores := aPredictionScores\<rparr>,
           fadd (snd st)
             (ComputeClassificationSingleCaseLogLossMulticlass ext sumExp aPredictionScores
                (cVectorLength * iCase + max 1 cVectorLength - cVectorLength) targetData))
   }"

text \<open>
  \<open>ValidationSetTargetFeatureLoop\<close> returns the metric: the root of the mean of the squared
  residuals for regression, the sum of the log loss of the cases for classification.  The
  model returns the data set as the pass leaves it, too.
\<close>

definition ValidationSetTargetFeatureLoop ::
  "Externals \<Rightarrow> int \<Rightarrow> FeatureCombination \<Rightarrow> DataSetByFeatureCombination
     \<Rightarrow> FractionalDataType list \<Rightarrow> nat
     \<Rightarrow> (DataSetByFeatureCombination \<times> FractionalDataType) option" where
  "ValidationSetTargetFeatureLoop ext countCompilerClassificationTargetStates pFeatureCombination
       pValidationSet aModelUpdateTensor cTargetStates =
     (let cVectorLength = GET_VECTOR_LENGTH countCompilerClassificationTargetStates cTargetStates;
          cCases = m_cCases pValidationSet
      in
      if 0 = m_cFeatures pFeatureCombination then
        (if IsRegression countCompilerClassificationTargetStates then do {
            smallChangeToPrediction \<leftarrow> rd aModelUpdateTensor 0;
            (ds, rootMeanSquareError) \<leftarrow>
              foldM (ValidationCaseRegression smallChangeToPrediction)
                [0..<cCases] (pValidationSet, Finite 0);
            Some (ds, fsqrt (fdiv rootMeanSquareError
                               (FractionalDataType_of_size_t (m_cCases pValidationSet))))
          }
         else if IsBinaryClassification countCompilerClassificationTargetStates then do {
            smallChangeToPredictionScores \<leftarrow> rd aModelUpdateTensor 0;
            foldM (ValidationCaseBinary ext smallChangeToPredictionScores)
              [0..<cVectorLength * cCases] (pValidationSet, Finite 0)
          }
         else
            foldM (ValidationCaseMulticlass ext aModelUpdateTensor 0 cVectorLength)
              [0..<(if cVectorLength = 0 then 0 else cCases)] (pValidationSet, Finite 0))
      else do {
        cBitsPerItemMax \<leftarrow> GetCountBits (m_cItemsPerBitPackDataUnit pFeatureCombination);
        maskBits \<leftarrow> GetMaskBits cBitsPerItemMax;
        pInputData \<leftarrow> GetDataPointer pValidationSet pFeatureCombination;
        (if IsRegression countCompilerClassificationTargetStates then do {
           (ds, rootMeanSquareError) \<leftarrow>
             BitPackedLoop
               (\<lambda>iBin iCase st. do {
                  smallChangeToPrediction \<leftarrow> rd aModelUpdateTensor (iBin * cVectorLength);
                  ValidationCaseRegression smallChangeToPrediction iCase st
                })
               (m_cItemsPerBitPackDataUnit pFeatureCombination) cBitsPerItemMax maskBits
               pInputData cVectorLength cCases 0 0 (pValidationSet, Finite 0);
           Some (ds, fsqrt (fdiv rootMeanSquareError
                              (FractionalDataType_of_size_t (m_cCases pValidationSet))))
         }
         else
           BitPackedLoop
             (\<lambda>iBin iCase st.
                if IsBinaryClassification countCompilerClassificationTargetStates then do {
                  smallChangeToPredictionScores \<leftarrow> rd aModelUpdateTensor (iBin * cVectorLength);
                  ValidationCaseBinary ext smallChangeToPredictionScores iCase st
                }
                else ValidationCaseMulticlass ext aModelUpdateTensor (iBin * cVectorLength)
                       cVectorLength iCase st)
             (m_cItemsPerBitPackDataUnit pFeatureCombination) cBitsPerItemMax maskBits
             pInputData cVectorLength cCases 0 0 (pValidationSet, Finite 0))
      })"

text \<open>\<open>ValidationSetInputFeatureLoop\<close>: as \<open>TrainingSetInputFeatureLoop\<close>, seven times the
  same call.\<close>

definition ValidationSetInputFeatureLoop ::
  "Externals \<Rightarrow> int \<Rightarrow> FeatureCombination \<Rightarrow> DataSetByFeatureCombination
     \<Rightarrow> FractionalDataType list \<Rightarrow> nat
     \<Rightarrow> (DataSetByFeatureCombination \<times> FractionalDataType) option" where
  "ValidationSetInputFeatureLoop ext countCompilerClassificationTargetStates pFeatureCombination
       pValidationSet aModelUpdateTensor cTargetStates =
     ValidationSetTargetFeatureLoop ext countCompilerClassificationTargetStates
       pFeatureCombination pValidationSet aModelUpdateTensor cTargetStates"

section \<open>Applying an update\<close>

text \<open>
  Modelled from the spec: \<open>SegmentedTensor::AddExpanded\<close>, which is not at hand.  The tensor
  is expanded already; the update is added to its values element by element.  The update
  comes through a pointer and must reach as far as the values do.
\<close>

definition AddExpanded ::
  "SegmentedTensor \<Rightarrow> FractionalDataType list \<Rightarrow> SegmentedTensor option" where
  "AddExpanded t aFromValues =
     (if length (m_aValues t) \<le> length aFromValues
      then Some (t\<lparr>m_aValues := map2 fadd (m_aValues t) aFromValues\<rparr>)
      else None)"

text \<open>
  The loop that commits the best model:
  \<open>do { if(best[iModel]->Copy(*current[iModel])) return 1; ++iModel; } while(iModel != iModelEnd)\<close>.
  The result is the failure flag of the copy that stopped the loop, and the best models as
  the loop leaves them.
\<close>

lemma rd_Some_length: "rd xs i = Some x \<Longrightarrow> i < length xs"
  by (simp add: rd_def split: if_splits)

function CopyBestModels ::
  "Externals \<Rightarrow> SegmentedTensor list \<Rightarrow> nat \<Rightarrow> nat \<Rightarrow> SegmentedTensor list
     \<Rightarrow> (bool \<times> SegmentedTensor list) option" where
  "CopyBestModels ext apCurrentModel iModelEnd iModel apBestModel =
     (case rd apBestModel iModel of
        None \<Rightarrow> None
      | Some pBest \<Rightarrow>
          (case rd apCurrentModel iModel of
             None \<Rightarrow> None
           | Some pCurrent \<Rightarrow>
               (if fst (Copy ext pBest pCurrent)
                then Some (True, apBestModel[iModel := snd (Copy ext pBest pCurrent)])
                else if Suc iModel \<noteq> iModelEnd
                then CopyBestModels ext apCurrentModel iModelEnd (Suc iModel)
                       (apBestModel[iModel := snd (Copy ext pBest pCurrent)])
                else Some (False, apBestModel[iModel := snd (Copy ext pBest pCurrent)]))))"
  by pat_completeness auto
termination
  by (relation "measure (\<lambda>(ext, cur, e, i, best). length best - i)")
     (auto dest: rd_Some_length)

declare CopyBestModels.simps [simp del]

text \<open>
  \<open>ApplyModelFeatureCombinationUpdatePerTargetStates\<close>.  The result is the state, the
  returned status and what stands behind \<open>pValidationMetricReturn\<close> afterwards; \<open>None\<close> is
  the null pointer there, and \<open>Some\<close> holds the value behind a pointer that is not null.
  Logging is left out.
\<close>

definition ApplyModelFeatureCombinationUpdatePerTargetStates ::
  "Externals \<Rightarrow> int \<Rightarrow> EbmTrainingState \<Rightarrow> nat \<Rightarrow> FractionalDataType list
     \<Rightarrow> FractionalDataType option
     \<Rightarrow> (EbmTrainingState \<times> int \<times> FractionalDataType option) option" where
  "ApplyModelFeatureCombinationUpdatePerTargetStates ext countCompilerClassificationTargetStates
       pEbmTrainingState iFeatureCombination aModelUpdateTensor pValidationMetricReturn = do {
     apCurrentModel \<leftarrow> m_apCurrentModel pEbmTrainingState;
     pCurrent \<leftarrow> rd apCurrentModel iFeatureCombination;
     pCurrent' \<leftarrow> AddExpanded pCurrent aModelUpdateTensor;
     let apCurrentModel' = apCurrentModel[iFeatureCombination := pCurrent'];
     apFeatureCombinations \<leftarrow> m_apFeatureCombinations pEbmTrainingState;
     pFeatureCombination \<leftarrow> rd apFeatureCombinations iFeatureCombination;
     pTrainingSet' \<leftarrow>
       (case m_pTrainingSet pEbmTrainingState of
          None \<Rightarrow> Some None
        | Some pTrainingSet \<Rightarrow>
            map_option Some
              (TrainingSetInputFeatureLoop ext countCompilerClassificationTargetStates
                 pFeatureCombination pTrainingSet aModelUpdateTensor
                 (m_cTargetStates pEbmTrainingState)));
     let s1 = pEbmTrainingState\<lparr>m_apCurrentModel := Some apCurrentModel',
                                m_pTrainingSet := pTrainingSet'\<rparr>;
     (case m_pValidationSet pEbmTrainingState of
        None \<Rightarrow> Some (s1, 0, map_option (\<lambda>_. Finite 0) pValidationMetricReturn)
      | Some pValidationSet \<Rightarrow> do {
          (pValidationSet', modelMetric) \<leftarrow>
            ValidationSetInputFeatureLoop ext countCompilerClassificationTargetStates
              pFeatureCombination pValidationSet aModelUpdateTensor
              (m_cTargetStates pEbmTrainingState);
          let s2 = s1\<lparr>m_pValidationSet := Some pValidationSet'\<rparr>;
          (if flt modelMetric (m_bestModelMetric pEbmTrainingState) then do {
             apBestModel \<leftarrow> m_apBestModel pEbmTrainingState;
             (bError, apBestModel') \<leftarrow>
               CopyBestModels ext apCurrentModel' (m_cFeatureCombinations pEbmTrainingState) 0
                 apBestModel;
             let s3 = s2\<lparr>m_bestModelMetric := modelMetric, m_apBestModel := Some apBestModel'\<rparr>;
             (if bError
              then Some (s3, 1, map_option (\<lambda>_. Finite 0) pValidationMetricReturn)
              else Some (s3, 0, map_option (\<lambda>_. modelMetric) pValidationMetricReturn))
           }
           else Some (s2, 0, map_option (\<lambda>_. modelMetric) pValidationMetricReturn))
        })
   }"

text \<open>
  \<open>CompilerRecursiveApplyModelFeatureCombinationUpdate\<close>: the template is instantiated from
  2 upwards; the instance for \<open>k_cCompilerOptimizedTargetStatesMax + 1\<close> is the specialisation
  that takes the class count at run time.
\<close>

function CompilerRecursiveApplyModelFeatureCombinationUpdate ::
  "Externals \<Rightarrow> int \<Rightarrow> nat \<Rightarrow> EbmTrainingState \<Rightarrow> nat \<Rightarrow> FractionalDataType list
     \<Rightarrow> FractionalDataType option
     \<Rightarrow> (EbmTrainingState \<times> int \<times> FractionalDataType option) option" where
  "CompilerRecursiveApplyModelFeatureCombinationUpdate ext iPossibleCompilerOptimizedTargetStates
       cRuntimeTargetStates pEbmTrainingState iFeatureCombination aModelUpdateTensor
       pValidationMetricReturn =
     (if k_cCompilerOptimizedTargetStatesMax ext < iPossibleCompilerOptimizedTargetStates
      then ApplyModelFeatureCombinationUpdatePerTargetStates ext k_DynamicClassification
             pEbmTrainingState iFeatureCombination aModelUpdateTensor pValidationMetricReturn
      else if iPossibleCompilerOptimizedTargetStates = int cRuntimeTargetStates
      then ApplyModelFeatureCombinationUpdatePerTargetStates ext
             iPossibleCompilerOptimizedTargetStates
             pEbmTrainingState iFeatureCombination aModelUpdateTensor pValidationMetricReturn
      else CompilerRecursiveApplyModelFeatureCombinationUpdate ext
             (iPossibleCompilerOptimizedTargetStates + 1) cRuntimeTargetStates
             pEbmTrainingState iFeatureCombination aModelUpdateTensor pValidationMetricReturn)"
  by pat_completeness auto
termination
  by (relation "measure (\<lambda>(ext, i, r). nat (k_cCompilerOptimizedTargetStatesMax ext + 1 - i))")
     auto

declare CompilerRecursiveApplyModelFeatureCombinationUpdate.simps [simp del]

text \<open>\<open>static_cast<size_t>\<close> of an \<open>IntegerDataType\<close>, a signed integer of 64 bits.\<close>

definition size_t_of_IntegerDataType :: "int \<Rightarrow> nat" where
  "size_t_of_IntegerDataType i = nat (i mod 2 ^ 64)"

text \<open>
  \<open>ApplyModelFeatureCombinationUpdate\<close>.  \<open>modelUpdateTensor\<close> is \<open>None\<close> for the null pointer.
\<close>

definition ApplyModelFeatureCombinationUpdate ::
  "Externals \<Rightarrow> EbmTrainingState \<Rightarrow> int \<Rightarrow> FractionalDataType list option
     \<Rightarrow> FractionalDataType option
     \<Rightarrow> (EbmTrainingState \<times> int \<times> FractionalDataType option) option" where
  "ApplyModelFeatureCombinationUpdate ext pEbmTrainingState indexFeatureCombination
       modelUpdateTensor validationMetricReturn =
     (case modelUpdateTensor of
        None \<Rightarrow> Some (pEbmTrainingState, 0, map_option (\<lambda>_. Finite 0) validationMetricReturn)
      | Some aModelUpdateTensor \<Rightarrow>
          (if m_bRegression pEbmTrainingState
           then ApplyModelFeatureCombinationUpdatePerTargetStates ext k_Regression
                  pEbmTrainingState (size_t_of_IntegerDataType indexFeatureCombination)
                  aModelUpdateTensor validationMetricReturn
           else if m_cTargetStates pEbmTrainingState \<le> 1
           then Some (pEbmTrainingState, 0, map_option (\<lambda>_. Finite 0) validationMetricReturn)
           else CompilerRecursiveApplyModelFeatureCombinationUpdate ext 2
                  (m_cTargetStates pEbmTrainingState) pEbmTrainingState
                  (size_t_of_IntegerDataType indexFeatureCombination)
                  aModelUpdateTensor validationMetricReturn))"

section \<open>Generating an update\<close>

text \<open>
  Modelled from the spec: \<open>SetCountDimensions\<close>, \<open>Reset\<close> and \<open>Multiply\<close> of
  \<open>SegmentedTensor\<close>, which is not at hand.  \<open>Reset\<close> leaves a tensor without divisions whose
  one cell is zero; \<open>Multiply\<close> multiplies every value by a scalar.
\<close>

definition SetCountDimensions :: "SegmentedTensor \<Rightarrow> nat \<Rightarrow> SegmentedTensor" where
  "SetCountDimensions t cDimensions = t\<lparr>m_cDimensions := cDimensions\<rparr>"

definition Reset :: "SegmentedTensor \<Rightarrow> SegmentedTensor" where
  "Reset t = t\<lparr>m_aDivisions := replicate (m_cDimensions t) [],
               m_aValues := replicate (m_cVectorLength t) (Finite 0),
               m_bExpanded := False\<rparr>"

definition Multiply :: "SegmentedTensor \<Rightarrow> FractionalDataType \<Rightarrow> SegmentedTensor" where
  "Multiply t v = t\<lparr>m_aValues := map (\<lambda>x. fmul x v) (m_aValues t)\<rparr>"

text \<open>
  A function of the source that returns the null pointer on a failure has \<open>Failed\<close> for
  that return.
\<close>

datatype 'a outcome = Failed | Done 'a

text \<open>
  The tree learner for one sampling set, chosen by the number of features of the feature
  combination.  The result is the tensor that the learner wrote and the value of the local
  variable \<open>gain\<close>: only the learner for one dimension gets a pointer to it, for the others
  it keeps its initial value 0.  The cached thread resources are scratch memory of the
  learners and are left out.
\<close>

definition TrainOneSamplingSet ::
  "Externals \<Rightarrow> int \<Rightarrow> FeatureCombination \<Rightarrow> nat \<Rightarrow> nat \<Rightarrow> nat \<Rightarrow> SamplingMethod
     \<Rightarrow> SegmentedTensor \<Rightarrow> (SegmentedTensor \<times> FractionalDataType) option" where
  "TrainOneSamplingSet ext countCompilerClassificationTargetStates pFeatureCombination
       cTreeSplitsMax cCasesRequiredForSplitParentMin cTargetStates pSamplingSet pOverwrite =
     (if 0 = m_cFeatures pFeatureCombination then
        map_option (\<lambda>t. (t, Finite 0))
          (TrainZeroDimensional ext countCompilerClassificationTargetStates pSamplingSet
             pOverwrite cTargetStates)
      else if 1 = m_cFeatures pFeatureCombination then
        TrainSingleDimensional ext countCompilerClassificationTargetStates pSamplingSet
          pFeatureCombination cTreeSplitsMax cCasesRequiredForSplitParentMin pOverwrite
          cTargetStates
      else
        map_option (\<lambda>t. (t, Finite 0))
          (TrainMultiDimensional ext countCompilerClassificationTargetStates pSamplingSet
             pFeatureCombination pOverwrite cTargetStates))"

text \<open>
  The loop over the sampling sets, \<open>for(iSamplingSet = 0; iSamplingSet <
  cSamplingSetsAfterZero; ++iSamplingSet)\<close>, over the list of the indexes that are left.  Its
  state is the overwrite tensor, the accumulated tensor and \<open>totalGain\<close>.
\<close>

fun SamplingSetLoop ::
  "Externals \<Rightarrow> int \<Rightarrow> FeatureCombination \<Rightarrow> nat \<Rightarrow> nat \<Rightarrow> nat \<Rightarrow> SamplingMethod list
     \<Rightarrow> nat list \<Rightarrow> SegmentedTensor \<times> SegmentedTensor \<times> FractionalDataType
     \<Rightarrow> (SegmentedTensor \<times> SegmentedTensor \<times> FractionalDataType) outcome option" where
  "SamplingSetLoop ext c pFeatureCombination cTreeSplitsMax cCasesRequiredForSplitParentMin
       cTargetStates apSamplingSets [] st = Some (Done st)"
| "SamplingSetLoop ext c pFeatureCombination cTreeSplitsMax cCasesRequiredForSplitParentMin
       cTargetStates apSamplingSets (iSamplingSet # rest) (pOverwrite, pAccumulated, totalGain) =
     (case rd apSamplingSets iSamplingSet of
        None \<Rightarrow> None
      | Some pSamplingSet \<Rightarrow>
          (case TrainOneSamplingSet ext c pFeatureCombination cTreeSplitsMax
                  cCasesRequiredForSplitParentMin cTargetStates pSamplingSet pOverwrite of
             None \<Rightarrow> Some Failed
           | Some (pOverwrite', gain) \<Rightarrow>
               (case Add ext pAccumulated pOverwrite' of
                  None \<Rightarrow> Some Failed
                | Some pAccumulated' \<Rightarrow>
                    SamplingSetLoop ext c pFeatureCombination cTreeSplitsMax
                      cCasesRequiredForSplitParentMin cTargetStates apSamplingSets rest
                      (pOverwrite', pAccumulated', fadd totalGain gain))))"

text \<open>
  The factor by which the accumulated update is multiplied:
  \<open>learningRate / cSamplingSetsAfterZero / 2\<close> when \<open>bDividing\<close> holds, and
  \<open>learningRate / cSamplingSetsAfterZero\<close> otherwise.
\<close>

definition bDividing :: "Externals \<Rightarrow> int \<Rightarrow> bool" where
  "bDividing ext countCompilerClassificationTargetStates =
     (bExpandBinaryLogits ext \<and> 2 = countCompilerClassificationTargetStates)"

definition UpdateMultiple :: "Externals \<Rightarrow> int \<Rightarrow> FractionalDataType \<Rightarrow> nat \<Rightarrow> FractionalDataType" where
  "UpdateMultiple ext countCompilerClassificationTargetStates learningRate cSamplingSetsAfterZero =
     (if IsClassification countCompilerClassificationTargetStates then
        (if bDividing ext countCompilerClassificationTargetStates
         then fdiv (fdiv learningRate (FractionalDataType_of_size_t cSamplingSetsAfterZero))
                (Finite 2)
         else fdiv learningRate (FractionalDataType_of_size_t cSamplingSetsAfterZero))
      else fdiv learningRate (FractionalDataType_of_size_t cSamplingSetsAfterZero))"

text \<open>
  The array \<open>acDivisionIntegersEnd\<close> has room for \<open>k_cDimensionsMax\<close> entries; the loop fills
  it with the numbers of states of the features of the feature combination.
\<close>

definition GetDivisionIntegersEnd :: "Externals \<Rightarrow> FeatureCombination \<Rightarrow> nat \<Rightarrow> nat list option" where
  "GetDivisionIntegersEnd ext pFeatureCombination cDimensions =
     (if k_cDimensionsMax ext < max 1 cDimensions then None
      else foldM (\<lambda>iDimension ac. do {
                    f \<leftarrow> rd (m_FeatureCombinationEntry pFeatureCombination) iDimension;
                    Some (ac @ [m_cStates f])
                  })
             [0..<max 1 cDimensions] [])"

text \<open>
  \<open>GenerateModelFeatureCombinationUpdatePerTargetStates\<close>.  The result is the state, the
  returned pointer to the values of the accumulated tensor (\<open>None\<close> for the null pointer)
  and what stands behind \<open>pGainReturn\<close> afterwards.  When an operation fails the model keeps
  the scratch tensors of the state as they were before the call.
\<close>

definition GenerateModelFeatureCombinationUpdatePerTargetStates ::
  "Externals \<Rightarrow> int \<Rightarrow> EbmTrainingState \<Rightarrow> nat \<Rightarrow> FractionalDataType \<Rightarrow> nat \<Rightarrow> nat
     \<Rightarrow> FractionalDataType option
     \<Rightarrow> (EbmTrainingState \<times> FractionalDataType list option \<times> FractionalDataType option) option"
  where
  "GenerateModelFeatureCombinationUpdatePerTargetStates ext
       countCompilerClassificationTargetStates pEbmTrainingState iFeatureCombination
       learningRate cTreeSplitsMax cCasesRequiredForSplitParentMin pGainReturn = do {
     let pGainReturn0 = map_option (\<lambda>_. Finite 0) pGainReturn;
     let cSamplingSetsAfterZero =
           (if 0 = m_cSamplingSets pEbmTrainingState then 1
            else m_cSamplingSets pEbmTrainingState);
     apFeatureCombinations \<leftarrow> m_apFeatureCombinations pEbmTrainingState;
     pFeatureCombination \<leftarrow> rd apFeatureCombinations iFeatureCombination;
     let cDimensions = m_cFeatures pFeatureCombination;
     pAccumulated0 \<leftarrow> m_pSmallChangeToModelAccumulatedFromSamplingSets pEbmTrainingState;
     let pAccumulated1 = Reset (SetCountDimensions pAccumulated0 cDimensions);
     r \<leftarrow>
       (case m_apSamplingSets pEbmTrainingState of
          None \<Rightarrow>
            Some (Done (m_pSmallChangeToModelOverwriteSingleSamplingSet pEbmTrainingState,
                        pAccumulated1, Finite 0))
        | Some apSamplingSets \<Rightarrow> do {
            pOverwrite0 \<leftarrow> m_pSmallChangeToModelOverwriteSingleSamplingSet pEbmTrainingState;
            l \<leftarrow> SamplingSetLoop ext countCompilerClassificationTargetStates pFeatureCombination
                   cTreeSplitsMax cCasesRequiredForSplitParentMin
                   (m_cTargetStates pEbmTrainingState) apSamplingSets
                   [0..<cSamplingSetsAfterZero]
                   (SetCountDimensions pOverwrite0 cDimensions, pAccumulated1, Finite 0);
            Some (case l of
                    Failed \<Rightarrow> Failed
                  | Done (pOverwrite, pAccumulated, totalGain) \<Rightarrow>
                      Done (Some pOverwrite,
                            Multiply pAccumulated
                              (UpdateMultiple ext countCompilerClassificationTargetStates
                                 learningRate cSamplingSetsAfterZero),
                            fdiv totalGain (FractionalDataType_of_size_t cSamplingSetsAfterZero)))
          });
     (case r of
        Failed \<Rightarrow> Some (pEbmTrainingState, None, pGainReturn0)
      | Done (pOverwrite, pAccumulated, totalGain) \<Rightarrow> do {
          e \<leftarrow>
            (if 0 \<noteq> cDimensions then do {
               acDivisionIntegersEnd \<leftarrow> GetDivisionIntegersEnd ext pFeatureCombination cDimensions;
               Some (case Expand ext pAccumulated acDivisionIntegersEnd of
                       None \<Rightarrow> Failed
                     | Some t \<Rightarrow> Done t)
             }
             else Some (Done pAccumulated));
          Some (case e of
                  Failed \<Rightarrow> (pEbmTrainingState, None, pGainReturn0)
                | Done pAccumulated' \<Rightarrow>
                    (pEbmTrainingState
                       \<lparr>m_pSmallChangeToModelOverwriteSingleSamplingSet := pOverwrite,
                        m_pSmallChangeToModelAccumulatedFromSamplingSets := Some pAccumulated'\<rparr>,
                     Some (m_aValues pAccumulated'),
                     map_option (\<lambda>_. totalGain) pGainReturn0))
        })
   }"

function CompilerRecursiveGenerateModelFeatureCombinationUpdate ::
  "Externals \<Rightarrow> int \<Rightarrow> nat \<Rightarrow> EbmTrainingState \<Rightarrow> nat \<Rightarrow> FractionalDataType \<Rightarrow> nat \<Rightarrow> nat
     \<Rightarrow> FractionalDataType option
     \<Rightarrow> (EbmTrainingState \<times> FractionalDataType list option \<times> FractionalDataType option) option"
  where
  "CompilerRecursiveGenerateModelFeatureCombinationUpdate ext
       iPossibleCompilerOptimizedTargetStates cRuntimeTargetStates pEbmTrainingState
       iFeatureCombination learningRate cTreeSplitsMax cCasesRequiredForSplitParentMin
       pGainReturn =
     (if k_cCompilerOptimizedTargetStatesMax ext < iPossibleCompilerOptimizedTargetStates
      then GenerateModelFeatureCombinationUpdatePerTargetStates ext k_DynamicClassification
             pEbmTrainingState iFeatureCombination learningRate cTreeSplitsMax
             cCasesRequiredForSplitParentMin pGainReturn
      else if iPossibleCompilerOptimizedTargetStates = int cRuntimeTargetStates
      then GenerateModelFeatureCombinationUpdatePerTargetStates ext
             iPossibleCompilerOptimizedTargetStates
             pEbmTrainingState iFeatureCombination learningRate cTreeSplitsMax
             cCasesRequiredForSplitParentMin pGainReturn
      else CompilerRecursiveGenerateModelFeatureCombinationUpdate ext
             (iPossibleCompilerOptimizedTargetStates + 1) cRuntimeTargetStates
             pEbmTrainingState iFeatureCombination learningRate cTreeSplitsMax
             cCasesRequiredForSplitParentMin pGainReturn)"
  by pat_completeness auto
termination
  by (relation "measure (\<lambda>(ext, i, r). nat (k_cCompilerOptimizedTargetStatesMax ext + 1 - i))")
     auto

declare CompilerRecursiveGenerateModelFeatureCombinationUpdate.simps [simp del]

text \<open>
  A count that the caller gives as an \<open>IntegerDataType\<close>: the largest \<open>size_t\<close> stands for
  a count that does not convert.
\<close>

definition size_t_count_of_IntegerDataType :: "int \<Rightarrow> nat" where
  "size_t_count_of_IntegerDataType n = (if 0 \<le> n then size_t_of_IntegerDataType n else 2 ^ 64 - 1)"

text \<open>
  \<open>GenerateModelFeatureCombinationUpdate\<close>.  The weights are not used by the source and are
  left out.
\<close>

definition GenerateModelFeatureCombinationUpdate ::
  "Externals \<Rightarrow> EbmTrainingState \<Rightarrow> int \<Rightarrow> FractionalDataType \<Rightarrow> int \<Rightarrow> int
     \<Rightarrow> FractionalDataType option
     \<Rightarrow> (EbmTrainingState \<times> FractionalDataType list option \<times> FractionalDataType option) option"
  where
  "GenerateModelFeatureCombinationUpdate ext pEbmTrainingState indexFeatureCombination
       learningRate countTreeSplitsMax countCasesRequiredForSplitParentMin gainReturn =
     (if m_bRegression pEbmTrainingState
      then GenerateModelFeatureCombinationUpdatePerTargetStates ext k_Regression
             pEbmTrainingState (size_t_of_IntegerDataType indexFeatureCombination) learningRate
             (size_t_count_of_IntegerDataType countTreeSplitsMax)
             (size_t_count_of_IntegerDataType countCasesRequiredForSplitParentMin) gainReturn
      else if m_cTargetStates pEbmTrainingState \<le> 1
      then Some (pEbmTrainingState, None, map_option (\<lambda>_. Finite 0) gainReturn)
      else CompilerRecursiveGenerateModelFeatureCombinationUpdate ext 2
             (m_cTargetStates pEbmTrainingState) pEbmTrainingState
             (size_t_of_IntegerDataType indexFeatureCombination) learningRate
             (size_t_count_of_IntegerDataType countTreeSplitsMax)
             (size_t_count_of_IntegerDataType countCasesRequiredForSplitParentMin) gainReturn)"

section \<open>The training step\<close>

text \<open>
  \<open>TrainingStep\<close>.  The local variable \<open>gain\<close> is not initialised; every path of
  \<open>GenerateModelFeatureCombinationUpdate\<close> writes it before anything reads it, so the model
  starts it at 0.
\<close>

definition TrainingStep ::
  "Externals \<Rightarrow> EbmTrainingState \<Rightarrow> int \<Rightarrow> FractionalDataType \<Rightarrow> int \<Rightarrow> int
     \<Rightarrow> FractionalDataType option
     \<Rightarrow> (EbmTrainingState \<times> int \<times> FractionalDataType option) option" where
  "TrainingStep ext pEbmTrainingState indexFeatureCombination learningRate countTreeSplitsMax
       countCasesRequiredForSplitParentMin validationMetricReturn =
     (if \<not> m_bRegression pEbmTrainingState \<and> m_cTargetStates pEbmTrainingState \<le> 1
      then Some (pEbmTrainingState, 0, map_option (\<lambda>_. Finite 0) validationMetricReturn)
      else do {
        (s, pModelUpdateTensor, gain) \<leftarrow>
          GenerateModelFeatureCombinationUpdate ext pEbmTrainingState indexFeatureCombination
            learningRate countTreeSplitsMax countCasesRequiredForSplitParentMin
            (Some (Finite 0));
        (case pModelUpdateTensor of
           None \<Rightarrow> Some (s, 1, validationMetricReturn)
         | Some aModelUpdateTensor \<Rightarrow>
             ApplyModelFeatureCombinationUpdate ext s indexFeatureCombination
               (Some aModelUpdateTensor) validationMetricReturn)
      })"

section \<open>Constructing the training state\<close>

text \<open>
  The constructor of \<open>EbmTrainingState\<close>.  What its allocations return (the array of the
  feature combinations, the two scratch tensors and the array of the features) are
  arguments; every other pointer starts as the null pointer, and the best metric as
  positive infinity.
\<close>

definition EbmTrainingState_new ::
  "bool \<Rightarrow> nat \<Rightarrow> nat \<Rightarrow> nat \<Rightarrow> nat \<Rightarrow> FeatureCombination list option
     \<Rightarrow> SegmentedTensor option \<Rightarrow> SegmentedTensor option \<Rightarrow> Feature list option
     \<Rightarrow> EbmTrainingState" where
  "EbmTrainingState_new bRegression cTargetStates cFeatures cFeatureCombinations cSamplingSets
       allocatedFeatureCombinations allocatedOverwrite allocatedAccumulated allocatedFeatures =
     \<lparr>m_bRegression = bRegression,
      m_cTargetStates = cTargetStates,
      m_cFeatureCombinations = cFeatureCombinations,
      m_apFeatureCombinations =
        (if 0 = cFeatureCombinations then None else allocatedFeatureCombinations),
      m_pTrainingSet = None,
      m_pValidationSet = None,
      m_cSamplingSets = cSamplingSets,
      m_apSamplingSets = None,
      m_apCurrentModel = None,
      m_apBestModel = None,
      m_bestModelMetric = PosInf,
      m_pSmallChangeToModelOverwriteSingleSamplingSet = allocatedOverwrite,
      m_pSmallChangeToModelAccumulatedFromSamplingSets = allocatedAccumulated,
      m_cFeatures_state = cFeatures,
      m_aFeatures = (if 0 = cFeatures then None else allocatedFeatures)\<rparr>"

section \<open>Notions for the statements\<close>

text \<open>
  The instance of the templates that the exported functions choose for a state: regression,
  the class count itself when it is at most \<open>k_cCompilerOptimizedTargetStatesMax\<close>, and the
  instance for a class count known at run time otherwise.
\<close>

definition CompiledTargetStates :: "Externals \<Rightarrow> EbmTrainingState \<Rightarrow> int" where
  "CompiledTargetStates ext s =
     (if m_bRegression s then k_Regression
      else if 2 \<le> m_cTargetStates s \<and> int (m_cTargetStates s) \<le> k_cCompilerOptimizedTargetStatesMax ext
      then int (m_cTargetStates s) else k_DynamicClassification)"

text \<open>
  A sequence of calls of \<open>ApplyModelFeatureCombinationUpdate\<close> on one training state: the
  list of the states before, between and after the calls.  A call is the index of the
  feature combination, the update and the pointer for the metric.  The sequence ends where
  a call leaves the defined behaviour.
\<close>

fun ApplyCalls ::
  "Externals \<Rightarrow> EbmTrainingState
     \<Rightarrow> (int \<times> FractionalDataType list option \<times> FractionalDataType option) list
     \<Rightarrow> EbmTrainingState list" where
  "ApplyCalls ext s [] = [s]"
| "ApplyCalls ext s ((i, U, vmr) # calls) =
     s # (case ApplyModelFeatureCombinationUpdate ext s i U vmr of
            None \<Rightarrow> []
          | Some (s', r) \<Rightarrow> ApplyCalls ext s' calls)"

fun nonincreasing :: "FractionalDataType list \<Rightarrow> bool" where
  "nonincreasing (x # y # zs) = (fle y x \<and> nonincreasing (y # zs))"
| "nonincreasing zs = True"

section \<open>An example\<close>

text \<open>
  An environment and a training state for the examples below.  The statistics are the ones
  the spec describes; the learners write a constant; \<open>Add\<close> adds tensors of the same shape,
  \<open>Expand\<close> and \<open>Copy\<close> never fail.  The state is a regression with one feature combination
  without features, four training cases, one validation case and no update applied yet.
\<close>

fun fln :: "FractionalDataType \<Rightarrow> FractionalDataType" where
  "fln (Finite x) = (if x < 0 then NaN else if x = 0 then NegInf else Finite (ln x))"
| "fln PosInf = PosInf"
| "fln NegInf = NaN"
| "fln NaN = NaN"

definition example_Externals :: Externals where
  "example_Externals =
     \<lparr>k_cCompilerOptimizedTargetStatesMax = 3,
      k_iZeroResidual = - 1,
      k_cDimensionsMax = 2,
      bExpandBinaryLogits = False,
      ComputeClassificationResidualErrorBinaryclass =
        (\<lambda>score targetData.
           fsub (Finite (real (unat targetData)))
             (fdiv (Finite 1) (fadd (Finite 1) (fexp (fneg score))))),
      ComputeClassificationResidualErrorMulticlass =
        (\<lambda>sumExp score targetData iVector.
           fsub (fdiv (fexp score) sumExp) (Finite (if targetData = iVector then 1 else 0))),
      ComputeClassificationSingleCaseLogLossBinaryclass =
        (\<lambda>score targetData.
           fsub (fln (fadd (Finite 1) (fexp score)))
             (fmul (Finite (real (unat targetData))) score)),
      ComputeClassificationSingleCaseLogLossMulticlass =
        (\<lambda>sumExp aScores iScores targetData.
           fsub (fln sumExp)
             (case rd aScores (iScores + unat targetData) of None \<Rightarrow> NaN | Some x \<Rightarrow> x)),
      TrainZeroDimensional =
        (\<lambda>c pSamplingSet t cTargetStates.
           Some (t\<lparr>m_aValues := replicate (m_cVectorLength t) (Finite 4)\<rparr>)),
      TrainSingleDimensional =
        (\<lambda>c pSamplingSet pFeatureCombination cTreeSplitsMax cCasesMin t cTargetStates.
           Some (t\<lparr>m_aValues := replicate (m_cVectorLength t) (Finite 4)\<rparr>, Finite (- 6))),
      TrainMultiDimensional =
        (\<lambda>c pSamplingSet pFeatureCombination t cTargetStates.
           Some (t\<lparr>m_aValues := replicate (m_cVectorLength t) (Finite 4)\<rparr>)),
      Add =
        (\<lambda>a b. if length (m_aValues a) = length (m_aValues b)
               then Some (a\<lparr>m_aValues := map2 fadd (m_aValues a) (m_aValues b)\<rparr>)
               else None),
      Expand = (\<lambda>t acDivisionIntegersEnd. Some (t\<lparr>m_bExpanded := True\<rparr>)),
      Copy = (\<lambda>dst src. (False, src))\<rparr>"

definition example_intercept :: FeatureCombination where
  "example_intercept =
     \<lparr>m_cItemsPerBitPackDataUnit = 0, m_cFeatures = 0, m_iInputData = 0,
      m_FeatureCombinationEntry = []\<rparr>"

definition example_tensor :: "FractionalDataType list \<Rightarrow> SegmentedTensor" where
  "example_tensor values =
     \<lparr>m_cVectorLength = 1, m_cDimensions = 0, m_aDivisions = [], m_aValues = values,
      m_bExpanded = True\<rparr>"

definition example_data :: "FractionalDataType list \<Rightarrow> DataSetByFeatureCombination" where
  "example_data residuals =
     \<lparr>m_aResidualErrors = residuals, m_aPredictionScores = [], m_aTargetData = [],
      m_aaInputData = [[]], m_cCases = length residuals\<rparr>"

definition example_state :: EbmTrainingState where
  "example_state =
     \<lparr>m_bRegression = True,
      m_cTargetStates = 0,
      m_cFeatureCombinations = 1,
      m_apFeatureCombinations = Some [example_intercept],
      m_pTrainingSet = Some (example_data [Finite 1, Finite 3, Finite 5, Finite 7]),
      m_pValidationSet = Some (example_data [Finite 2]),
      m_cSamplingSets = 0,
      m_apSamplingSets = Some [[1, 1, 1, 1]],
      m_apCurrentModel = Some [example_tensor [Finite 0]],
      m_apBestModel = Some [example_tensor [Finite 0]],
      m_bestModelMetric = PosInf,
      m_pSmallChangeToModelOverwriteSingleSamplingSet = Some (example_tensor [Finite 0]),
      m_pSmallChangeToModelAccumulatedFromSamplingSets = Some (example_tensor [Finite 0]),
      m_cFeatures_state = 0,
      m_aFeatures = None\<rparr>"

text \<open>The same environment with a \<open>Copy\<close> that reports a failure and leaves the
  destination as it is.\<close>

definition example_Externals_failing_copy :: Externals where
  "example_Externals_failing_copy = example_Externals\<lparr>Copy := (\<lambda>dst src. (True, dst))\<rparr>"


text \<open>
  Variants of the example: an \<open>Expand\<close> that reports a failure; \<open>EXPAND_BINARY_LOGITS\<close>
  defined; a feature combination of one feature with four states, whose bins take two bits
  each, with the four training cases in the bins 0, 1, 2 and 3 and the validation case in
  the bin 2; and a binary classification with two training cases.
\<close>

definition example_Externals_failing_expand :: Externals where
  "example_Externals_failing_expand =
     example_Externals\<lparr>Expand := (\<lambda>t acDivisionIntegersEnd. None)\<rparr>"

definition example_Externals_expanded_logits :: Externals where
  "example_Externals_expanded_logits = example_Externals\<lparr>bExpandBinaryLogits := True\<rparr>"

definition example_main_effect :: FeatureCombination where
  "example_main_effect =
     \<lparr>m_cItemsPerBitPackDataUnit = 32, m_cFeatures = 1, m_iInputData = 0,
      m_FeatureCombinationEntry = [\<lparr>m_cStates = 4\<rparr>]\<rparr>"

definition example_state_main_effect :: EbmTrainingState where
  "example_state_main_effect =
     example_state
       \<lparr>m_apFeatureCombinations := Some [example_main_effect],
        m_pTrainingSet :=
          Some ((example_data [Finite 1, Finite 3, Finite 5, Finite 7])
                  \<lparr>m_aaInputData := [[228]]\<rparr>),
        m_pValidationSet := Some ((example_data [Finite 2])\<lparr>m_aaInputData := [[2]]\<rparr>),
        m_apCurrentModel := Some [example_tensor [Finite 0, Finite 0, Finite 0, Finite 0]],
        m_apBestModel := Some [example_tensor [Finite 0, Finite 0, Finite 0, Finite 0]],
        m_cFeatures_state := 1,
        m_aFeatures := Some [\<lparr>m_cStates = 4\<rparr>]\<rparr>"

definition example_state_binary :: EbmTrainingState where
  "example_state_binary =
     example_state
       \<lparr>m_bRegression := False,
        m_cTargetStates := 2,
        m_pTrainingSet :=
          Some \<lparr>m_aResidualErrors = [Finite (- 1 / 2), Finite (1 / 2)],
                m_aPredictionScores = [Finite 0, Finite 0],
                m_aTargetData = [0, 1],
                m_aaInputData = [[]],
                m_cCases = 2\<rparr>,
        m_pValidationSet := None,
        m_apSamplingSets := Some [[1, 1]]\<rparr>"


section \<open>Bit-packed columns\<close>

text \<open>Modelled from the spec: the code that builds the packed columns of a data set is not
  part of \<^verbatim>\<open>Training.cpp\<close>.  The spec packs \<^verbatim>\<open>items_per_pack\<close> bin indices of
  \<^verbatim>\<open>bits_per_item\<close> bits each into one storage word, in case order, the first case in the lowest
  bits (the word \<^verbatim>\<open>0b11_10_01_00\<close> holds the bins 0, 1, 2, 3).\<close>

fun PackItems :: "nat \<Rightarrow> nat list \<Rightarrow> nat" where
  "PackItems cBitsPerItemMax [] = 0"
| "PackItems cBitsPerItemMax (iBin # rest) = iBin + 2 ^ cBitsPerItemMax * PackItems cBitsPerItemMax rest"

function PackColumn :: "nat \<Rightarrow> nat \<Rightarrow> nat list \<Rightarrow> StorageDataTypeCore list" where
  "PackColumn cItemsPerBitPackDataUnit cBitsPerItemMax bins =
     (if bins = [] \<or> cItemsPerBitPackDataUnit = 0 then []
      else word_of_nat (PackItems cBitsPerItemMax (take cItemsPerBitPackDataUnit bins))
             # PackColumn cItemsPerBitPackDataUnit cBitsPerItemMax
                 (drop cItemsPerBitPackDataUnit bins))"
  by pat_completeness auto
termination
  by (relation "measure (\<lambda>(p, b, bins). length bins)") auto

declare PackColumn.simps [simp del]

text \<open>The bin of a case, as it stands in a bit-packed column.\<close>

definition PackedBin :: "nat \<Rightarrow> nat \<Rightarrow> StorageDataTypeCore list \<Rightarrow> nat \<Rightarrow> nat" where
  "PackedBin cItemsPerBitPackDataUnit cBitsPerItemMax pInputData iCase =
     unat (mask cBitsPerItemMax
           AND drop_bit (cBitsPerItemMax * (iCase mod cItemsPerBitPackDataUnit))
                 (pInputData ! (iCase div cItemsPerBitPackDataUnit)))"

text \<open>What the training-set pass does with one case once it holds the case's bin: the body of
  the inner loop of \<^verbatim>\<open>TrainingSetTargetFeatureLoop\<close>.\<close>

definition TrainingCase ::
  "Externals \<Rightarrow> int \<Rightarrow> FractionalDataType list \<Rightarrow> nat \<Rightarrow> nat \<Rightarrow> nat
     \<Rightarrow> DataSetByFeatureCombination \<Rightarrow> DataSetByFeatureCombination option" where
  "TrainingCase ext countCompilerClassificationTargetStates aModelUpdateTensor cVectorLength
       iBin iCase pTrainingSet =
     (if IsRegression countCompilerClassificationTargetStates then do {
        smallChangeToPrediction \<leftarrow> rd aModelUpdateTensor (iBin * cVectorLength);
        TrainingCaseRegression smallChangeToPrediction iCase pTrainingSet
      }
      else if IsBinaryClassification countCompilerClassificationTargetStates then do {
        smallChangeToPredictionScores \<leftarrow> rd aModelUpdateTensor (iBin * cVectorLength);
        TrainingCaseBinary ext smallChangeToPredictionScores iCase pTrainingSet
      }
      else TrainingCaseMulticlass ext aModelUpdateTensor (iBin * cVectorLength) cVectorLength
             iCase pTrainingSet)"


section \<open>Residual zeroing\<close>

text \<open>The residual of class \<open>iZero\<close> is 0 for the first \<open>cCases\<close> cases of a data set with
  \<open>cVectorLength\<close> residuals a case.\<close>

definition zeroed :: "nat \<Rightarrow> nat \<Rightarrow> nat \<Rightarrow> DataSetByFeatureCombination \<Rightarrow> bool" where
  "zeroed cVectorLength iZero cCases pTrainingSet =
     (\<forall>iCase<cCases. rd (m_aResidualErrors pTrainingSet) (cVectorLength * iCase + iZero)
                       = Some (Finite 0))"

text \<open>A configuration that zeroes the residual of class 0, and a data set of two cases with
  three classes.\<close>

definition example_Externals_zeroing :: Externals where
  "example_Externals_zeroing = example_Externals\<lparr>k_iZeroResidual := 0\<rparr>"

definition example_data_multiclass :: DataSetByFeatureCombination where
  "example_data_multiclass =
     \<lparr>m_aResidualErrors = [Finite 9, Finite 9, Finite 9, Finite 9, Finite 9, Finite 9],
      m_aPredictionScores = [Finite 0, Finite 0, Finite 0, Finite 0, Finite 0, Finite 0],
      m_aTargetData = [1, 2], m_aaInputData = [[]], m_cCases = 2\<rparr>"


section \<open>Zero updates\<close>

text \<open>
  Notions for the passes with an update of zeros.  \<open>SumExp\<close> is the sum of the exponentials
  of the scores of a case, as the first inner loop of the multiclass bodies accumulates it.
  A case of the training set is \<open>TrainingSynced\<close> when its residuals are the ones that the
  pass computes from its scores and its target: nothing to ask for regression, the binary
  residual of the score, and for multiclass the residual of every class with the 0 at the
  zeroing index.
\<close>

definition SumExp :: "nat \<Rightarrow> FractionalDataType list \<Rightarrow> nat \<Rightarrow> FractionalDataType" where
  "SumExp cVectorLength aPredictionScores iCase =
     foldl (\<lambda>sumExp iVector. fadd sumExp (fexp (aPredictionScores ! (cVectorLength * iCase + iVector))))
       (Finite 0) [0..<cVectorLength]"

definition TrainingSynced ::
  "Externals \<Rightarrow> int \<Rightarrow> nat \<Rightarrow> nat \<Rightarrow> DataSetByFeatureCombination \<Rightarrow> bool" where
  "TrainingSynced ext countCompilerClassificationTargetStates cVectorLength iCase pTrainingSet =
     (if IsRegression countCompilerClassificationTargetStates then True
      else if IsBinaryClassification countCompilerClassificationTargetStates then
        m_aResidualErrors pTrainingSet ! iCase
          = ComputeClassificationResidualErrorBinaryclass ext
              (m_aPredictionScores pTrainingSet ! iCase) (m_aTargetData pTrainingSet ! iCase)
      else
        (\<forall>iVector<cVectorLength.
           m_aResidualErrors pTrainingSet ! (cVectorLength * iCase + iVector)
             = (if int iVector = k_iZeroResidual ext then Finite 0
                else ComputeClassificationResidualErrorMulticlass ext
                       (SumExp cVectorLength (m_aPredictionScores pTrainingSet) iCase)
                       (m_aPredictionScores pTrainingSet ! (cVectorLength * iCase + iVector))
                       (m_aTargetData pTrainingSet ! iCase) (word_of_nat iVector))))"

text \<open>The invariants of the two inner loops over the classes, after \<open>m\<close> classes, and what
  the work on one multiclass case of the training set leaves behind.\<close>

definition scores_updated ::
  "FractionalDataType list \<Rightarrow> nat \<Rightarrow> nat \<Rightarrow> nat \<Rightarrow> FractionalDataType list \<Rightarrow> FractionalDataType
     \<Rightarrow> nat \<Rightarrow> FractionalDataType list \<times> FractionalDataType \<Rightarrow> bool" where
  "scores_updated u iv v j sc a0 m st =
     (length (fst st) = length sc
      \<and> (\<forall>k<m. v * j + k < length sc \<and> iv + k < length u
                \<and> fst st ! (v * j + k) = fadd (sc ! (v * j + k)) (u ! (iv + k)))
      \<and> (\<forall>idx. idx < v * j \<or> v * j + m \<le> idx \<longrightarrow> fst st ! idx = sc ! idx)
      \<and> snd st = foldl (\<lambda>a k. fadd a (fexp (fst st ! (v * j + k)))) a0 [0..<m])"

definition residuals_written ::
  "Externals \<Rightarrow> FractionalDataType list \<Rightarrow> FractionalDataType \<Rightarrow> StorageDataTypeCore \<Rightarrow> nat \<Rightarrow> nat
     \<Rightarrow> FractionalDataType list \<Rightarrow> nat \<Rightarrow> FractionalDataType list \<Rightarrow> bool" where
  "residuals_written ext sc se t v j r m x =
     (length x = length r
      \<and> (\<forall>k<m. v * j + k < length r
                \<and> x ! (v * j + k)
                  = ComputeClassificationResidualErrorMulticlass ext se (sc ! (v * j + k)) t
                      (word_of_nat k))
      \<and> (\<forall>idx. idx < v * j \<or> v * j + m \<le> idx \<longrightarrow> x ! idx = r ! idx))"

definition multiclass_case_done ::
  "Externals \<Rightarrow> FractionalDataType list \<Rightarrow> nat \<Rightarrow> nat \<Rightarrow> nat \<Rightarrow> DataSetByFeatureCombination
     \<Rightarrow> DataSetByFeatureCombination \<Rightarrow> bool" where
  "multiclass_case_done ext u iv v j ds ds' =
     (ds' = ds\<lparr>m_aPredictionScores := m_aPredictionScores ds',
               m_aResidualErrors := m_aResidualErrors ds'\<rparr>
      \<and> length (m_aPredictionScores ds') = length (m_aPredictionScores ds)
      \<and> length (m_aResidualErrors ds') = length (m_aResidualErrors ds)
      \<and> (\<forall>k<v. v * j + k < length (m_aPredictionScores ds) \<and> iv + k < length u
                \<and> v * j + k < length (m_aResidualErrors ds)
                \<and> m_aPredictionScores ds' ! (v * j + k)
                    = fadd (m_aPredictionScores ds ! (v * j + k)) (u ! (iv + k))
                \<and> m_aResidualErrors ds' ! (v * j + k)
                    = (if int k = k_iZeroResidual ext then Finite 0
                       else ComputeClassificationResidualErrorMulticlass ext
                              (SumExp v (m_aPredictionScores ds') j)
                              (m_aPredictionScores ds' ! (v * j + k))
                              (m_aTargetData ds ! j) (word_of_nat k)))
      \<and> (\<forall>idx. idx < v * j \<or> v * j + v \<le> idx \<longrightarrow>
             m_aPredictionScores ds' ! idx = m_aPredictionScores ds ! idx
             \<and> m_aResidualErrors ds' ! idx = m_aResidualErrors ds ! idx))"

text \<open>
  The body of the inner loop of \<open>ValidationSetTargetFeatureLoop\<close> for the case in a bin, and
  the metric that the pass makes of the sum over the cases.
\<close>

definition ValidationCase ::
  "Externals \<Rightarrow> int \<Rightarrow> FractionalDataType list \<Rightarrow> nat \<Rightarrow> nat \<Rightarrow> nat
     \<Rightarrow> DataSetByFeatureCombination \<times> FractionalDataType
     \<Rightarrow> (DataSetByFeatureCombination \<times> FractionalDataType) option" where
  "ValidationCase ext countCompilerClassificationTargetStates aModelUpdateTensor cVectorLength
       iBin iCase st =
     (if IsRegression countCompilerClassificationTargetStates then do {
        smallChangeToPrediction \<leftarrow> rd aModelUpdateTensor (iBin * cVectorLength);
        ValidationCaseRegression smallChangeToPrediction iCase st
      }
      else if IsBinaryClassification countCompilerClassificationTargetStates then do {
        smallChangeToPredictionScores \<leftarrow> rd aModelUpdateTensor (iBin * cVectorLength);
        ValidationCaseBinary ext smallChangeToPredictionScores iCase st
      }
      else ValidationCaseMulticlass ext aModelUpdateTensor (iBin * cVectorLength) cVectorLength
             iCase st)"

definition ValidationMetric :: "int \<Rightarrow> nat \<Rightarrow> FractionalDataType \<Rightarrow> FractionalDataType" where
  "ValidationMetric countCompilerClassificationTargetStates cCases sumOverCases =
     (if IsRegression countCompilerClassificationTargetStates
      then fsqrt (fdiv sumOverCases (FractionalDataType_of_size_t cCases))
      else sumOverCases)"

text \<open>
  The summand of a case as the validation set holds it after the pass, and the sum over the
  first cases.  \<open>LogLossLocal\<close> is the contract of the multiclass log loss, which is not at
  hand: the function gets a pointer to the scores of a case, and for the targets of the data
  set its result depends on the scores of that case only.
\<close>

definition CaseMetric ::
  "Externals \<Rightarrow> int \<Rightarrow> nat \<Rightarrow> DataSetByFeatureCombination \<Rightarrow> nat \<Rightarrow> FractionalDataType" where
  "CaseMetric ext countCompilerClassificationTargetStates cVectorLength pValidationSet iCase =
     (if IsRegression countCompilerClassificationTargetStates then
        fmul (m_aResidualErrors pValidationSet ! iCase) (m_aResidualErrors pValidationSet ! iCase)
      else if IsBinaryClassification countCompilerClassificationTargetStates then
        ComputeClassificationSingleCaseLogLossBinaryclass ext
          (m_aPredictionScores pValidationSet ! iCase) (m_aTargetData pValidationSet ! iCase)
      else
        ComputeClassificationSingleCaseLogLossMulticlass ext
          (SumExp cVectorLength (m_aPredictionScores pValidationSet) iCase)
          (m_aPredictionScores pValidationSet) (cVectorLength * iCase)
          (m_aTargetData pValidationSet ! iCase))"

definition ValidationSum ::
  "Externals \<Rightarrow> int \<Rightarrow> nat \<Rightarrow> DataSetByFeatureCombination \<Rightarrow> nat \<Rightarrow> FractionalDataType" where
  "ValidationSum ext countCompilerClassificationTargetStates cVectorLength pValidationSet cCases =
     foldl (\<lambda>sumOverCases iCase. fadd sumOverCases
              (CaseMetric ext countCompilerClassificationTargetStates cVectorLength pValidationSet
                 iCase))
       (Finite 0) [0..<cCases]"

definition LogLossLocal :: "Externals \<Rightarrow> nat \<Rightarrow> StorageDataTypeCore list \<Rightarrow> nat \<Rightarrow> bool" where
  "LogLossLocal ext cVectorLength aTargetData cCases =
     (\<forall>iCase<cCases. \<forall>sumExp aScores aScores'.
        length aScores = length aScores'
        \<longrightarrow> (\<forall>iVector<cVectorLength.
               aScores ! (cVectorLength * iCase + iVector)
                 = aScores' ! (cVectorLength * iCase + iVector))
        \<longrightarrow> ComputeClassificationSingleCaseLogLossMulticlass ext sumExp aScores
              (cVectorLength * iCase) (aTargetData ! iCase)
            = ComputeClassificationSingleCaseLogLossMulticlass ext sumExp aScores'
              (cVectorLength * iCase) (aTargetData ! iCase))"





section \<open>Lemmas\<close>

lemmas example_defs = example_state_def example_data_def example_tensor_def example_intercept_def

lemmas apply_defs = ApplyModelFeatureCombinationUpdate_def
  ApplyModelFeatureCombinationUpdatePerTargetStates_def
  TrainingSetInputFeatureLoop_def TrainingSetTargetFeatureLoop_def
  ValidationSetInputFeatureLoop_def ValidationSetTargetFeatureLoop_def
  TrainingCaseRegression_def ValidationCaseRegression_def ComputeRegressionResidualError_def
  AddExpanded_def rd_def wr_def GET_VECTOR_LENGTH_def GetVectorLengthFlatCore_def
  IsRegression_def k_Regression_def k_DynamicClassification_def size_t_of_IntegerDataType_def
  fsub_def FractionalDataType_of_size_t_def

lemma upt_4: "[0..<4] = [0, 1, 2, Suc 2]"
  by (simp add: upt_rec)

lemma CompilerRecursiveApply_eq:
  "k \<le> int r \<or> k_cCompilerOptimizedTargetStatesMax ext < k \<Longrightarrow>
   CompilerRecursiveApplyModelFeatureCombinationUpdate ext k r s i U vmr
     = ApplyModelFeatureCombinationUpdatePerTargetStates ext
         (if int r \<le> k_cCompilerOptimizedTargetStatesMax ext \<and> k \<le> int r then int r else k_DynamicClassification) s i U vmr"
proof (induction ext k r s i U vmr rule: CompilerRecursiveApplyModelFeatureCombinationUpdate.induct)
  case (1 ext k r s i U vmr)
  show ?case
  proof (cases "k_cCompilerOptimizedTargetStatesMax ext < k")
    case True
    then show ?thesis
      using "1.prems" by (subst CompilerRecursiveApplyModelFeatureCombinationUpdate.simps) auto
  next
    case False
    note nk = this
    show ?thesis
    proof (cases "k = int r")
      case True
      with nk show ?thesis
        by (subst CompilerRecursiveApplyModelFeatureCombinationUpdate.simps) auto
    next
      case False
      with nk "1.prems" have lt: "k + 1 \<le> int r \<or> k_cCompilerOptimizedTargetStatesMax ext < k + 1" by auto
      from "1.IH" [OF nk False lt] nk False "1.prems" show ?thesis
        by (subst CompilerRecursiveApplyModelFeatureCombinationUpdate.simps) auto
    qed
  qed
qed

lemma ApplyModelFeatureCombinationUpdate_dispatch:
  assumes "m_bRegression s \<or> 2 \<le> m_cTargetStates s"
  shows "ApplyModelFeatureCombinationUpdate ext s i (Some U) vmr
         = ApplyModelFeatureCombinationUpdatePerTargetStates ext (CompiledTargetStates ext s) s
             (size_t_of_IntegerDataType i) U vmr"
proof (cases "m_bRegression s")
  case True
  then show ?thesis
    by (simp add: ApplyModelFeatureCombinationUpdate_def CompiledTargetStates_def)
next
  case False
  with assms have k: "2 \<le> m_cTargetStates s" by simp
  then have "(2::int) \<le> int (m_cTargetStates s) \<or> k_cCompilerOptimizedTargetStatesMax ext < 2" by simp
  from CompilerRecursiveApply_eq [OF this] False k show ?thesis
    by (auto simp: ApplyModelFeatureCombinationUpdate_def CompiledTargetStates_def)
qed

lemma CopyBestModels_Some:
  "CopyBestModels ext cur e i best = Some (err, best') \<Longrightarrow>
     length best' = length best \<and> (\<forall>j<i. best' ! j = best ! j)
     \<and> (\<not> err \<longrightarrow> i < e
          \<and> (\<forall>j. i \<le> j \<and> j < e \<longrightarrow>
                 \<not> fst (Copy ext (best ! j) (cur ! j))
                 \<and> best' ! j = snd (Copy ext (best ! j) (cur ! j)))
          \<and> (\<forall>j. e \<le> j \<longrightarrow> best' ! j = best ! j))"
proof (induction ext cur e i best arbitrary: err best' rule: CopyBestModels.induct)
  case (1 ext cur e i best)
  from "1.prems" obtain pBest where b: "rd best i = Some pBest"
    by (subst (asm) CopyBestModels.simps) (auto split: option.splits)
  from "1.prems" b obtain pCur where c: "rd cur i = Some pCur"
    by (subst (asm) CopyBestModels.simps) (auto split: option.splits)
  from b have ib: "i < length best" and pb: "pBest = best ! i"
    by (auto simp: rd_def split: if_splits)
  from c have pc: "pCur = cur ! i"
    by (auto simp: rd_def split: if_splits)
  show ?case
  proof (cases "fst (Copy ext pBest pCur)")
    case True
    with "1.prems" b c have "err" "best' = best[i := snd (Copy ext pBest pCur)]"
      by (subst (asm) CopyBestModels.simps; simp)+
    then show ?thesis by simp
  next
    case False
    note ok = this
    show ?thesis
    proof (cases "Suc i = e")
      case True
      with "1.prems" b c ok have "\<not> err" "best' = best[i := snd (Copy ext pBest pCur)]"
        by (subst (asm) CopyBestModels.simps; simp)+
      with True ok pb pc ib show ?thesis
        by (auto simp: nth_list_update le_Suc_eq less_Suc_eq_le)
    next
      case False
      with "1.prems" b c ok have rec:
        "CopyBestModels ext cur e (Suc i) (best[i := snd (Copy ext pBest pCur)]) = Some (err, best')"
        by (subst (asm) CopyBestModels.simps) simp
      from "1.IH" [OF b c ok False rec]
      have ih: "length best' = length best"
        "\<forall>j<Suc i. best' ! j = best[i := snd (Copy ext pBest pCur)] ! j"
        "\<not> err \<longrightarrow> Suc i < e
          \<and> (\<forall>j. Suc i \<le> j \<and> j < e \<longrightarrow>
                 \<not> fst (Copy ext (best[i := snd (Copy ext pBest pCur)] ! j) (cur ! j))
                 \<and> best' ! j = snd (Copy ext (best[i := snd (Copy ext pBest pCur)] ! j) (cur ! j)))
          \<and> (\<forall>j. e \<le> j \<longrightarrow> best' ! j = best[i := snd (Copy ext pBest pCur)] ! j)"
        by simp_all
      show ?thesis
      proof (intro conjI impI allI)
        show "length best' = length best" by (rule ih(1))
      next
        fix j assume "j < i"
        with ih(2) show "best' ! j = best ! j" by (simp add: nth_list_update)
      next
        assume "\<not> err"
        with ih(3) show "i < e" by simp
      next
        fix j assume ne: "\<not> err" and j: "i \<le> j \<and> j < e"
        show "\<not> fst (Copy ext (best ! j) (cur ! j))"
        proof (cases "j = i")
          case True
          with ok pb pc show ?thesis by simp
        next
          case False
          with j have "Suc i \<le> j \<and> j < e" by simp
          with ih(3) ne False show ?thesis by (simp add: nth_list_update)
        qed
      next
        fix j assume ne: "\<not> err" and j: "i \<le> j \<and> j < e"
        show "best' ! j = snd (Copy ext (best ! j) (cur ! j))"
        proof (cases "j = i")
          case True
          with ih(2) ib pb pc show ?thesis by (simp add: nth_list_update)
        next
          case False
          with j have "Suc i \<le> j \<and> j < e" by simp
          with ih(3) ne False show ?thesis by (simp add: nth_list_update)
        qed
      next
        fix j assume ne: "\<not> err" and j: "e \<le> j"
        with ih(3) have "i < j" by simp
        with ih(3) ne j show "best' ! j = best ! j" by (simp add: nth_list_update)
      qed
    qed
  qed
qed


lemma CompilerRecursiveApply_cases:
  "\<exists>c. CompilerRecursiveApplyModelFeatureCombinationUpdate ext k r s i U vmr
        = ApplyModelFeatureCombinationUpdatePerTargetStates ext c s i U vmr"
proof (induction ext k r s i U vmr rule: CompilerRecursiveApplyModelFeatureCombinationUpdate.induct)
  case (1 ext k r s i U vmr)
  show ?case
    using "1.IH"
    by (subst CompilerRecursiveApplyModelFeatureCombinationUpdate.simps) auto
qed

lemma Apply_PerTargetStates_validation:
  assumes "m_pValidationSet s = Some vs"
    and "m_apFeatureCombinations s = Some fcs" and "rd fcs i = Some fc"
    and "ValidationSetInputFeatureLoop ext c fc vs U (m_cTargetStates s) = Some (vs', m)"
    and "ApplyModelFeatureCombinationUpdatePerTargetStates ext c s i U vmr = Some (s', ret, vmr')"
  shows "(\<not> flt m (m_bestModelMetric s) \<longrightarrow>
            ret = 0 \<and> vmr' = map_option (\<lambda>_. m) vmr
            \<and> m_bestModelMetric s' = m_bestModelMetric s \<and> m_apBestModel s' = m_apBestModel s)
       \<and> (flt m (m_bestModelMetric s) \<longrightarrow>
            m_bestModelMetric s' = m
            \<and> (\<exists>cur' bestl err bestl'.
                  m_apCurrentModel s' = Some cur' \<and> m_apBestModel s = Some bestl
                  \<and> CopyBestModels ext cur' (m_cFeatureCombinations s) 0 bestl = Some (err, bestl')
                  \<and> m_apBestModel s' = Some bestl'
                  \<and> ret = (if err then 1 else 0)
                  \<and> vmr' = map_option (\<lambda>_. if err then Finite 0 else m) vmr))"
  using assms
  by (auto simp: ApplyModelFeatureCombinationUpdatePerTargetStates_def Let_def
           split: Option.bind_splits option.splits if_splits prod.splits)

lemma flt_not_NaN: "flt x y \<Longrightarrow> x \<noteq> NaN \<and> y \<noteq> NaN"
  by (cases x; cases y) auto

lemma Apply_PerTargetStates_best_metric:
  assumes "ApplyModelFeatureCombinationUpdatePerTargetStates ext c s i U vmr = Some (s', ret, vmr')"
  shows "m_bestModelMetric s' = m_bestModelMetric s
         \<or> flt (m_bestModelMetric s') (m_bestModelMetric s)"
  using assms
  by (auto simp: ApplyModelFeatureCombinationUpdatePerTargetStates_def Let_def
           split: Option.bind_splits option.splits if_splits prod.splits)

lemma ApplyModelFeatureCombinationUpdate_cases:
  "ApplyModelFeatureCombinationUpdate ext s i U vmr
     = Some (s, 0, map_option (\<lambda>_. Finite 0) vmr)
   \<or> (\<exists>c aU. U = Some aU
         \<and> ApplyModelFeatureCombinationUpdate ext s i U vmr
           = ApplyModelFeatureCombinationUpdatePerTargetStates ext c s
               (size_t_of_IntegerDataType i) aU vmr)"
proof (cases U)
  case None
  then show ?thesis by (simp add: ApplyModelFeatureCombinationUpdate_def)
next
  case (Some aU)
  obtain c where c: "CompilerRecursiveApplyModelFeatureCombinationUpdate ext 2 (m_cTargetStates s) s
       (size_t_of_IntegerDataType i) aU vmr
     = ApplyModelFeatureCombinationUpdatePerTargetStates ext c s (size_t_of_IntegerDataType i) aU vmr"
    using CompilerRecursiveApply_cases by blast
  show ?thesis
  proof (cases "m_bRegression s")
    case True
    with Some show ?thesis
      by (simp add: ApplyModelFeatureCombinationUpdate_def) blast
  next
    case False
    show ?thesis
    proof (cases "m_cTargetStates s \<le> 1")
      case True
      with False Some show ?thesis by (simp add: ApplyModelFeatureCombinationUpdate_def)
    next
      case nd: False
      with False Some c have "ApplyModelFeatureCombinationUpdate ext s i U vmr
           = ApplyModelFeatureCombinationUpdatePerTargetStates ext c s
               (size_t_of_IntegerDataType i) aU vmr"
        by (simp add: ApplyModelFeatureCombinationUpdate_def)
      with Some show ?thesis by blast
    qed
  qed
qed

lemma Apply_best_metric:
  assumes "ApplyModelFeatureCombinationUpdate ext s i U vmr = Some (s', ret, vmr')"
  shows "m_bestModelMetric s' = m_bestModelMetric s
         \<or> flt (m_bestModelMetric s') (m_bestModelMetric s)"
proof -
  from ApplyModelFeatureCombinationUpdate_cases [of ext s i U vmr]
  show ?thesis
  proof
    assume "ApplyModelFeatureCombinationUpdate ext s i U vmr
              = Some (s, 0, map_option (\<lambda>_. Finite 0) vmr)"
    with assms show ?thesis by simp
  next
    assume "\<exists>c aU. U = Some aU
         \<and> ApplyModelFeatureCombinationUpdate ext s i U vmr
           = ApplyModelFeatureCombinationUpdatePerTargetStates ext c s
               (size_t_of_IntegerDataType i) aU vmr"
    then obtain c aU where
      "ApplyModelFeatureCombinationUpdatePerTargetStates ext c s
               (size_t_of_IntegerDataType i) aU vmr = Some (s', ret, vmr')"
      using assms by auto
    then show ?thesis by (rule Apply_PerTargetStates_best_metric)
  qed
qed

lemma ApplyCalls_hd: "\<exists>rest. ApplyCalls ext s calls = s # rest"
  by (cases calls) auto

lemma ApplyCalls_nonincreasing:
  "m_bestModelMetric s \<noteq> NaN \<Longrightarrow>
     nonincreasing (map m_bestModelMetric (ApplyCalls ext s calls))"
proof (induction calls arbitrary: s)
  case Nil
  then show ?case by simp
next
  case (Cons call calls)
  obtain i U vmr where call: "call = (i, U, vmr)" by (cases call) auto
  show ?case
  proof (cases "ApplyModelFeatureCombinationUpdate ext s i U vmr")
    case None
    with call show ?thesis by simp
  next
    case (Some r)
    obtain s' ret vmr' where r: "r = (s', ret, vmr')" by (cases r) auto
    from Some r have step: "m_bestModelMetric s' = m_bestModelMetric s
         \<or> flt (m_bestModelMetric s') (m_bestModelMetric s)"
      by (auto dest: Apply_best_metric)
    with Cons.prems have nn: "m_bestModelMetric s' \<noteq> NaN" and le: "fle (m_bestModelMetric s') (m_bestModelMetric s)"
      by (auto simp: fle_def dest: flt_not_NaN)
    obtain rest where rest: "ApplyCalls ext s' calls = s' # rest"
      using ApplyCalls_hd by blast
    from Cons.IH [OF nn] rest le call Some r show ?thesis by simp
  qed
qed


lemma PerTargetStates_no_validation:
  assumes "m_pValidationSet s = None"
    and "ApplyModelFeatureCombinationUpdatePerTargetStates ext c s i U vmr = Some (s', ret, vmr')"
  shows "ret = 0 \<and> vmr' = map_option (\<lambda>_. Finite 0) vmr
         \<and> m_bestModelMetric s' = m_bestModelMetric s \<and> m_apBestModel s' = m_apBestModel s"
  using assms
  by (auto simp: ApplyModelFeatureCombinationUpdatePerTargetStates_def Let_def
           split: Option.bind_splits option.splits)

lemma CopyBestModels_failed:
  "CopyBestModels ext cur e i best = Some (True, best') \<Longrightarrow>
     \<exists>j\<ge>i. fst (Copy ext (best ! j) (cur ! j))"
proof (induction ext cur e i best arbitrary: best' rule: CopyBestModels.induct)
  case (1 ext cur e i best)
  from "1.prems" obtain pBest where b: "rd best i = Some pBest"
    by (subst (asm) CopyBestModels.simps) (auto split: option.splits)
  from "1.prems" b obtain pCur where c: "rd cur i = Some pCur"
    by (subst (asm) CopyBestModels.simps) (auto split: option.splits)
  from b have ib: "i < length best" and pb: "pBest = best ! i"
    by (auto simp: rd_def split: if_splits)
  from c have pc: "pCur = cur ! i"
    by (auto simp: rd_def split: if_splits)
  show ?case
  proof (cases "fst (Copy ext pBest pCur)")
    case True
    with pb pc show ?thesis by auto
  next
    case False
    note ok = this
    have ne: "Suc i \<noteq> e"
    proof
      assume "Suc i = e"
      with "1.prems" b c ok show False
        by (subst (asm) CopyBestModels.simps) simp
    qed
    with "1.prems" b c ok have rec:
      "CopyBestModels ext cur e (Suc i) (best[i := snd (Copy ext pBest pCur)]) = Some (True, best')"
      by (subst (asm) CopyBestModels.simps) simp
    from "1.IH" [OF b c ok ne rec] obtain j where
      j: "Suc i \<le> j" "fst (Copy ext (best[i := snd (Copy ext pBest pCur)] ! j) (cur ! j))"
      by blast
    then have "fst (Copy ext (best ! j) (cur ! j))" by (simp add: nth_list_update)
    with j(1) show ?thesis by (intro exI [of _ j]) simp
  qed
qed

lemma fle_not_flt: "fle x y \<or> y = NaN \<Longrightarrow> \<not> flt y x"
  by (cases x; cases y) (auto simp: fle_def)

lemmas validation_defs = ValidationSetInputFeatureLoop_def ValidationSetTargetFeatureLoop_def
  ValidationCaseRegression_def ComputeRegressionResidualError_def
  rd_def wr_def GET_VECTOR_LENGTH_def GetVectorLengthFlatCore_def
  IsRegression_def k_Regression_def k_DynamicClassification_def
  fsub_def FractionalDataType_of_size_t_def


lemma CompilerRecursiveGenerate_eq:
  "k \<le> int r \<or> k_cCompilerOptimizedTargetStatesMax ext < k \<Longrightarrow>
   CompilerRecursiveGenerateModelFeatureCombinationUpdate ext k r s i lr cs cm g
     = GenerateModelFeatureCombinationUpdatePerTargetStates ext
         (if int r \<le> k_cCompilerOptimizedTargetStatesMax ext \<and> k \<le> int r then int r
          else k_DynamicClassification) s i lr cs cm g"
proof (induction ext k r s i lr cs cm g
       rule: CompilerRecursiveGenerateModelFeatureCombinationUpdate.induct)
  case (1 ext k r s i lr cs cm g)
  show ?case
  proof (cases "k_cCompilerOptimizedTargetStatesMax ext < k")
    case True
    then show ?thesis
      using "1.prems"
      by (subst CompilerRecursiveGenerateModelFeatureCombinationUpdate.simps) auto
  next
    case False
    note nk = this
    show ?thesis
    proof (cases "k = int r")
      case True
      with nk show ?thesis
        by (subst CompilerRecursiveGenerateModelFeatureCombinationUpdate.simps) auto
    next
      case False
      with nk "1.prems" have lt:
        "k + 1 \<le> int r \<or> k_cCompilerOptimizedTargetStatesMax ext < k + 1" by auto
      from "1.IH" [OF nk False lt] nk False "1.prems" show ?thesis
        by (subst CompilerRecursiveGenerateModelFeatureCombinationUpdate.simps) auto
    qed
  qed
qed

lemma GenerateModelFeatureCombinationUpdate_dispatch:
  assumes "m_bRegression s \<or> 2 \<le> m_cTargetStates s"
  shows "GenerateModelFeatureCombinationUpdate ext s i lr nSplits nMin g
         = GenerateModelFeatureCombinationUpdatePerTargetStates ext (CompiledTargetStates ext s) s
             (size_t_of_IntegerDataType i) lr (size_t_count_of_IntegerDataType nSplits)
             (size_t_count_of_IntegerDataType nMin) g"
proof (cases "m_bRegression s")
  case True
  then show ?thesis
    by (simp add: GenerateModelFeatureCombinationUpdate_def CompiledTargetStates_def)
next
  case False
  with assms have k: "2 \<le> m_cTargetStates s" by simp
  then have "(2::int) \<le> int (m_cTargetStates s) \<or> k_cCompilerOptimizedTargetStatesMax ext < 2"
    by simp
  from CompilerRecursiveGenerate_eq [OF this] False k show ?thesis
    by (auto simp: GenerateModelFeatureCombinationUpdate_def CompiledTargetStates_def)
qed

lemma GenerateModelFeatureCombinationUpdate_degenerate:
  assumes "\<not> (m_bRegression s \<or> 2 \<le> m_cTargetStates s)"
  shows "GenerateModelFeatureCombinationUpdate ext s i lr nSplits nMin g
         = Some (s, None, map_option (\<lambda>_. Finite 0) g)"
  using assms by (simp add: GenerateModelFeatureCombinationUpdate_def)

lemma SamplingSetLoop_gains:
  "SamplingSetLoop ext c fc cs cm K smp idxs (over, acc, G0) = Some (Done (over', acc', G')) \<Longrightarrow>
     \<exists>gains. length gains = length idxs \<and> G' = foldl fadd G0 gains
       \<and> (\<forall>k<length idxs. \<exists>pSamplingSet overIn t.
             rd smp (idxs ! k) = Some pSamplingSet
             \<and> TrainOneSamplingSet ext c fc cs cm K pSamplingSet overIn = Some (t, gains ! k))"
proof (induction idxs arbitrary: over acc G0)
  case Nil
  then show ?case by simp
next
  case (Cons i idxs)
  from Cons.prems obtain pS where s: "rd smp i = Some pS"
    by (auto split: option.splits)
  from Cons.prems s obtain t gain where t:
    "TrainOneSamplingSet ext c fc cs cm K pS over = Some (t, gain)"
    by (auto split: option.splits)
  from Cons.prems s t obtain acc1 where a: "Add ext acc t = Some acc1"
    by (auto split: option.splits)
  from Cons.prems s t a have
    "SamplingSetLoop ext c fc cs cm K smp idxs (t, acc1, fadd G0 gain) = Some (Done (over', acc', G'))"
    by simp
  from Cons.IH [OF this] obtain gains where g:
    "length gains = length idxs" "G' = foldl fadd (fadd G0 gain) gains"
    "\<forall>k<length idxs. \<exists>pSamplingSet overIn t.
             rd smp (idxs ! k) = Some pSamplingSet
             \<and> TrainOneSamplingSet ext c fc cs cm K pSamplingSet overIn = Some (t, gains ! k)"
    by blast
  show ?case
  proof (intro exI [of _ "gain # gains"] conjI allI impI)
    show "length (gain # gains) = length (i # idxs)" using g(1) by simp
    show "G' = foldl fadd G0 (gain # gains)" using g(2) by simp
    fix k assume "k < length (i # idxs)"
    then show "\<exists>pSamplingSet overIn t.
             rd smp ((i # idxs) ! k) = Some pSamplingSet
             \<and> TrainOneSamplingSet ext c fc cs cm K pSamplingSet overIn
                 = Some (t, (gain # gains) ! k)"
      using s t g(3) by (cases k) auto
  qed
qed

lemma fdiv_fdiv_2:
  "0 < n \<Longrightarrow> fdiv (fdiv x (Finite n)) (Finite 2) = fdiv x (Finite (2 * n))"
  by (cases x) (auto simp: finf_def)

lemma UpdateMultiple_eq:
  "1 \<le> S \<Longrightarrow>
   UpdateMultiple ext c lr S =
     (if bExpandBinaryLogits ext \<and> c = 2
      then fdiv lr (Finite (2 * real S)) else fdiv lr (Finite (real S)))"
  by (auto simp: UpdateMultiple_def bDividing_def IsClassification_def
        FractionalDataType_of_size_t_def fdiv_fdiv_2)

lemma Generate_PerTargetStates_Some:
  assumes "GenerateModelFeatureCombinationUpdatePerTargetStates ext c s i lr cs cm g
             = Some (s', Some values, g')"
  shows "\<exists>fcs fc acc0 over acc G acc'.
           m_apFeatureCombinations s = Some fcs \<and> rd fcs i = Some fc
         \<and> m_pSmallChangeToModelAccumulatedFromSamplingSets s = Some acc0
         \<and> (case m_apSamplingSets s of
               None \<Rightarrow> acc = Reset (SetCountDimensions acc0 (m_cFeatures fc)) \<and> G = Finite 0
             | Some smp \<Rightarrow>
                 (\<exists>over0 acc1 G1.
                    m_pSmallChangeToModelOverwriteSingleSamplingSet s = Some over0
                  \<and> SamplingSetLoop ext c fc cs cm (m_cTargetStates s) smp
                      [0..<(if 0 = m_cSamplingSets s then 1 else m_cSamplingSets s)]
                      (SetCountDimensions over0 (m_cFeatures fc),
                       Reset (SetCountDimensions acc0 (m_cFeatures fc)), Finite 0)
                    = Some (Done (over, acc1, G1))
                  \<and> acc = Multiply acc1
                      (UpdateMultiple ext c lr
                         (if 0 = m_cSamplingSets s then 1 else m_cSamplingSets s))
                  \<and> G = fdiv G1 (FractionalDataType_of_size_t
                         (if 0 = m_cSamplingSets s then 1 else m_cSamplingSets s))))
         \<and> (if m_cFeatures fc = 0 then acc' = acc
             else \<exists>ends. Expand ext acc ends = Some acc')
         \<and> m_pSmallChangeToModelAccumulatedFromSamplingSets s' = Some acc'
         \<and> values = m_aValues acc'
         \<and> g' = map_option (\<lambda>_. G) g"
  using assms
  by (auto simp: GenerateModelFeatureCombinationUpdatePerTargetStates_def Let_def
             option.map_comp comp_def
           simp del: SamplingSetLoop.simps
           split: Option.bind_splits option.splits outcome.splits if_splits prod.splits)

lemma Generate_PerTargetStates_None:
  assumes "GenerateModelFeatureCombinationUpdatePerTargetStates ext c s i lr cs cm g
             = Some (s', None, g')"
  shows "g' = map_option (\<lambda>_. Finite 0) g"
  using assms
  by (auto simp: GenerateModelFeatureCombinationUpdatePerTargetStates_def Let_def
           split: Option.bind_splits option.splits outcome.splits if_splits prod.splits)


lemmas generate_defs = GenerateModelFeatureCombinationUpdatePerTargetStates_def
  TrainOneSamplingSet_def UpdateMultiple_def bDividing_def GetDivisionIntegersEnd_def
  SetCountDimensions_def Reset_def Multiply_def IsClassification_def
  size_t_count_of_IntegerDataType_def size_t_of_IntegerDataType_def
  rd_def wr_def k_Regression_def k_DynamicClassification_def FractionalDataType_of_size_t_def

lemmas example_more_defs = example_state_main_effect_def example_main_effect_def
  example_state_binary_def example_Externals_def example_Externals_failing_expand_def
  example_Externals_expanded_logits_def


subsection \<open>The bit-packed iterator\<close>

lemma PackItems_less:
  "\<forall>x\<in>set xs. x < 2 ^ b \<Longrightarrow> PackItems b xs < 2 ^ (b * length xs)"
proof (induction xs)
  case Nil
  then show ?case by simp
next
  case (Cons x xs)
  then have x: "x < 2 ^ b" and r: "PackItems b xs < 2 ^ (b * length xs)" by simp_all
  from r have "PackItems b xs + 1 \<le> 2 ^ (b * length xs)" by simp
  then have "2 ^ b * (PackItems b xs + 1) \<le> 2 ^ b * 2 ^ (b * length xs)"
    by (rule mult_le_mono2)
  with x have "x + 2 ^ b * PackItems b xs < 2 ^ b * 2 ^ (b * length xs)" by simp
  then show ?case by (simp add: power_add)
qed

lemma PackItems_nth:
  "j < length xs \<Longrightarrow> \<forall>x\<in>set xs. x < 2 ^ b \<Longrightarrow>
     (PackItems b xs div 2 ^ (b * j)) mod 2 ^ b = xs ! j"
proof (induction xs arbitrary: j)
  case Nil
  then show ?case by simp
next
  case (Cons x xs)
  then have x: "x < 2 ^ b" by simp
  show ?case
  proof (cases j)
    case 0
    with x show ?thesis by simp
  next
    case (Suc j')
    have "(x + 2 ^ b * PackItems b xs) div 2 ^ (b + b * j')
            = ((x + 2 ^ b * PackItems b xs) div 2 ^ b) div 2 ^ (b * j')"
      by (simp add: power_add div_mult2_eq)
    also have "(x + 2 ^ b * PackItems b xs) div 2 ^ b = PackItems b xs"
      using x by simp
    finally show ?thesis using Cons Suc by simp
  qed
qed

lemma GetMaskBits_mask:
  "1 \<le> b \<Longrightarrow> b \<le> 64 \<Longrightarrow> GetMaskBits b = Some (mask b)"
proof -
  assume b: "1 \<le> b" "b \<le> 64"
  have "drop_bit (64 - b) (- 1 :: 64 word) = mask b"
    by (rule bit_word_eqI) (use b in \<open>auto simp: bit_simps\<close>)
  with b show ?thesis by (simp add: GetMaskBits_def k_cBitsForStorageType_def)
qed

lemma unat_extract:
  "unat ((mask b :: 64 word) AND drop_bit k w) = (unat w div 2 ^ k) mod 2 ^ b"
proof -
  have "(mask b :: 64 word) AND drop_bit k w = take_bit b (drop_bit k w)"
    by (simp add: take_bit_eq_mask and.commute)
  moreover have "unat (take_bit b (drop_bit k w)) = take_bit b (drop_bit k (unat w))"
    by (simp only: unsigned_take_bit_eq unat_drop_bit_eq)
  moreover have "take_bit b (drop_bit k (unat w)) = (unat w div 2 ^ k) mod 2 ^ b"
    by (simp only: take_bit_eq_mod drop_bit_eq_div)
  ultimately show ?thesis by simp
qed

lemma unat_extract_packed:
  assumes "j < length xs" and "\<forall>x\<in>set xs. x < 2 ^ b" and "b * length xs \<le> 64"
  shows "unat ((mask b :: 64 word) AND drop_bit (b * j) (word_of_nat (PackItems b xs))) = xs ! j"
proof -
  have "PackItems b xs < 2 ^ (b * length xs)" using assms(2) by (rule PackItems_less)
  also have "(2::nat) ^ (b * length xs) \<le> 2 ^ 64"
    using assms(3) by (intro power_increasing) simp_all
  finally have "unat (word_of_nat (PackItems b xs) :: 64 word) = PackItems b xs"
    by (simp add: unsigned_of_nat take_bit_nat_eq_self)
  with PackItems_nth [OF assms(1,2)] show ?thesis by (simp add: unat_extract)
qed


lemma foldM_append:
  "foldM f (xs @ ys) s = (case foldM f xs s of None \<Rightarrow> None | Some s' \<Rightarrow> foldM f ys s')"
  by (induction xs arbitrary: s) (auto split: option.splits)

lemma foldM_map: "foldM f (map g xs) s = foldM (\<lambda>x. f (g x)) xs s"
  by (induction xs arbitrary: s) (auto split: option.splits)

lemma foldM_cong:
  "(\<And>x s. x \<in> set xs \<Longrightarrow> f x s = g x s) \<Longrightarrow> foldM f xs s = foldM g xs s"
  by (induction xs arbitrary: s) (auto split: option.splits)

lemma do_items_Suc:
  "do_items body b m (Suc n) w i st =
     (case body (unat (m AND w)) i st of
        None \<Rightarrow> None
      | Some st' \<Rightarrow>
          if n = 0 then Some (Suc i, st') else do_items body b m n (drop_bit b w) (Suc i) st')"
  by (subst do_items.simps) (simp split: option.splits)

lemma do_items_foldM_Suc:
  "do_items body b m (Suc n) w i st =
     map_option (Pair (i + Suc n))
       (foldM (\<lambda>k. body (unat (m AND drop_bit (b * k) w)) (i + k)) [0..<Suc n] st)"
proof (induction n arbitrary: w i st)
  case 0
  show ?case by (simp add: do_items_Suc split: option.splits)
next
  case (Suc n)
  have u: "[0..<Suc (Suc n)] = 0 # map Suc [0..<Suc n]"
    by (subst upt_conv_Cons) (simp_all add: map_Suc_upt del: upt_Suc)
  show ?case
  proof (cases "body (unat (m AND w)) i st")
    case None
    then show ?thesis
      by (subst do_items_Suc, subst u) simp
  next
    case (Some st')
    have "do_items body b m (Suc (Suc n)) w i st
            = do_items body b m (Suc n) (drop_bit b w) (Suc i) st'"
      using Some by (subst do_items_Suc) simp
    also have "\<dots> = map_option (Pair (Suc i + Suc n))
       (foldM (\<lambda>k. body (unat (m AND drop_bit (b * k) (drop_bit b w))) (Suc i + k))
          [0..<Suc n] st')"
      by (rule Suc.IH)
    also have "(\<lambda>k. body (unat (m AND drop_bit (b * k) (drop_bit b w))) (Suc i + k))
             = (\<lambda>k. body (unat (m AND drop_bit (b * Suc k) w)) (i + Suc k))"
      by (simp add: drop_bit_drop_bit add.commute)
    also have "foldM (\<lambda>k. body (unat (m AND drop_bit (b * Suc k) w)) (i + Suc k)) [0..<Suc n] st'
             = foldM (\<lambda>k. body (unat (m AND drop_bit (b * k) w)) (i + k)) [0..<Suc (Suc n)] st"
      using Some by (subst u) (simp add: foldM_map del: upt_Suc)
    finally show ?thesis by simp
  qed
qed

lemma do_items_foldM:
  "1 \<le> n \<Longrightarrow>
   do_items body b m n w i st =
     map_option (Pair (i + n))
       (foldM (\<lambda>k. body (unat (m AND drop_bit (b * k) w)) (i + k)) [0..<n] st)"
  using do_items_foldM_Suc [of body b m "n - 1" w i st] by simp

lemma pos_before_last:
  "1 \<le> v \<Longrightarrow> (int (v * i) < int v * (int n - int p)) = (i + p < n)"
proof -
  assume "1 \<le> v"
  then have v: "0 < int v" by simp
  have "(int (v * i) < int v * (int n - int p)) = (int v * int i < int v * (int n - int p))"
    by simp
  also have "\<dots> = (int i < int n - int p)"
    using v by (rule mult_less_cancel_left_pos)
  also have "\<dots> = (i + p < n)" by linarith
  finally show ?thesis .
qed

lemma pos_end:
  "int v * (int n - int p) + int (v * p) = int (v * n)"
  by (simp add: algebra_simps)

lemma pos_before_end:
  "1 \<le> v \<Longrightarrow> (int (v * i) < int v * (int n - int p) + int (v * p)) = (i < n)"
proof -
  assume v: "1 \<le> v"
  have "(int (v * i) < int v * (int n - int p) + int (v * p)) = (int (v * i) < int (v * n))"
    by (simp only: pos_end)
  also have "\<dots> = (v * i < v * n)" by (simp only: of_nat_less_iff)
  also have "\<dots> = (i < n)" using v by simp
  finally show ?thesis .
qed

lemma upt_split: "a \<le> b \<Longrightarrow> b \<le> c \<Longrightarrow> [a..<c] = [a..<b] @ [b..<c]"
  by (metis le_Suc_ex upt_add_eq_append)

lemma items_in_tail:
  "1 \<le> v \<Longrightarrow> i \<le> n \<Longrightarrow>
     nat ((int v * (int n - int p) + int (v * p) - int (v * i)) div int v) = n - i"
proof -
  assume v: "1 \<le> v" and i: "i \<le> n"
  have "int v * (int n - int p) + int (v * p) - int (v * i) = int (v * (n - i))"
    using i by (simp add: pos_end algebra_simps of_nat_diff)
  then have "(int v * (int n - int p) + int (v * p) - int (v * i)) div int v
               = int (v * (n - i)) div int v" by simp
  also have "\<dots> = int ((v * (n - i)) div v)" by (simp only: zdiv_int)
  also have "\<dots> = int (n - i)" using v by simp
  finally show ?thesis by simp
qed

lemma block_foldM:
  assumes "1 \<le> p" and "n \<le> p"
  shows "foldM (\<lambda>j. body (unat (mask b AND drop_bit (b * j) (ws ! k))) (k * p + j)) [0..<n] st
       = foldM (\<lambda>i. body (PackedBin p b ws i) i) [k * p..<k * p + n] st"
proof -
  have "[k * p..<k * p + n] = map (\<lambda>j. k * p + j) [0..<n]"
    by (simp add: map_add_upt add.commute)
  then have "foldM (\<lambda>i. body (PackedBin p b ws i) i) [k * p..<k * p + n] st
           = foldM (\<lambda>j. body (PackedBin p b ws (k * p + j)) (k * p + j)) [0..<n] st"
    by (simp only: foldM_map)
  also have "\<dots> = foldM (\<lambda>j. body (unat (mask b AND drop_bit (b * j) (ws ! k))) (k * p + j))
                     [0..<n] st"
  proof (rule foldM_cong)
    fix j s assume "j \<in> set [0..<n]"
    with assms have j: "j < p" by simp
    then have "(k * p + j) mod p = j" "(k * p + j) div p = k" by simp_all
    then show "body (PackedBin p b ws (k * p + j)) (k * p + j) s
             = body (unat (mask b AND drop_bit (b * j) (ws ! k))) (k * p + j) s"
      by (simp add: PackedBin_def)
  qed
  finally show ?thesis by simp
qed

lemma BitPackedLoop_foldM:
  assumes v: "1 \<le> v" and p: "1 \<le> p"
    and len: "n \<le> length ws * p"
    and k: "k * p \<le> n"
  shows "BitPackedLoop body p b (mask b) ws v n k (k * p) st
       = foldM (\<lambda>i. body (PackedBin p b ws i) i) [k * p..<n] st"
  using k
proof (induction "n - k * p" arbitrary: k st rule: less_induct)
  case less
  show ?case
  proof (cases "k * p + p < n")
    case True
    with len have kl: "k < length ws"
      by (metis add_lessD1 less_le_trans mult_less_cancel2)
    then have r: "rd ws k = Some (ws ! k)" by (simp add: rd_def)
    have split: "[k * p..<n] = [k * p..<k * p + p] @ [Suc k * p..<n]"
      using True upt_split [of "k * p" "k * p + p" n] by (simp add: add.commute)
    show ?thesis
    proof (cases "foldM (\<lambda>j. body (unat (mask b AND drop_bit (b * j) (ws ! k))) (k * p + j))
                    [0..<p] st")
      case None
      have "BitPackedLoop body p b (mask b) ws v n k (k * p) st = None"
        using True p r None
        by (subst BitPackedLoop.simps, simp only: pos_before_last [OF v])
           (simp add: do_items_foldM)
      moreover have "foldM (\<lambda>i. body (PackedBin p b ws i) i) [k * p..<n] st = None"
        using None
        by (subst split) (simp add: foldM_append block_foldM [OF p order_refl, symmetric])
      ultimately show ?thesis by simp
    next
      case (Some st')
      have d: "n - Suc k * p < n - k * p" using True p by simp
      have le: "Suc k * p \<le> n" using True by simp
      from less(1) [OF d le]
      have ih: "BitPackedLoop body p b (mask b) ws v n (Suc k) (Suc k * p) st'
              = foldM (\<lambda>i. body (PackedBin p b ws i) i) [Suc k * p..<n] st'" .
      have "BitPackedLoop body p b (mask b) ws v n k (k * p) st
          = BitPackedLoop body p b (mask b) ws v n (Suc k) (k * p + p) st'"
        using True p r Some
        by (subst BitPackedLoop.simps, simp only: pos_before_last [OF v])
           (simp add: do_items_foldM)
      also have "\<dots> = foldM (\<lambda>i. body (PackedBin p b ws i) i) [Suc k * p..<n] st'"
        using ih by (simp add: add.commute)
      finally show ?thesis
        using Some
        by (subst split) (simp add: foldM_append block_foldM [OF p order_refl, symmetric])
    qed
  next
    case False
    note last = this
    show ?thesis
    proof (cases "k * p < n")
      case False
      with less.prems have e: "k * p = n" by simp
      show ?thesis
        using p e
        by (subst BitPackedLoop.simps,
            simp only: pos_before_last [OF v] pos_before_end [OF v])
           simp
    next
      case True
      with len have kl: "k < length ws"
        by (metis less_le_trans mult_less_cancel2)
      then have r: "rd ws k = Some (ws ! k)" by (simp add: rd_def)
      define t where "t = n - k * p"
      have t: "1 \<le> t" "t \<le> p" "k * p + t = n" using True last by (simp_all add: t_def)
      have items: "nat ((int v * (int n - int p) + int (v * p) - int (v * (k * p))) div int v) = t"
        using items_in_tail [OF v less.prems, of p] by (simp add: t_def)
      have fin: "\<And>s. BitPackedLoop body p b (mask b) ws v n (Suc k) n s = Some s"
        using p
        by (subst BitPackedLoop.simps,
            simp only: pos_before_last [OF v] pos_before_end [OF v])
           simp
      have "BitPackedLoop body p b (mask b) ws v n k (k * p) st
          = (case do_items body b (mask b) t (ws ! k) (k * p) st of
               None \<Rightarrow> None
             | Some (iCase', st') \<Rightarrow> BitPackedLoop body p b (mask b) ws v n (Suc k) iCase' st')"
        using True last p r
        by (subst BitPackedLoop.simps,
            simp only: pos_before_last [OF v] pos_before_end [OF v] items)
           simp
      also have "\<dots> = foldM (\<lambda>j. body (unat (mask b AND drop_bit (b * j) (ws ! k))) (k * p + j))
                         [0..<t] st"
        using t fin by (simp add: do_items_foldM split: option.splits)
      also have "\<dots> = foldM (\<lambda>i. body (PackedBin p b ws i) i) [k * p..<k * p + t] st"
        by (rule block_foldM [OF p t(2)])
      finally show ?thesis using t(3) by simp
    qed
  qed
qed


lemma PackColumn_nth:
  "1 \<le> p \<Longrightarrow> k * p < length bins \<Longrightarrow>
     PackColumn p b bins ! k = word_of_nat (PackItems b (take p (drop (k * p) bins)))"
proof (induction k arbitrary: bins)
  case 0
  then have "bins \<noteq> []" by auto
  with 0 show ?case by (subst PackColumn.simps) simp
next
  case (Suc k)
  then have ne: "bins \<noteq> []" by auto
  from Suc.prems have "k * p < length (drop p bins)" by simp
  from Suc.IH [OF Suc.prems(1) this]
  have "PackColumn p b (drop p bins) ! k
          = word_of_nat (PackItems b (take p (drop (k * p + p) bins)))"
    by simp
  with ne Suc.prems show ?case
    by (subst PackColumn.simps) (simp add: add.commute)
qed

lemma PackColumn_length:
  "1 \<le> p \<Longrightarrow> length bins \<le> length (PackColumn p b bins) * p"
proof (induction p b bins rule: PackColumn.induct)
  case (1 p b bins)
  show ?case
  proof (cases "bins = []")
    case True
    then show ?thesis by simp
  next
    case False
    with "1.prems" have ih: "length (drop p bins) \<le> length (PackColumn p b (drop p bins)) * p"
      using "1.IH" by simp
    from False "1.prems" have
      "length (PackColumn p b bins) = Suc (length (PackColumn p b (drop p bins)))"
      by (subst PackColumn.simps) simp
    with ih show ?thesis by simp
  qed
qed

lemma PackedBin_PackColumn:
  assumes p: "1 \<le> p" and fit: "p * b \<le> 64"
    and small: "\<forall>x\<in>set bins. x < 2 ^ b" and i: "i < length bins"
  shows "PackedBin p b (PackColumn p b bins) i = bins ! i"
proof -
  define k where "k = i div p"
  define j where "j = i mod p"
  define xs where "xs = take p (drop (k * p) bins)"
  have kj: "k * p + j = i" by (simp add: k_def j_def)
  have jp: "j < p" using p by (simp add: j_def)
  have kp: "k * p < length bins" using kj i by linarith
  have jl: "j < length xs" using kj i jp by (simp add: xs_def)
  have sx: "\<forall>x\<in>set xs. x < 2 ^ b"
    using small by (auto simp: xs_def dest: in_set_takeD in_set_dropD)
  have "length xs \<le> p" by (simp add: xs_def)
  then have "b * length xs \<le> b * p" by (rule mult_le_mono2)
  also have "b * p \<le> 64" using fit by (simp only: mult.commute)
  finally have bl: "b * length xs \<le> 64" .
  have "PackedBin p b (PackColumn p b bins) i
          = unat ((mask b :: 64 word) AND drop_bit (b * j) (word_of_nat (PackItems b xs)))"
    using PackColumn_nth [OF p kp, of b]
    by (simp add: PackedBin_def k_def [symmetric] j_def [symmetric] xs_def)
  also have "\<dots> = xs ! j" using jl sx bl by (rule unat_extract_packed)
  also have "\<dots> = bins ! (k * p + j)" using jl kp by (simp add: xs_def)
  finally show ?thesis using kj by simp
qed

lemma zip_upt_nth: "zip [0..<length xs] xs = map (\<lambda>i. (i, xs ! i)) [0..<length xs]"
  by (rule nth_equalityI) simp_all

lemma BitPackedLoop_PackColumn:
  assumes v: "1 \<le> v" and p: "1 \<le> p" and fit: "p * b \<le> 64"
    and small: "\<forall>x\<in>set bins. x < 2 ^ b"
  shows "BitPackedLoop body p b (mask b) (PackColumn p b bins) v (length bins) 0 0 st
       = foldM (\<lambda>(iCase, iBin). body iBin iCase) (zip [0..<length bins] bins) st"
proof -
  have "BitPackedLoop body p b (mask b) (PackColumn p b bins) v (length bins) 0 (0 * p) st
       = foldM (\<lambda>i. body (PackedBin p b (PackColumn p b bins) i) i) [0 * p..<length bins] st"
    by (rule BitPackedLoop_foldM [OF v p PackColumn_length [OF p]]) simp
  then have "BitPackedLoop body p b (mask b) (PackColumn p b bins) v (length bins) 0 0 st
       = foldM (\<lambda>i. body (PackedBin p b (PackColumn p b bins) i) i) [0..<length bins] st"
    by simp
  also have "\<dots> = foldM (\<lambda>i. body (bins ! i) i) [0..<length bins] st"
    by (rule foldM_cong) (simp add: PackedBin_PackColumn [OF p fit small])
  also have "\<dots> = foldM (\<lambda>(iCase, iBin). body iBin iCase) (zip [0..<length bins] bins) st"
    by (simp add: zip_upt_nth foldM_map)
  finally show ?thesis by simp
qed

lemma TrainingSetTargetFeatureLoop_packed:
  assumes "0 < m_cFeatures fc"
  shows "TrainingSetTargetFeatureLoop ext c fc ts U K = do {
           cBitsPerItemMax \<leftarrow> GetCountBits (m_cItemsPerBitPackDataUnit fc);
           maskBits \<leftarrow> GetMaskBits cBitsPerItemMax;
           pInputData \<leftarrow> GetDataPointer ts fc;
           BitPackedLoop (TrainingCase ext c U (GET_VECTOR_LENGTH c K))
             (m_cItemsPerBitPackDataUnit fc) cBitsPerItemMax maskBits pInputData
             (GET_VECTOR_LENGTH c K) (m_cCases ts) 0 0 ts
         }"
proof -
  have r: "IsRegression c \<Longrightarrow>
        TrainingCase ext c U (GET_VECTOR_LENGTH c K)
      = (\<lambda>iBin iCase ds. do {
           smallChangeToPrediction \<leftarrow> rd U (iBin * GET_VECTOR_LENGTH c K);
           TrainingCaseRegression smallChangeToPrediction iCase ds
         })"
    by (intro ext) (simp add: TrainingCase_def)
  have n: "\<not> IsRegression c \<Longrightarrow>
        TrainingCase ext c U (GET_VECTOR_LENGTH c K)
      = (\<lambda>iBin iCase ds.
           if IsBinaryClassification c then do {
             smallChangeToPredictionScores \<leftarrow> rd U (iBin * GET_VECTOR_LENGTH c K);
             TrainingCaseBinary ext smallChangeToPredictionScores iCase ds
           }
           else TrainingCaseMulticlass ext U (iBin * GET_VECTOR_LENGTH c K)
                  (GET_VECTOR_LENGTH c K) iCase ds)"
    by (intro ext) (simp add: TrainingCase_def)
  show ?thesis
  proof (cases "IsRegression c")
    case True
    with assms show ?thesis
      by (simp add: TrainingSetTargetFeatureLoop_def Let_def r)
  next
    case False
    with assms show ?thesis
      by (simp add: TrainingSetTargetFeatureLoop_def Let_def n)
  qed
qed

lemma foldM_visited:
  "foldM (\<lambda>(iCase, iBin) visited. Some (visited @ [(iCase, iBin)])) xs st = Some (st @ xs)"
  by (induction xs arbitrary: st) auto

lemma PackColumn_example_blocks: "PackColumn 2 32 [3, 1, 2, 0, 1] = [4294967299, 2, 1]"
  by (simp add: PackColumn.simps)

lemma upt_5: "[0..<5] = [0, 1, 2, 3, 4]"
  by (simp add: upt_rec)


subsection \<open>Residual zeroing\<close>

lemma foldM_preserves:
  assumes "foldM f xs s = Some s'" and "Q s"
    and "\<And>x s s'. x \<in> set xs \<Longrightarrow> Q s \<Longrightarrow> f x s = Some s' \<Longrightarrow> Q s'"
  shows "Q s'"
  using assms
proof (induction xs arbitrary: s)
  case Nil
  then show ?case by simp
next
  case (Cons x xs)
  from Cons.prems(1) obtain s1 where s1: "f x s = Some s1" "foldM f xs s1 = Some s'"
    by (auto split: option.splits Option.bind_splits)
  have "Q s1" using Cons.prems(2) s1(1) by (rule Cons.prems(3) [OF list.set_intros(1)])
  then show ?case
    using s1(2) Cons.prems(3) by (intro Cons.IH [of s1]) auto
qed

lemma foldM_upt_invariant:
  assumes "foldM f [a..<b] s = Some s'" and "Inv a s" and "a \<le> b"
    and "\<And>j s s'. a \<le> j \<Longrightarrow> j < b \<Longrightarrow> Inv j s \<Longrightarrow> f j s = Some s' \<Longrightarrow> Inv (Suc j) s'"
  shows "Inv b s'"
  using assms
proof (induction "b - a" arbitrary: a s)
  case 0
  then show ?case by simp
next
  case (Suc d)
  then have ab: "a < b" by simp
  then have u: "[a..<b] = a # [Suc a..<b]" by (rule upt_conv_Cons)
  from Suc.prems(1) obtain s1 where s1: "f a s = Some s1" "foldM f [Suc a..<b] s1 = Some s'"
    unfolding u by (auto split: option.splits Option.bind_splits)
  have i1: "Inv (Suc a) s1" using Suc.prems(2) s1(1) ab by (intro Suc.prems(4) [of a s]) simp_all
  have d: "d = b - Suc a" using Suc.hyps(2) by simp
  show ?case
    using s1(2) i1 ab Suc.prems(4) by (intro Suc.hyps(1) [OF d, of s1]) auto
qed


lemma residuals_loop_keeps:
  assumes "foldM (TrainingCaseMulticlass_residuals ext aScores sumExp targetData v i) [0..<m] r
             = Some r'"
  shows "length r' = length r \<and> (\<forall>j<v * i. r' ! j = r ! j)"
proof (rule foldM_preserves [OF assms, where Q = "\<lambda>x. length x = length r \<and> (\<forall>j<v * i. x ! j = r ! j)"])
  show "length r = length r \<and> (\<forall>j<v * i. r ! j = r ! j)" by simp
next
  fix k x x'
  assume "length x = length r \<and> (\<forall>j<v * i. x ! j = r ! j)"
    and "TrainingCaseMulticlass_residuals ext aScores sumExp targetData v i k x = Some x'"
  then show "length x' = length r \<and> (\<forall>j<v * i. x' ! j = r ! j)"
    by (auto simp: TrainingCaseMulticlass_residuals_def wr_def
          split: Option.bind_splits if_splits)
qed

lemma TrainingCaseMulticlass_zeroed:
  assumes run: "TrainingCaseMulticlass ext u iv v i ds = Some ds'"
    and z: "0 \<le> k_iZeroResidual ext" "k_iZeroResidual ext < int v"
    and inv: "zeroed v (nat (k_iZeroResidual ext)) i ds"
  shows "zeroed v (nat (k_iZeroResidual ext)) (Suc i) ds'"
proof -
  define zi where "zi = nat (k_iZeroResidual ext)"
  have zi: "k_iZeroResidual ext = int zi" "zi < v" using z by (simp_all add: zi_def)
  then have m: "max 1 v = v" by simp
  have "int (v * i + v) + (int zi - int v) = int (v * i + zi)" by simp
  then have idx: "nat (int (v * i + v) + (int zi - int v)) = v * i + zi"
    by (simp only: nat_int)
  from run obtain sc se r where
    r: "foldM (TrainingCaseMulticlass_residuals ext sc se
                 (the (rd (m_aTargetData ds) i)) v i) [0..<v] (m_aResidualErrors ds) = Some r"
    and w: "v * i + zi < length r"
    and res: "m_aResidualErrors ds' = r[v * i + zi := Finite 0]"
    unfolding TrainingCaseMulticlass_def zi(1) m idx
    by (auto simp: wr_def split: Option.bind_splits if_splits prod.splits)
  from residuals_loop_keeps [OF r]
  have keep: "length r = length (m_aResidualErrors ds)" "\<forall>j<v * i. r ! j = m_aResidualErrors ds ! j"
    by simp_all
  show ?thesis
    unfolding zeroed_def zi_def [symmetric]
  proof (intro allI impI)
    fix k assume k: "k < Suc i"
    show "rd (m_aResidualErrors ds') (v * k + zi) = Some (Finite 0)"
    proof (cases "k = i")
      case True
      then show ?thesis using w by (simp add: res rd_def)
    next
      case False
      with k have ki: "k < i" by simp
      then have "Suc k \<le> i" by simp
      then have "v * Suc k \<le> v * i" by (rule mult_le_mono2)
      with zi(2) have lt: "v * k + zi < v * i" by simp
      from inv ki have "rd (m_aResidualErrors ds) (v * k + zi) = Some (Finite 0)"
        by (simp add: zeroed_def zi_def)
      then have "v * k + zi < length (m_aResidualErrors ds)"
        "m_aResidualErrors ds ! (v * k + zi) = Finite 0"
        by (simp_all add: rd_def split: if_splits)
      moreover from lt have "v * i + zi \<noteq> v * k + zi" by linarith
      then have "r[v * i + zi := Finite 0] ! (v * k + zi) = r ! (v * k + zi)"
        by (rule nth_list_update_neq)
      ultimately show ?thesis
        using keep lt by (simp add: res rd_def)
    qed
  qed
qed


lemma do_items_invariant:
  assumes run: "do_items body b m r w i st = Some (i', st')" and r: "1 \<le> r"
    and inv: "Inv i st"
    and step: "\<And>iBin j s s'. Inv j s \<Longrightarrow> body iBin j s = Some s' \<Longrightarrow> Inv (Suc j) s'"
  shows "i' = i + r \<and> Inv (i + r) st'"
proof -
  from run have i': "i' = i + r"
    and f: "foldM (\<lambda>k. body (unat (m AND drop_bit (b * k) w)) (i + k)) [0..<r] st = Some st'"
    unfolding do_items_foldM [OF r] by auto
  have "Inv (i + r) st'"
  proof (rule foldM_upt_invariant [OF f, where Inv = "\<lambda>k. Inv (i + k)"])
    show "Inv (i + 0) st" using inv by simp
    show "0 \<le> r" by simp
  next
    fix j s s'
    assume "Inv (i + j) s" and "body (unat (m AND drop_bit (b * j) w)) (i + j) s = Some s'"
    then have "Inv (Suc (i + j)) s'" by (rule step)
    then show "Inv (i + Suc j) s'" by simp
  qed
  with i' show ?thesis by simp
qed

lemma BitPackedLoop_end:
  "1 \<le> v \<Longrightarrow> BitPackedLoop body p b m ws v n iw n st = Some st"
  by (subst BitPackedLoop.simps, simp only: pos_before_last pos_before_end) simp

lemma BitPackedLoop_invariant:
  assumes v: "1 \<le> v" and p: "1 \<le> p"
    and step: "\<And>iBin j s s'. Inv j s \<Longrightarrow> body iBin j s = Some s' \<Longrightarrow> Inv (Suc j) s'"
  shows "BitPackedLoop body p b m ws v n iw i st = Some st' \<Longrightarrow> i \<le> n \<Longrightarrow> Inv i st
           \<Longrightarrow> Inv n st'"
proof (induction "n - i" arbitrary: i iw st rule: less_induct)
  case less
  note run = less.prems(1) and le = less.prems(2) and inv = less.prems(3)
  show ?case
  proof (cases "i + p < n")
    case True
    from run obtain w i' st1 where
      d: "do_items body b m p w i st = Some (i', st1)"
      and rest: "BitPackedLoop body p b m ws v n (Suc iw) i' st1 = Some st'"
      using True
      by (subst (asm) BitPackedLoop.simps, simp only: pos_before_last [OF v])
         (auto split: option.splits)
    from do_items_invariant [where Inv = Inv, OF d p inv step]
    have i': "i' = i + p" and inv1: "Inv (i + p) st1" by simp_all
    have "n - (i + p) < n - i" using True p by simp
    from less.hyps [OF this rest [unfolded i'] _ inv1] True show ?thesis by simp
  next
    case False
    note last = this
    show ?thesis
    proof (cases "i < n")
      case False
      with le have "i = n" by simp
      with run inv show ?thesis by (simp add: BitPackedLoop_end [OF v])
    next
      case True
      have items: "nat ((int v * (int n - int p) + int (v * p) - int (v * i)) div int v) = n - i"
        by (rule items_in_tail [OF v le])
      from run obtain w i' st1 where
        d: "do_items body b m (n - i) w i st = Some (i', st1)"
        and rest: "BitPackedLoop body p b m ws v n (Suc iw) i' st1 = Some st'"
        using True last
        by (subst (asm) BitPackedLoop.simps,
            simp only: pos_before_last [OF v] pos_before_end [OF v] items)
           (auto split: option.splits)
      have "1 \<le> n - i" using True by simp
      from do_items_invariant [where Inv = Inv, OF d this inv step] True
      have i': "i' = n" and inv1: "Inv n st1" by simp_all
      from rest show ?thesis
        unfolding i' BitPackedLoop_end [OF v] using inv1 by simp
    qed
  qed
qed

lemma TrainingSetTargetFeatureLoop_zeroed:
  assumes mc: "\<not> IsRegression c" "\<not> IsBinaryClassification c"
    and z: "0 \<le> k_iZeroResidual ext" "k_iZeroResidual ext < int (GET_VECTOR_LENGTH c K)"
    and run: "TrainingSetTargetFeatureLoop ext c fc ts U K = Some ts'"
  shows "zeroed (GET_VECTOR_LENGTH c K) (nat (k_iZeroResidual ext)) (m_cCases ts) ts'"
proof -
  define v where "v = GET_VECTOR_LENGTH c K"
  define zi where "zi = nat (k_iZeroResidual ext)"
  note z' = z [folded v_def]
  from z' have v: "1 \<le> v" by simp
  have start: "zeroed v zi 0 ts" by (simp add: zeroed_def)
  have step: "\<And>iv j s s'. zeroed v zi j s \<Longrightarrow> TrainingCaseMulticlass ext U iv v j s = Some s'
                 \<Longrightarrow> zeroed v zi (Suc j) s'"
    unfolding zi_def using z' by (blast intro: TrainingCaseMulticlass_zeroed)
  show ?thesis
    unfolding v_def [symmetric] zi_def [symmetric]
  proof (cases "0 = m_cFeatures fc")
    case True
    with run mc v have
      f: "foldM (TrainingCaseMulticlass ext U 0 v) [0..<m_cCases ts] ts = Some ts'"
      by (simp add: TrainingSetTargetFeatureLoop_def Let_def v_def [symmetric])
    show "zeroed v zi (m_cCases ts) ts'"
      by (rule foldM_upt_invariant [OF f, where Inv = "zeroed v zi"]) (simp_all add: start step)
  next
    case False
    with run mc obtain b m ws where
      p: "GetCountBits (m_cItemsPerBitPackDataUnit fc) = Some b"
      and l: "BitPackedLoop (\<lambda>iBin iCase ds. TrainingCaseMulticlass ext U (iBin * v) v iCase ds)
                (m_cItemsPerBitPackDataUnit fc) b m ws v (m_cCases ts) 0 0 ts = Some ts'"
      by (auto simp: TrainingSetTargetFeatureLoop_def Let_def v_def [symmetric]
            split: Option.bind_splits)
    from p have p1: "1 \<le> m_cItemsPerBitPackDataUnit fc"
      by (simp add: GetCountBits_def split: if_splits)
    show "zeroed v zi (m_cCases ts) ts'"
      by (rule BitPackedLoop_invariant [OF v p1 _ l, where Inv = "zeroed v zi"])
         (simp_all add: start step)
  qed
qed

lemma example_multiclass_pass:
  "TrainingSetTargetFeatureLoop example_Externals_zeroing 3 example_intercept
       example_data_multiclass [Finite 0, Finite 0, Finite 0] 3
     = Some (example_data_multiclass\<lparr>m_aResidualErrors :=
               [Finite 0, Finite (- 2 / 3), Finite (1 / 3),
                Finite 0, Finite (1 / 3), Finite (- 2 / 3)]\<rparr>)"
  by (simp add: TrainingSetTargetFeatureLoop_def TrainingCaseMulticlass_def
        TrainingCaseMulticlass_scores_def TrainingCaseMulticlass_residuals_def
        example_Externals_zeroing_def example_Externals_def example_intercept_def
        example_data_multiclass_def GET_VECTOR_LENGTH_def GetVectorLengthFlatCore_def
        IsRegression_def IsBinaryClassification_def k_Regression_def k_DynamicClassification_def
        rd_def wr_def Let_def upt_rec fsub_def eval_nat_numeral)


subsection \<open>Zero updates\<close>

lemma fadd_zero [simp]: "fadd x (Finite 0) = x"
  by (cases x) simp_all

lemma fsub_zero [simp]: "fsub x (Finite 0) = x"
  by (cases x) (simp_all add: fsub_def)

lemma rd_replicate: "rd (replicate n x) k = Some y \<Longrightarrow> y = x"
  by (simp add: rd_def split: if_splits)

lemma TrainingCaseRegression_zero:
  "TrainingCaseRegression (Finite 0) j ds = Some ds' \<Longrightarrow> ds' = ds"
  by (auto simp: TrainingCaseRegression_def ComputeRegressionResidualError_def rd_def wr_def
        split: Option.bind_splits if_splits)

lemma TrainingCaseBinary_effect:
  assumes "TrainingCaseBinary ext u j ds = Some ds'"
  shows "j < length (m_aPredictionScores ds) \<and> j < length (m_aResidualErrors ds)
       \<and> ds' = ds\<lparr>m_aPredictionScores := (m_aPredictionScores ds)[j := fadd (m_aPredictionScores ds ! j) u],
                  m_aResidualErrors := (m_aResidualErrors ds)[j :=
                    ComputeClassificationResidualErrorBinaryclass ext
                      (fadd (m_aPredictionScores ds ! j) u) (m_aTargetData ds ! j)]\<rparr>"
  using assms
  by (auto simp: TrainingCaseBinary_def rd_def wr_def Let_def split: Option.bind_splits if_splits)


lemma foldl_upt_cong:
  "(\<And>k a. k < n \<Longrightarrow> f a k = g a k) \<Longrightarrow> foldl f a [0..<n] = foldl g a [0..<n]"
  by (induction n) simp_all

lemma scores_step:
  assumes inv: "scores_updated u iv v j sc a0 m st"
    and run: "TrainingCaseMulticlass_scores u iv v j m st = Some st'"
  shows "scores_updated u iv v j sc a0 (Suc m) st'"
proof -
  obtain x a where st: "st = (x, a)" by (cases st)
  from inv st have len: "length x = length sc"
    and blk: "\<forall>k<m. v * j + k < length sc \<and> iv + k < length u
                \<and> x ! (v * j + k) = fadd (sc ! (v * j + k)) (u ! (iv + k))"
    and out: "\<forall>idx. idx < v * j \<or> v * j + m \<le> idx \<longrightarrow> x ! idx = sc ! idx"
    and a: "a = foldl (\<lambda>a k. fadd a (fexp (x ! (v * j + k)))) a0 [0..<m]"
    by (simp_all add: scores_updated_def)
  define y where "y = fadd (x ! (v * j + m)) (u ! (iv + m))"
  from run st have iu: "iv + m < length u" and ix: "v * j + m < length x"
    and st': "st' = (x[v * j + m := y], fadd a (fexp y))"
    by (auto simp: TrainingCaseMulticlass_scores_def rd_def wr_def Let_def y_def
          split: Option.bind_splits if_splits)
  from out have xm: "x ! (v * j + m) = sc ! (v * j + m)" by simp
  have same: "\<And>k. k < m \<Longrightarrow> x[v * j + m := y] ! (v * j + k) = x ! (v * j + k)"
    by simp
  have "foldl (\<lambda>a k. fadd a (fexp (x[v * j + m := y] ! (v * j + k)))) a0 [0..<m]
      = foldl (\<lambda>a k. fadd a (fexp (x ! (v * j + k)))) a0 [0..<m]"
    by (rule foldl_upt_cong) (simp add: same)
  with a ix have sum: "fadd a (fexp y)
      = foldl (\<lambda>a k. fadd a (fexp (x[v * j + m := y] ! (v * j + k)))) a0 [0..<Suc m]"
    by simp
  show ?thesis
    unfolding scores_updated_def st' fst_conv snd_conv
  proof (intro conjI allI impI)
    show "length (x[v * j + m := y]) = length sc" using len by simp
  next
    fix k assume "k < Suc m"
    then consider "k < m" | "k = m" by linarith
    then show "v * j + k < length sc" using blk ix len by cases simp_all
  next
    fix k assume "k < Suc m"
    then consider "k < m" | "k = m" by linarith
    then show "iv + k < length u" using blk iu by cases simp_all
  next
    fix k assume "k < Suc m"
    then consider "k < m" | "k = m" by linarith
    then show "x[v * j + m := y] ! (v * j + k) = fadd (sc ! (v * j + k)) (u ! (iv + k))"
      using blk ix xm by cases (simp_all add: y_def)
  next
    fix idx assume "idx < v * j \<or> v * j + Suc m \<le> idx"
    then have "idx \<noteq> v * j + m" "idx < v * j \<or> v * j + m \<le> idx" by auto
    then show "x[v * j + m := y] ! idx = sc ! idx" using out by auto
  next
    show "fadd a (fexp y)
      = foldl (\<lambda>a k. fadd a (fexp (x[v * j + m := y] ! (v * j + k)))) a0 [0..<Suc m]"
      by (rule sum)
  qed
qed

lemma scores_loop:
  assumes "foldM (TrainingCaseMulticlass_scores u iv v j) [0..<v] (sc, a0) = Some st'"
  shows "scores_updated u iv v j sc a0 v st'"
proof (rule foldM_upt_invariant [OF assms, where Inv = "scores_updated u iv v j sc a0"])
  show "scores_updated u iv v j sc a0 0 (sc, a0)" by (simp add: scores_updated_def)
  show "0 \<le> v" by simp
next
  fix m st st'
  assume "scores_updated u iv v j sc a0 m st"
    and "TrainingCaseMulticlass_scores u iv v j m st = Some st'"
  then show "scores_updated u iv v j sc a0 (Suc m) st'" by (rule scores_step)
qed

lemma residuals_step:
  assumes inv: "residuals_written ext sc se t v j r m x"
    and run: "TrainingCaseMulticlass_residuals ext sc se t v j m x = Some x'"
  shows "residuals_written ext sc se t v j r (Suc m) x'"
proof -
  from inv have len: "length x = length r"
    and blk: "\<forall>k<m. v * j + k < length r
                \<and> x ! (v * j + k)
                  = ComputeClassificationResidualErrorMulticlass ext se (sc ! (v * j + k)) t
                      (word_of_nat k)"
    and out: "\<forall>idx. idx < v * j \<or> v * j + m \<le> idx \<longrightarrow> x ! idx = r ! idx"
    by (simp_all add: residuals_written_def)
  define y where "y = ComputeClassificationResidualErrorMulticlass ext se (sc ! (v * j + m)) t
                        (word_of_nat m)"
  from run have ix: "v * j + m < length x" and x': "x' = x[v * j + m := y]"
    by (auto simp: TrainingCaseMulticlass_residuals_def rd_def wr_def y_def
          split: Option.bind_splits if_splits)
  show ?thesis
    unfolding residuals_written_def x'
  proof (intro conjI allI impI)
    show "length (x[v * j + m := y]) = length r" using len by simp
  next
    fix k assume "k < Suc m"
    then consider "k < m" | "k = m" by linarith
    then show "v * j + k < length r" using blk ix len by cases simp_all
  next
    fix k assume "k < Suc m"
    then consider "k < m" | "k = m" by linarith
    then show "x[v * j + m := y] ! (v * j + k)
        = ComputeClassificationResidualErrorMulticlass ext se (sc ! (v * j + k)) t (word_of_nat k)"
      using blk ix by cases (simp_all add: y_def)
  next
    fix idx assume "idx < v * j \<or> v * j + Suc m \<le> idx"
    then have "idx \<noteq> v * j + m" "idx < v * j \<or> v * j + m \<le> idx" by auto
    then show "x[v * j + m := y] ! idx = r ! idx" using out by auto
  qed
qed

lemma residuals_loop:
  assumes "foldM (TrainingCaseMulticlass_residuals ext sc se t v j) [0..<v] r = Some r'"
  shows "residuals_written ext sc se t v j r v r'"
proof (rule foldM_upt_invariant [OF assms, where Inv = "residuals_written ext sc se t v j r"])
  show "residuals_written ext sc se t v j r 0 r" by (simp add: residuals_written_def)
  show "0 \<le> v" by simp
next
  fix m x x'
  assume "residuals_written ext sc se t v j r m x"
    and "TrainingCaseMulticlass_residuals ext sc se t v j m x = Some x'"
  then show "residuals_written ext sc se t v j r (Suc m) x'" by (rule residuals_step)
qed

lemma TrainingCaseMulticlass_effect:
  assumes run: "TrainingCaseMulticlass ext u iv v j ds = Some ds'"
    and v: "1 \<le> v" and z: "k_iZeroResidual ext < int v"
  shows "multiclass_case_done ext u iv v j ds ds'"
proof -
  have m: "max 1 v = v" using v by simp
  from run obtain t sc se r r' where
    t: "rd (m_aTargetData ds) j = Some t"
    and s: "foldM (TrainingCaseMulticlass_scores u iv v j) [0..<v] (m_aPredictionScores ds, Finite 0)
              = Some (sc, se)"
    and r: "foldM (TrainingCaseMulticlass_residuals ext sc se t v j) [0..<v] (m_aResidualErrors ds)
              = Some r"
    and r': "(if 0 \<le> k_iZeroResidual ext
              then (if int (v * j + v) + (k_iZeroResidual ext - int v) < 0 then None
                    else wr r (nat (int (v * j + v) + (k_iZeroResidual ext - int v))) (Finite 0))
              else Some r) = Some r'"
    and ds': "ds' = ds\<lparr>m_aPredictionScores := sc, m_aResidualErrors := r'\<rparr>"
    unfolding TrainingCaseMulticlass_def m
    by (auto split: Option.bind_splits prod.splits)
  from t have tj: "t = m_aTargetData ds ! j" by (simp add: rd_def split: if_splits)
  from scores_loop [OF s] have
    sl: "length sc = length (m_aPredictionScores ds)"
    and sb: "\<forall>k<v. v * j + k < length (m_aPredictionScores ds) \<and> iv + k < length u
                \<and> sc ! (v * j + k) = fadd (m_aPredictionScores ds ! (v * j + k)) (u ! (iv + k))"
    and so: "\<forall>idx. idx < v * j \<or> v * j + v \<le> idx \<longrightarrow> sc ! idx = m_aPredictionScores ds ! idx"
    and se: "se = SumExp v sc j"
    by (simp_all add: scores_updated_def SumExp_def)
  from residuals_loop [OF r] have
    rl: "length r = length (m_aResidualErrors ds)"
    and rb: "\<forall>k<v. v * j + k < length (m_aResidualErrors ds)
                \<and> r ! (v * j + k)
                  = ComputeClassificationResidualErrorMulticlass ext se (sc ! (v * j + k)) t
                      (word_of_nat k)"
    and ro: "\<forall>idx. idx < v * j \<or> v * j + v \<le> idx \<longrightarrow> r ! idx = m_aResidualErrors ds ! idx"
    by (simp_all add: residuals_written_def)
  show ?thesis
  proof (cases "0 \<le> k_iZeroResidual ext")
    case False
    with r' have "r' = r" by simp
    with False sl sb so rl rb ro show ?thesis
      unfolding multiclass_case_done_def ds' se tj by auto
  next
    case True
    define zi where "zi = nat (k_iZeroResidual ext)"
    have zi: "k_iZeroResidual ext = int zi" "zi < v" using True z by (simp_all add: zi_def)
    have "int (v * j + v) + (int zi - int v) = int (v * j + zi)" by simp
    then have idx: "nat (int (v * j + v) + (int zi - int v)) = v * j + zi"
      by (simp only: nat_int)
    from r' True have w: "v * j + zi < length r" and r'': "r' = r[v * j + zi := Finite 0]"
      unfolding zi(1) idx by (auto simp: wr_def split: if_splits)
    have blk: "\<forall>k<v. r[v * j + zi := Finite 0] ! (v * j + k)
          = (if int k = int zi then Finite 0
             else ComputeClassificationResidualErrorMulticlass ext (SumExp v sc j)
                    (sc ! (v * j + k)) (m_aTargetData ds ! j) (word_of_nat k))"
      using rb w by (simp add: nth_list_update se tj)
    have out: "\<forall>idx. idx < v * j \<or> v * j + v \<le> idx \<longrightarrow>
          r[v * j + zi := Finite 0] ! idx = m_aResidualErrors ds ! idx"
    proof (intro allI impI)
      fix idx assume o: "idx < v * j \<or> v * j + v \<le> idx"
      with zi(2) have "idx \<noteq> v * j + zi" by auto
      with o ro show "r[v * j + zi := Finite 0] ! idx = m_aResidualErrors ds ! idx"
        by auto
    qed
    show ?thesis
      unfolding multiclass_case_done_def ds' r'' zi(1)
      using sl sb so rl rb blk out by simp
  qed
qed


lemma block_cases:
  obtains "(idx::nat) < v * j \<or> v * j + v \<le> idx" | k where "k < v" "idx = v * j + k"
proof (cases "idx < v * j \<or> v * j + v \<le> idx")
  case True
  then show ?thesis by (rule that(1))
next
  case False
  then have "idx - v * j < v" "idx = v * j + (idx - v * j)" by auto
  then show ?thesis by (rule that(2))
qed

lemma earlier_block: "k < j \<Longrightarrow> i < v \<Longrightarrow> v * k + i < v * (j::nat)"
proof -
  assume "k < j" and i: "i < v"
  then have "Suc k \<le> j" by simp
  then have "v * Suc k \<le> v * j" by (rule mult_le_mono2)
  with i show ?thesis by simp
qed

lemma multiclass_case_done_synced:
  assumes d: "multiclass_case_done ext u iv v j ds ds'"
    and c: "\<not> IsRegression c" "\<not> IsBinaryClassification c"
    and inv: "\<forall>k<j. TrainingSynced ext c v k ds"
  shows "\<forall>k<Suc j. TrainingSynced ext c v k ds'"
proof (intro allI impI)
  fix k assume "k < Suc j"
  then consider "k < j" | "k = j" by linarith
  then show "TrainingSynced ext c v k ds'"
  proof cases
    case 2
    from d have "m_aTargetData ds' = m_aTargetData ds"
      by (auto simp: multiclass_case_done_def dest: arg_cong [where f = m_aTargetData])
    with d c 2 show ?thesis
      by (simp add: multiclass_case_done_def TrainingSynced_def)
  next
    case 1
    from d have tg: "m_aTargetData ds' = m_aTargetData ds"
      by (auto simp: multiclass_case_done_def dest: arg_cong [where f = m_aTargetData])
    from d have out: "\<And>idx. idx < v * j \<Longrightarrow>
             m_aPredictionScores ds' ! idx = m_aPredictionScores ds ! idx
             \<and> m_aResidualErrors ds' ! idx = m_aResidualErrors ds ! idx"
      by (simp add: multiclass_case_done_def)
    have same: "\<And>i. i < v \<Longrightarrow>
             m_aPredictionScores ds' ! (v * k + i) = m_aPredictionScores ds ! (v * k + i)
             \<and> m_aResidualErrors ds' ! (v * k + i) = m_aResidualErrors ds ! (v * k + i)"
      using 1 by (intro out earlier_block)
    have se: "SumExp v (m_aPredictionScores ds') k = SumExp v (m_aPredictionScores ds) k"
      unfolding SumExp_def by (rule foldl_upt_cong) (simp add: same)
    from inv 1 have "TrainingSynced ext c v k ds" by simp
    with c show ?thesis
      by (simp add: TrainingSynced_def same se tg)
  qed
qed

lemma GET_VECTOR_LENGTH_flat:
  "IsRegression c \<or> IsBinaryClassification c \<Longrightarrow> GET_VECTOR_LENGTH c K = 1"
  by (auto simp: IsRegression_def IsBinaryClassification_def GET_VECTOR_LENGTH_def
        GetVectorLengthFlatCore_def k_Regression_def k_DynamicClassification_def)

lemma TrainingCase_synced:
  assumes run: "TrainingCase ext c u v iBin j ds = Some ds'"
    and v: "1 \<le> v"
    and z: "IsRegression c \<or> IsBinaryClassification c \<or> k_iZeroResidual ext < int v"
    and inv: "\<forall>k<j. TrainingSynced ext c v k ds"
  shows "\<forall>k<Suc j. TrainingSynced ext c v k ds'"
proof (cases "IsRegression c")
  case True
  then show ?thesis by (simp add: TrainingSynced_def)
next
  case nr: False
  show ?thesis
  proof (cases "IsBinaryClassification c")
    case True
    from run nr True obtain x where "TrainingCaseBinary ext x j ds = Some ds'"
      by (auto simp: TrainingCase_def split: Option.bind_splits)
    from TrainingCaseBinary_effect [OF this] inv nr True show ?thesis
      by (auto simp: TrainingSynced_def less_Suc_eq nth_list_update)
  next
    case False
    with run nr have "TrainingCaseMulticlass ext u (iBin * v) v j ds = Some ds'"
      by (simp add: TrainingCase_def)
    from TrainingCaseMulticlass_effect [OF this v] z nr False
    have "multiclass_case_done ext u (iBin * v) v j ds ds'" by simp
    then show ?thesis using nr False inv by (rule multiclass_case_done_synced)
  qed
qed

lemma multiclass_case_done_zero:
  assumes d: "multiclass_case_done ext (replicate n (Finite 0)) iv v j ds ds'"
    and c: "\<not> IsRegression c" "\<not> IsBinaryClassification c"
    and sync: "TrainingSynced ext c v j ds"
  shows "ds' = ds"
proof -
  from d have eq: "ds' = ds\<lparr>m_aPredictionScores := m_aPredictionScores ds',
               m_aResidualErrors := m_aResidualErrors ds'\<rparr>"
    and sl: "length (m_aPredictionScores ds') = length (m_aPredictionScores ds)"
    and rl: "length (m_aResidualErrors ds') = length (m_aResidualErrors ds)"
    and blk: "\<And>k. k < v \<Longrightarrow> iv + k < n
                \<and> m_aPredictionScores ds' ! (v * j + k)
                    = fadd (m_aPredictionScores ds ! (v * j + k))
                        (replicate n (Finite 0) ! (iv + k))
                \<and> m_aResidualErrors ds' ! (v * j + k)
                    = (if int k = k_iZeroResidual ext then Finite 0
                       else ComputeClassificationResidualErrorMulticlass ext
                              (SumExp v (m_aPredictionScores ds') j)
                              (m_aPredictionScores ds' ! (v * j + k))
                              (m_aTargetData ds ! j) (word_of_nat k))"
    and out: "\<And>idx. idx < v * j \<or> v * j + v \<le> idx \<Longrightarrow>
             m_aPredictionScores ds' ! idx = m_aPredictionScores ds ! idx
             \<and> m_aResidualErrors ds' ! idx = m_aResidualErrors ds ! idx"
    unfolding multiclass_case_done_def by auto
  have sb: "\<And>k. k < v \<Longrightarrow>
      m_aPredictionScores ds' ! (v * j + k) = m_aPredictionScores ds ! (v * j + k)"
    using blk by simp
  have sc: "m_aPredictionScores ds' = m_aPredictionScores ds"
  proof (rule nth_equalityI [OF sl])
    fix idx
    show "m_aPredictionScores ds' ! idx = m_aPredictionScores ds ! idx"
      by (rule block_cases [of idx v j]) (simp_all add: out sb)
  qed
  have rb: "\<And>k. k < v \<Longrightarrow>
      m_aResidualErrors ds' ! (v * j + k) = m_aResidualErrors ds ! (v * j + k)"
    using blk sync c by (simp add: TrainingSynced_def sc)
  have r: "m_aResidualErrors ds' = m_aResidualErrors ds"
  proof (rule nth_equalityI [OF rl])
    fix idx
    show "m_aResidualErrors ds' ! idx = m_aResidualErrors ds ! idx"
      by (rule block_cases [of idx v j]) (simp_all add: out rb)
  qed
  from eq show ?thesis unfolding sc r by simp
qed

lemma TrainingCase_zero:
  assumes run: "TrainingCase ext c (replicate n (Finite 0)) v iBin j ds = Some ds'"
    and v: "1 \<le> v"
    and z: "IsRegression c \<or> IsBinaryClassification c \<or> k_iZeroResidual ext < int v"
    and sync: "TrainingSynced ext c v j ds"
  shows "ds' = ds"
proof (cases "IsRegression c")
  case True
  with run obtain x where x: "rd (replicate n (Finite 0)) (iBin * v) = Some x"
    and r: "TrainingCaseRegression x j ds = Some ds'"
    by (auto simp: TrainingCase_def split: Option.bind_splits)
  from rd_replicate [OF x] r show ?thesis by (simp add: TrainingCaseRegression_zero)
next
  case nr: False
  show ?thesis
  proof (cases "IsBinaryClassification c")
    case True
    from run nr True obtain x where x: "rd (replicate n (Finite 0)) (iBin * v) = Some x"
      and r: "TrainingCaseBinary ext x j ds = Some ds'"
      by (auto simp: TrainingCase_def split: Option.bind_splits)
    from sync nr True have "m_aResidualErrors ds ! j
        = ComputeClassificationResidualErrorBinaryclass ext
            (m_aPredictionScores ds ! j) (m_aTargetData ds ! j)"
      by (simp add: TrainingSynced_def)
    then have "ds' = ds\<lparr>m_aPredictionScores := (m_aPredictionScores ds)[j := m_aPredictionScores ds ! j],
                  m_aResidualErrors := (m_aResidualErrors ds)[j := m_aResidualErrors ds ! j]\<rparr>"
      using rd_replicate [OF x] TrainingCaseBinary_effect [OF r] by simp
    then show ?thesis by simp
  next
    case False
    with run nr have
      "TrainingCaseMulticlass ext (replicate n (Finite 0)) (iBin * v) v j ds = Some ds'"
      by (simp add: TrainingCase_def)
    from TrainingCaseMulticlass_effect [OF this v] z nr False
    have "multiclass_case_done ext (replicate n (Finite 0)) (iBin * v) v j ds ds'" by simp
    then show ?thesis using nr False sync by (rule multiclass_case_done_zero)
  qed
qed


lemma TrainingSetTargetFeatureLoop_unpacked:
  assumes d: "m_cFeatures fc = 0"
    and v: "1 \<le> GET_VECTOR_LENGTH c K"
    and run: "TrainingSetTargetFeatureLoop ext c fc ts U K = Some ts'"
  shows "foldM (TrainingCase ext c U (GET_VECTOR_LENGTH c K) 0) [0..<m_cCases ts] ts = Some ts'"
proof (cases "IsRegression c")
  case True
  then have v1: "GET_VECTOR_LENGTH c K = 1" by (simp add: GET_VECTOR_LENGTH_flat)
  from run d True obtain x where x: "rd U 0 = Some x"
    and f: "foldM (TrainingCaseRegression x) [0..<m_cCases ts] ts = Some ts'"
    by (auto simp: TrainingSetTargetFeatureLoop_def Let_def v1 split: Option.bind_splits)
  have "TrainingCase ext c U 1 0 = TrainingCaseRegression x"
    using True x by (intro ext) (simp add: TrainingCase_def)
  with f show ?thesis by (simp add: v1)
next
  case nr: False
  show ?thesis
  proof (cases "IsBinaryClassification c")
    case True
    then have v1: "GET_VECTOR_LENGTH c K = 1" by (simp add: GET_VECTOR_LENGTH_flat)
    from run d nr True obtain x where x: "rd U 0 = Some x"
      and f: "foldM (TrainingCaseBinary ext x) [0..<m_cCases ts] ts = Some ts'"
      by (auto simp: TrainingSetTargetFeatureLoop_def Let_def v1 split: Option.bind_splits)
    have "TrainingCase ext c U 1 0 = TrainingCaseBinary ext x"
      using nr True x by (intro ext) (simp add: TrainingCase_def)
    with f show ?thesis by (simp add: v1)
  next
    case False
    have "TrainingCase ext c U (GET_VECTOR_LENGTH c K) 0
            = TrainingCaseMulticlass ext U 0 (GET_VECTOR_LENGTH c K)"
      using nr False by (intro ext) (simp add: TrainingCase_def)
    with run d nr False v show ?thesis
      by (simp add: TrainingSetTargetFeatureLoop_def Let_def)
  qed
qed

lemma training_pass_invariant:
  assumes run: "TrainingSetTargetFeatureLoop ext c fc ts U K = Some ts'"
    and v: "1 \<le> GET_VECTOR_LENGTH c K"
    and start: "Inv 0 ts"
    and step: "\<And>iBin j s s'. Inv j s
                 \<Longrightarrow> TrainingCase ext c U (GET_VECTOR_LENGTH c K) iBin j s = Some s'
                 \<Longrightarrow> Inv (Suc j) s'"
  shows "Inv (m_cCases ts) ts'"
proof (cases "m_cFeatures fc = 0")
  case True
  from TrainingSetTargetFeatureLoop_unpacked [OF True v run]
  show ?thesis
    by (rule foldM_upt_invariant [where Inv = Inv]) (simp_all add: start step)
next
  case False
  then have "0 < m_cFeatures fc" by simp
  from run [unfolded TrainingSetTargetFeatureLoop_packed [OF this]] obtain b m ws where
    p: "GetCountBits (m_cItemsPerBitPackDataUnit fc) = Some b"
    and l: "BitPackedLoop (TrainingCase ext c U (GET_VECTOR_LENGTH c K))
              (m_cItemsPerBitPackDataUnit fc) b m ws (GET_VECTOR_LENGTH c K) (m_cCases ts) 0 0 ts
            = Some ts'"
    by (auto split: Option.bind_splits)
  from p have p1: "1 \<le> m_cItemsPerBitPackDataUnit fc"
    by (simp add: GetCountBits_def split: if_splits)
  show ?thesis
    by (rule BitPackedLoop_invariant [OF v p1 _ l, where Inv = Inv]) (simp_all add: start step)
qed

lemma TrainingCase_cCases:
  assumes "TrainingCase ext c u v iBin j ds = Some ds'"
  shows "m_cCases ds' = m_cCases ds"
  using assms
  by (auto simp: TrainingCase_def TrainingCaseRegression_def TrainingCaseBinary_def
        TrainingCaseMulticlass_def Let_def
        split: Option.bind_splits if_splits prod.splits)

lemma training_pass_synced:
  assumes run: "TrainingSetTargetFeatureLoop ext c fc ts U K = Some ts'"
    and v: "1 \<le> GET_VECTOR_LENGTH c K"
    and z: "IsRegression c \<or> IsBinaryClassification c
            \<or> k_iZeroResidual ext < int (GET_VECTOR_LENGTH c K)"
  shows "m_cCases ts' = m_cCases ts
       \<and> (\<forall>j<m_cCases ts. TrainingSynced ext c (GET_VECTOR_LENGTH c K) j ts')"
proof (rule training_pass_invariant [OF run v, where Inv = "\<lambda>i ds. m_cCases ds = m_cCases ts
       \<and> (\<forall>j<i. TrainingSynced ext c (GET_VECTOR_LENGTH c K) j ds)"])
  show "m_cCases ts = m_cCases ts \<and> (\<forall>j<0. TrainingSynced ext c (GET_VECTOR_LENGTH c K) j ts)"
    by simp
next
  fix iBin j s s'
  assume inv: "m_cCases s = m_cCases ts \<and> (\<forall>k<j. TrainingSynced ext c (GET_VECTOR_LENGTH c K) k s)"
    and r: "TrainingCase ext c U (GET_VECTOR_LENGTH c K) iBin j s = Some s'"
  from TrainingCase_cCases [OF r] TrainingCase_synced [OF r v z] inv
  show "m_cCases s' = m_cCases ts \<and> (\<forall>k<Suc j. TrainingSynced ext c (GET_VECTOR_LENGTH c K) k s')"
    by simp
qed

lemma training_pass_zero:
  assumes run: "TrainingSetTargetFeatureLoop ext c fc ts (replicate n (Finite 0)) K = Some ts'"
    and v: "1 \<le> GET_VECTOR_LENGTH c K"
    and z: "IsRegression c \<or> IsBinaryClassification c
            \<or> k_iZeroResidual ext < int (GET_VECTOR_LENGTH c K)"
    and sync: "\<forall>j<m_cCases ts. TrainingSynced ext c (GET_VECTOR_LENGTH c K) j ts"
  shows "ts' = ts"
proof -
  have "m_cCases ts \<le> m_cCases ts \<longrightarrow> ts' = ts"
  proof (rule training_pass_invariant [OF run v, where Inv = "\<lambda>i ds. i \<le> m_cCases ts \<longrightarrow> ds = ts"])
    show "0 \<le> m_cCases ts \<longrightarrow> ts = ts" by simp
  next
    fix iBin j s s'
    assume inv: "j \<le> m_cCases ts \<longrightarrow> s = ts"
      and r: "TrainingCase ext c (replicate n (Finite 0)) (GET_VECTOR_LENGTH c K) iBin j s = Some s'"
    show "Suc j \<le> m_cCases ts \<longrightarrow> s' = ts"
    proof
      assume j: "Suc j \<le> m_cCases ts"
      with inv have s: "s = ts" by simp
      from j sync have "TrainingSynced ext c (GET_VECTOR_LENGTH c K) j ts" by simp
      from TrainingCase_zero [OF r [unfolded s] v z this] show "s' = ts" .
    qed
  qed
  then show ?thesis by simp
qed

lemma training_pass_twice:
  assumes "TrainingSetTargetFeatureLoop ext c fc0 ts0 U K = Some ts"
    and "TrainingSetTargetFeatureLoop ext c fc ts (replicate n (Finite 0)) K = Some ts'"
    and "1 \<le> GET_VECTOR_LENGTH c K"
    and "IsRegression c \<or> IsBinaryClassification c
            \<or> k_iZeroResidual ext < int (GET_VECTOR_LENGTH c K)"
  shows "ts' = ts"
  using training_pass_synced [OF assms(1,3,4)] training_pass_zero [OF assms(2,3,4)] by simp

lemma ValidationSetTargetFeatureLoop_unpacked:
  assumes d: "m_cFeatures fc = 0"
    and v: "1 \<le> GET_VECTOR_LENGTH c K"
    and run: "ValidationSetTargetFeatureLoop ext c fc vs U K = Some (vs', m)"
  shows "\<exists>acc. foldM (ValidationCase ext c U (GET_VECTOR_LENGTH c K) 0) [0..<m_cCases vs]
                  (vs, Finite 0) = Some (vs', acc)
              \<and> m = ValidationMetric c (m_cCases vs) acc"
proof (cases "IsRegression c")
  case True
  then have v1: "GET_VECTOR_LENGTH c K = 1" by (simp add: GET_VECTOR_LENGTH_flat)
  from run d True obtain x acc where x: "rd U 0 = Some x"
    and f: "foldM (ValidationCaseRegression x) [0..<m_cCases vs] (vs, Finite 0) = Some (vs', acc)"
    and m: "m = fsqrt (fdiv acc (FractionalDataType_of_size_t (m_cCases vs)))"
    by (auto simp: ValidationSetTargetFeatureLoop_def Let_def v1
          split: Option.bind_splits prod.splits)
  have "ValidationCase ext c U 1 0 = ValidationCaseRegression x"
    using True x by (intro ext) (simp add: ValidationCase_def)
  with f m True show ?thesis by (simp add: v1 ValidationMetric_def)
next
  case nr: False
  show ?thesis
  proof (cases "IsBinaryClassification c")
    case True
    then have v1: "GET_VECTOR_LENGTH c K = 1" by (simp add: GET_VECTOR_LENGTH_flat)
    from run d nr True obtain x where x: "rd U 0 = Some x"
      and f: "foldM (ValidationCaseBinary ext x) [0..<m_cCases vs] (vs, Finite 0) = Some (vs', m)"
      by (auto simp: ValidationSetTargetFeatureLoop_def Let_def v1 split: Option.bind_splits)
    have "ValidationCase ext c U 1 0 = ValidationCaseBinary ext x"
      using nr True x by (intro ext) (simp add: ValidationCase_def)
    with f nr show ?thesis by (simp add: v1 ValidationMetric_def)
  next
    case False
    have "ValidationCase ext c U (GET_VECTOR_LENGTH c K) 0
            = ValidationCaseMulticlass ext U 0 (GET_VECTOR_LENGTH c K)"
      using nr False by (intro ext) (simp add: ValidationCase_def)
    with run d nr False v show ?thesis
      by (simp add: ValidationSetTargetFeatureLoop_def Let_def ValidationMetric_def)
  qed
qed

lemma ValidationSetTargetFeatureLoop_packed:
  assumes d: "0 < m_cFeatures fc"
    and run: "ValidationSetTargetFeatureLoop ext c fc vs U K = Some (vs', m)"
  shows "\<exists>b mb ws acc. GetCountBits (m_cItemsPerBitPackDataUnit fc) = Some b
            \<and> BitPackedLoop (ValidationCase ext c U (GET_VECTOR_LENGTH c K))
                  (m_cItemsPerBitPackDataUnit fc) b mb ws (GET_VECTOR_LENGTH c K) (m_cCases vs)
                  0 0 (vs, Finite 0) = Some (vs', acc)
            \<and> m = ValidationMetric c (m_cCases vs) acc"
proof (cases "IsRegression c")
  case True
  have "ValidationCase ext c U (GET_VECTOR_LENGTH c K)
      = (\<lambda>iBin iCase st. do {
           smallChangeToPrediction \<leftarrow> rd U (iBin * GET_VECTOR_LENGTH c K);
           ValidationCaseRegression smallChangeToPrediction iCase st
         })"
    using True by (intro ext) (simp add: ValidationCase_def)
  with run d True show ?thesis
    by (auto simp: ValidationSetTargetFeatureLoop_def Let_def ValidationMetric_def
          split: Option.bind_splits prod.splits)
next
  case False
  have "ValidationCase ext c U (GET_VECTOR_LENGTH c K)
      = (\<lambda>iBin iCase st.
           if IsBinaryClassification c then do {
             smallChangeToPredictionScores \<leftarrow> rd U (iBin * GET_VECTOR_LENGTH c K);
             ValidationCaseBinary ext smallChangeToPredictionScores iCase st
           }
           else ValidationCaseMulticlass ext U (iBin * GET_VECTOR_LENGTH c K)
                  (GET_VECTOR_LENGTH c K) iCase st)"
    using False by (intro ext) (simp add: ValidationCase_def)
  with run d False show ?thesis
    by (auto simp: ValidationSetTargetFeatureLoop_def Let_def ValidationMetric_def
          split: Option.bind_splits prod.splits)
qed

lemma validation_pass_invariant:
  assumes run: "ValidationSetTargetFeatureLoop ext c fc vs U K = Some (vs', m)"
    and v: "1 \<le> GET_VECTOR_LENGTH c K"
    and start: "Inv 0 (vs, Finite 0)"
    and step: "\<And>iBin j s s'. Inv j s
                 \<Longrightarrow> ValidationCase ext c U (GET_VECTOR_LENGTH c K) iBin j s = Some s'
                 \<Longrightarrow> Inv (Suc j) s'"
  shows "\<exists>acc. Inv (m_cCases vs) (vs', acc) \<and> m = ValidationMetric c (m_cCases vs) acc"
proof (cases "m_cFeatures fc = 0")
  case True
  from ValidationSetTargetFeatureLoop_unpacked [OF True v run] obtain acc where
    f: "foldM (ValidationCase ext c U (GET_VECTOR_LENGTH c K) 0) [0..<m_cCases vs]
                  (vs, Finite 0) = Some (vs', acc)"
    and m: "m = ValidationMetric c (m_cCases vs) acc" by blast
  have "Inv (m_cCases vs) (vs', acc)"
    by (rule foldM_upt_invariant [OF f, where Inv = Inv]) (simp_all add: start step)
  with m show ?thesis by blast
next
  case False
  then have "0 < m_cFeatures fc" by simp
  from ValidationSetTargetFeatureLoop_packed [OF this run] obtain b mb ws acc where
    p: "GetCountBits (m_cItemsPerBitPackDataUnit fc) = Some b"
    and l: "BitPackedLoop (ValidationCase ext c U (GET_VECTOR_LENGTH c K))
                  (m_cItemsPerBitPackDataUnit fc) b mb ws (GET_VECTOR_LENGTH c K) (m_cCases vs)
                  0 0 (vs, Finite 0) = Some (vs', acc)"
    and m: "m = ValidationMetric c (m_cCases vs) acc" by blast
  from p have p1: "1 \<le> m_cItemsPerBitPackDataUnit fc"
    by (simp add: GetCountBits_def split: if_splits)
  have "Inv (m_cCases vs) (vs', acc)"
    by (rule BitPackedLoop_invariant [OF v p1 _ l, where Inv = Inv]) (simp_all add: start step)
  with m show ?thesis by blast
qed

lemma ValidationCaseRegression_effect:
  assumes "ValidationCaseRegression u j (ds, acc) = Some (ds', acc')"
  shows "j < length (m_aResidualErrors ds)
       \<and> ds' = ds\<lparr>m_aResidualErrors := (m_aResidualErrors ds)[j := fsub (m_aResidualErrors ds ! j) u]\<rparr>
       \<and> acc' = fadd acc (fmul (fsub (m_aResidualErrors ds ! j) u)
                                (fsub (m_aResidualErrors ds ! j) u))"
  using assms
  by (auto simp: ValidationCaseRegression_def ComputeRegressionResidualError_def rd_def wr_def
        Let_def split: Option.bind_splits if_splits)

lemma ValidationCaseBinary_effect:
  assumes "ValidationCaseBinary ext u j (ds, acc) = Some (ds', acc')"
  shows "j < length (m_aPredictionScores ds)
       \<and> ds' = ds\<lparr>m_aPredictionScores := (m_aPredictionScores ds)[j := fadd (m_aPredictionScores ds ! j) u]\<rparr>
       \<and> acc' = fadd acc (ComputeClassificationSingleCaseLogLossBinaryclass ext
                            (fadd (m_aPredictionScores ds ! j) u) (m_aTargetData ds ! j))"
  using assms
  by (auto simp: ValidationCaseBinary_def rd_def wr_def Let_def
        split: Option.bind_splits if_splits)

lemma ValidationCaseMulticlass_effect:
  assumes run: "ValidationCaseMulticlass ext u iv v j (ds, acc) = Some (ds', acc')"
    and v: "1 \<le> v"
  shows "ds' = ds\<lparr>m_aPredictionScores := m_aPredictionScores ds'\<rparr>
       \<and> length (m_aPredictionScores ds') = length (m_aPredictionScores ds)
       \<and> (\<forall>k<v. iv + k < length u
                \<and> m_aPredictionScores ds' ! (v * j + k)
                    = fadd (m_aPredictionScores ds ! (v * j + k)) (u ! (iv + k)))
       \<and> (\<forall>idx. idx < v * j \<or> v * j + v \<le> idx \<longrightarrow>
             m_aPredictionScores ds' ! idx = m_aPredictionScores ds ! idx)
       \<and> acc' = fadd acc (ComputeClassificationSingleCaseLogLossMulticlass ext
                            (SumExp v (m_aPredictionScores ds') j) (m_aPredictionScores ds')
                            (v * j) (m_aTargetData ds ! j))"
proof -
  have m: "max 1 v = v" using v by simp
  from run obtain t sc se where
    t: "rd (m_aTargetData ds) j = Some t"
    and s: "foldM (TrainingCaseMulticlass_scores u iv v j) [0..<v] (m_aPredictionScores ds, Finite 0)
              = Some (sc, se)"
    and ds': "ds' = ds\<lparr>m_aPredictionScores := sc\<rparr>"
    and acc': "acc' = fadd acc (ComputeClassificationSingleCaseLogLossMulticlass ext se sc
                                  (v * j + v - v) t)"
    unfolding ValidationCaseMulticlass_def m
    by (auto split: Option.bind_splits prod.splits)
  from t have tj: "t = m_aTargetData ds ! j" by (simp add: rd_def split: if_splits)
  from scores_loop [OF s] have
    sl: "length sc = length (m_aPredictionScores ds)"
    and sb: "\<forall>k<v. v * j + k < length (m_aPredictionScores ds) \<and> iv + k < length u
                \<and> sc ! (v * j + k) = fadd (m_aPredictionScores ds ! (v * j + k)) (u ! (iv + k))"
    and so: "\<forall>idx. idx < v * j \<or> v * j + v \<le> idx \<longrightarrow> sc ! idx = m_aPredictionScores ds ! idx"
    and se: "se = SumExp v sc j"
    by (simp_all add: scores_updated_def SumExp_def)
  show ?thesis
    unfolding ds' acc' se tj using sl sb so by simp
qed


lemma ValidationSum_Suc:
  "ValidationSum ext c v ds (Suc j) = fadd (ValidationSum ext c v ds j) (CaseMetric ext c v ds j)"
  by (simp add: ValidationSum_def)

lemma ValidationSum_cong:
  "(\<And>k. k < j \<Longrightarrow> CaseMetric ext c v ds' k = CaseMetric ext c v ds k)
     \<Longrightarrow> ValidationSum ext c v ds' j = ValidationSum ext c v ds j"
  unfolding ValidationSum_def by (rule foldl_upt_cong) simp

lemma ValidationCase_sum:
  assumes run: "ValidationCase ext c u v iBin j (ds, acc) = Some (ds', acc')"
    and v: "1 \<le> v"
    and loc: "IsRegression c \<or> IsBinaryClassification c
              \<or> LogLossLocal ext v (m_aTargetData ds) n"
    and j: "j < n"
    and acc: "acc = ValidationSum ext c v ds j"
  shows "acc' = ValidationSum ext c v ds' (Suc j) \<and> m_cCases ds' = m_cCases ds
       \<and> m_aTargetData ds' = m_aTargetData ds"
proof -
  have "acc' = fadd acc (CaseMetric ext c v ds' j)
      \<and> (\<forall>k<j. CaseMetric ext c v ds' k = CaseMetric ext c v ds k)
      \<and> m_cCases ds' = m_cCases ds \<and> m_aTargetData ds' = m_aTargetData ds"
  proof (cases "IsRegression c")
    case True
    with run obtain x where "ValidationCaseRegression x j (ds, acc) = Some (ds', acc')"
      by (auto simp: ValidationCase_def split: Option.bind_splits)
    from ValidationCaseRegression_effect [OF this] True show ?thesis
      by (auto simp: CaseMetric_def)
  next
    case nr: False
    show ?thesis
    proof (cases "IsBinaryClassification c")
      case True
      with run nr obtain x where "ValidationCaseBinary ext x j (ds, acc) = Some (ds', acc')"
        by (auto simp: ValidationCase_def split: Option.bind_splits)
      from ValidationCaseBinary_effect [OF this] nr True show ?thesis
        by (auto simp: CaseMetric_def)
    next
      case False
      with run nr have "ValidationCaseMulticlass ext u (iBin * v) v j (ds, acc) = Some (ds', acc')"
        by (simp add: ValidationCase_def)
      from ValidationCaseMulticlass_effect [OF this v] have
        eq: "ds' = ds\<lparr>m_aPredictionScores := m_aPredictionScores ds'\<rparr>"
        and sl: "length (m_aPredictionScores ds') = length (m_aPredictionScores ds)"
        and out: "\<And>idx. idx < v * j \<Longrightarrow>
             m_aPredictionScores ds' ! idx = m_aPredictionScores ds ! idx"
        and acc': "acc' = fadd acc (ComputeClassificationSingleCaseLogLossMulticlass ext
                            (SumExp v (m_aPredictionScores ds') j) (m_aPredictionScores ds')
                            (v * j) (m_aTargetData ds ! j))"
        by auto
      from eq have tg: "m_aTargetData ds' = m_aTargetData ds"
        by (auto dest: arg_cong [where f = m_aTargetData])
      from eq have cc: "m_cCases ds' = m_cCases ds"
        by (auto dest: arg_cong [where f = m_cCases])
      from loc nr False have loc': "LogLossLocal ext v (m_aTargetData ds) n" by simp
      have frame: "CaseMetric ext c v ds' k = CaseMetric ext c v ds k" if k: "k < j" for k
      proof -
        have same: "\<And>i. i < v \<Longrightarrow>
             m_aPredictionScores ds' ! (v * k + i) = m_aPredictionScores ds ! (v * k + i)"
          using k by (intro out earlier_block)
        have se: "SumExp v (m_aPredictionScores ds') k = SumExp v (m_aPredictionScores ds) k"
          unfolding SumExp_def by (rule foldl_upt_cong) (simp add: same)
        from k j have kn: "k < n" by simp
        from loc' [unfolded LogLossLocal_def, rule_format, OF kn sl same]
        have "ComputeClassificationSingleCaseLogLossMulticlass ext
             (SumExp v (m_aPredictionScores ds) k) (m_aPredictionScores ds') (v * k)
             (m_aTargetData ds ! k)
         = ComputeClassificationSingleCaseLogLossMulticlass ext
             (SumExp v (m_aPredictionScores ds) k) (m_aPredictionScores ds) (v * k)
             (m_aTargetData ds ! k)" .
        with nr False show ?thesis by (simp add: CaseMetric_def se tg)
      qed
      from acc' nr False tg cc frame show ?thesis by (simp add: CaseMetric_def)
    qed
  qed
  then have a: "acc' = fadd acc (CaseMetric ext c v ds' j)"
    and f: "\<And>k. k < j \<Longrightarrow> CaseMetric ext c v ds' k = CaseMetric ext c v ds k"
    and r: "m_cCases ds' = m_cCases ds" "m_aTargetData ds' = m_aTargetData ds"
    by simp_all
  from f have "ValidationSum ext c v ds' j = ValidationSum ext c v ds j"
    by (rule ValidationSum_cong)
  with a acc r show ?thesis by (simp add: ValidationSum_Suc)
qed

lemma ValidationCase_zero:
  assumes run: "ValidationCase ext c (replicate n (Finite 0)) v iBin j (ds, acc) = Some (ds', acc')"
    and v: "1 \<le> v"
  shows "ds' = ds \<and> acc' = fadd acc (CaseMetric ext c v ds j)"
proof (cases "IsRegression c")
  case True
  with run obtain x where x: "rd (replicate n (Finite 0)) (iBin * v) = Some x"
    and r: "ValidationCaseRegression x j (ds, acc) = Some (ds', acc')"
    by (auto simp: ValidationCase_def split: Option.bind_splits)
  from rd_replicate [OF x] ValidationCaseRegression_effect [OF r] True show ?thesis
    by (simp add: CaseMetric_def)
next
  case nr: False
  show ?thesis
  proof (cases "IsBinaryClassification c")
    case True
    with run nr obtain x where x: "rd (replicate n (Finite 0)) (iBin * v) = Some x"
      and r: "ValidationCaseBinary ext x j (ds, acc) = Some (ds', acc')"
      by (auto simp: ValidationCase_def split: Option.bind_splits)
    from rd_replicate [OF x] ValidationCaseBinary_effect [OF r] nr True show ?thesis
      by (simp add: CaseMetric_def)
  next
    case False
    with run nr have "ValidationCaseMulticlass ext (replicate n (Finite 0)) (iBin * v) v j (ds, acc)
                        = Some (ds', acc')"
      by (simp add: ValidationCase_def)
    from ValidationCaseMulticlass_effect [OF this v] have
      eq: "ds' = ds\<lparr>m_aPredictionScores := m_aPredictionScores ds'\<rparr>"
      and sl: "length (m_aPredictionScores ds') = length (m_aPredictionScores ds)"
      and blk: "\<And>k. k < v \<Longrightarrow> iBin * v + k < n
                \<and> m_aPredictionScores ds' ! (v * j + k)
                    = fadd (m_aPredictionScores ds ! (v * j + k))
                        (replicate n (Finite 0) ! (iBin * v + k))"
      and out: "\<And>idx. idx < v * j \<or> v * j + v \<le> idx \<Longrightarrow>
             m_aPredictionScores ds' ! idx = m_aPredictionScores ds ! idx"
      and acc': "acc' = fadd acc (ComputeClassificationSingleCaseLogLossMulticlass ext
                            (SumExp v (m_aPredictionScores ds') j) (m_aPredictionScores ds')
                            (v * j) (m_aTargetData ds ! j))"
      by auto
    have sb: "\<And>k. k < v \<Longrightarrow>
        m_aPredictionScores ds' ! (v * j + k) = m_aPredictionScores ds ! (v * j + k)"
      using blk by simp
    have sc: "m_aPredictionScores ds' = m_aPredictionScores ds"
    proof (rule nth_equalityI [OF sl])
      fix idx
      show "m_aPredictionScores ds' ! idx = m_aPredictionScores ds ! idx"
        by (rule block_cases [of idx v j]) (simp_all add: out sb)
    qed
    from eq have "ds' = ds" unfolding sc by simp
    with acc' nr False show ?thesis by (simp add: CaseMetric_def)
  qed
qed


lemma validation_pass_sum:
  assumes run: "ValidationSetTargetFeatureLoop ext c fc vs U K = Some (vs', m)"
    and v: "1 \<le> GET_VECTOR_LENGTH c K"
    and loc: "IsRegression c \<or> IsBinaryClassification c
              \<or> LogLossLocal ext (GET_VECTOR_LENGTH c K) (m_aTargetData vs) (m_cCases vs)"
  shows "m = ValidationMetric c (m_cCases vs)
             (ValidationSum ext c (GET_VECTOR_LENGTH c K) vs' (m_cCases vs))
       \<and> m_cCases vs' = m_cCases vs"
proof -
  define Inv where "Inv = (\<lambda>i (st :: DataSetByFeatureCombination \<times> FractionalDataType).
      i \<le> m_cCases vs \<longrightarrow>
        snd st = ValidationSum ext c (GET_VECTOR_LENGTH c K) (fst st) i
        \<and> m_cCases (fst st) = m_cCases vs \<and> m_aTargetData (fst st) = m_aTargetData vs)"
  have start: "Inv 0 (vs, Finite 0)" by (simp add: Inv_def ValidationSum_def)
  have step: "Inv (Suc j) st'"
    if inv: "Inv j st" and r: "ValidationCase ext c U (GET_VECTOR_LENGTH c K) iBin j st = Some st'"
    for iBin j st st'
    unfolding Inv_def
  proof
    assume j: "Suc j \<le> m_cCases vs"
    obtain ds acc where st: "st = (ds, acc)" by (cases st)
    obtain ds' acc' where st': "st' = (ds', acc')" by (cases st')
    from inv j st have a: "acc = ValidationSum ext c (GET_VECTOR_LENGTH c K) ds j"
      and cc: "m_cCases ds = m_cCases vs" and tg: "m_aTargetData ds = m_aTargetData vs"
      by (simp_all add: Inv_def)
    from j have jn: "j < m_cCases vs" by simp
    from loc tg have loc': "IsRegression c \<or> IsBinaryClassification c
              \<or> LogLossLocal ext (GET_VECTOR_LENGTH c K) (m_aTargetData ds) (m_cCases vs)"
      by simp
    from ValidationCase_sum [OF r [unfolded st st'] v loc' jn a] cc tg
    show "snd st' = ValidationSum ext c (GET_VECTOR_LENGTH c K) (fst st') (Suc j)
        \<and> m_cCases (fst st') = m_cCases vs \<and> m_aTargetData (fst st') = m_aTargetData vs"
      by (simp add: st')
  qed
  from validation_pass_invariant [OF run v, where Inv = Inv, OF start step]
  show ?thesis by (auto simp: Inv_def)
qed

lemma validation_pass_zero:
  assumes run: "ValidationSetTargetFeatureLoop ext c fc vs (replicate n (Finite 0)) K = Some (vs', m)"
    and v: "1 \<le> GET_VECTOR_LENGTH c K"
  shows "vs' = vs
       \<and> m = ValidationMetric c (m_cCases vs)
               (ValidationSum ext c (GET_VECTOR_LENGTH c K) vs (m_cCases vs))"
proof -
  define Inv where "Inv = (\<lambda>i (st :: DataSetByFeatureCombination \<times> FractionalDataType).
      fst st = vs \<and> snd st = ValidationSum ext c (GET_VECTOR_LENGTH c K) vs i)"
  have start: "Inv 0 (vs, Finite 0)" by (simp add: Inv_def ValidationSum_def)
  have step: "Inv (Suc j) st'"
    if inv: "Inv j st"
      and r: "ValidationCase ext c (replicate n (Finite 0)) (GET_VECTOR_LENGTH c K) iBin j st
                = Some st'"
    for iBin j st st'
  proof -
    obtain ds' acc' where st': "st' = (ds', acc')" by (cases st')
    from inv have st: "st = (vs, ValidationSum ext c (GET_VECTOR_LENGTH c K) vs j)"
      by (cases st) (simp add: Inv_def)
    from ValidationCase_zero [OF r [unfolded st st'] v]
    show ?thesis by (simp add: Inv_def st' ValidationSum_Suc)
  qed
  from validation_pass_invariant [OF run v, where Inv = Inv, OF start step]
  show ?thesis by (auto simp: Inv_def)
qed

lemma validation_pass_twice:
  assumes "ValidationSetTargetFeatureLoop ext c fc0 vs0 U K = Some (vs, m0)"
    and "ValidationSetTargetFeatureLoop ext c fc vs (replicate n (Finite 0)) K = Some (vs', m)"
    and "1 \<le> GET_VECTOR_LENGTH c K"
    and "IsRegression c \<or> IsBinaryClassification c
              \<or> LogLossLocal ext (GET_VECTOR_LENGTH c K) (m_aTargetData vs0) (m_cCases vs0)"
  shows "vs' = vs \<and> m = m0"
  using validation_pass_sum [OF assms(1,3,4)] validation_pass_zero [OF assms(2,3)] by simp


lemma flt_irrefl: "\<not> flt x x"
  by (cases x) simp_all

lemma AddExpanded_zero:
  assumes "AddExpanded t (replicate n (Finite 0)) = Some t'"
  shows "t' = t"
proof -
  from assms have len: "length (m_aValues t) \<le> n"
    and t': "t' = t\<lparr>m_aValues := map2 fadd (m_aValues t) (replicate n (Finite 0))\<rparr>"
    by (auto simp: AddExpanded_def split: if_splits)
  have "map2 fadd (m_aValues t) (replicate n (Finite 0)) = m_aValues t"
    using len by (intro nth_equalityI) simp_all
  with t' show ?thesis by simp
qed

lemma PerTargetStates_effect:
  assumes "ApplyModelFeatureCombinationUpdatePerTargetStates ext c s0 j U vmr = Some (s, st, vmr')"
  shows "\<exists>cur t t' fcs fc.
      m_apCurrentModel s0 = Some cur \<and> rd cur j = Some t \<and> AddExpanded t U = Some t'
      \<and> m_apFeatureCombinations s0 = Some fcs \<and> rd fcs j = Some fc
      \<and> m_apCurrentModel s = Some (cur[j := t'])
      \<and> (case m_pTrainingSet s0 of
            None \<Rightarrow> m_pTrainingSet s = None
          | Some ts0 \<Rightarrow>
              (\<exists>ts. TrainingSetTargetFeatureLoop ext c fc ts0 U (m_cTargetStates s0) = Some ts
                 \<and> m_pTrainingSet s = Some ts))
      \<and> (case m_pValidationSet s0 of
            None \<Rightarrow> m_pValidationSet s = None \<and> st = 0 \<and> vmr' = map_option (\<lambda>_. Finite 0) vmr
                    \<and> m_bestModelMetric s = m_bestModelMetric s0
                    \<and> m_apBestModel s = m_apBestModel s0
          | Some vs0 \<Rightarrow>
              (\<exists>vs mm. ValidationSetTargetFeatureLoop ext c fc vs0 U (m_cTargetStates s0)
                          = Some (vs, mm)
                 \<and> m_pValidationSet s = Some vs
                 \<and> \<not> flt mm (m_bestModelMetric s)
                 \<and> (st = 0 \<longrightarrow> vmr' = map_option (\<lambda>_. mm) vmr)
                 \<and> (\<not> flt mm (m_bestModelMetric s0) \<longrightarrow>
                       st = 0 \<and> m_bestModelMetric s = m_bestModelMetric s0
                       \<and> m_apBestModel s = m_apBestModel s0)))
      \<and> s = s0\<lparr>m_apCurrentModel := m_apCurrentModel s, m_pTrainingSet := m_pTrainingSet s,
                m_pValidationSet := m_pValidationSet s,
                m_bestModelMetric := m_bestModelMetric s, m_apBestModel := m_apBestModel s\<rparr>"
proof -
  from assms obtain cur t t' fcs fc pts where
    c: "m_apCurrentModel s0 = Some cur" "rd cur j = Some t" "AddExpanded t U = Some t'"
       "m_apFeatureCombinations s0 = Some fcs" "rd fcs j = Some fc"
    and tr: "(case m_pTrainingSet s0 of
                None \<Rightarrow> Some None
              | Some ts0 \<Rightarrow> map_option Some
                  (TrainingSetTargetFeatureLoop ext c fc ts0 U (m_cTargetStates s0))) = Some pts"
    and va: "(case m_pValidationSet s0 of
        None \<Rightarrow> Some (s0\<lparr>m_apCurrentModel := Some (cur[j := t']), m_pTrainingSet := pts\<rparr>, 0,
                      map_option (\<lambda>_. Finite 0) vmr)
      | Some vs0 \<Rightarrow> do {
          (vs, mm) \<leftarrow> ValidationSetTargetFeatureLoop ext c fc vs0 U (m_cTargetStates s0);
          (if flt mm (m_bestModelMetric s0) then do {
             apBestModel \<leftarrow> m_apBestModel s0;
             (bError, apBestModel') \<leftarrow>
               CopyBestModels ext (cur[j := t']) (m_cFeatureCombinations s0) 0 apBestModel;
             (if bError
              then Some (s0\<lparr>m_apCurrentModel := Some (cur[j := t']), m_pTrainingSet := pts,
                             m_pValidationSet := Some vs, m_bestModelMetric := mm,
                             m_apBestModel := Some apBestModel'\<rparr>, 1,
                         map_option (\<lambda>_. Finite 0) vmr)
              else Some (s0\<lparr>m_apCurrentModel := Some (cur[j := t']), m_pTrainingSet := pts,
                             m_pValidationSet := Some vs, m_bestModelMetric := mm,
                             m_apBestModel := Some apBestModel'\<rparr>, 0,
                         map_option (\<lambda>_. mm) vmr))
           }
           else Some (s0\<lparr>m_apCurrentModel := Some (cur[j := t']), m_pTrainingSet := pts,
                          m_pValidationSet := Some vs\<rparr>, 0, map_option (\<lambda>_. mm) vmr))
        }) = Some (s, st, vmr')"
    unfolding ApplyModelFeatureCombinationUpdatePerTargetStates_def Let_def
      TrainingSetInputFeatureLoop_def ValidationSetInputFeatureLoop_def
    by (auto split: Option.bind_splits)
  from va have fields: "m_apCurrentModel s = Some (cur[j := t'])" "m_pTrainingSet s = pts"
    and rec: "s = s0\<lparr>m_apCurrentModel := m_apCurrentModel s, m_pTrainingSet := m_pTrainingSet s,
                m_pValidationSet := m_pValidationSet s,
                m_bestModelMetric := m_bestModelMetric s, m_apBestModel := m_apBestModel s\<rparr>"
    by (auto split: option.splits Option.bind_splits prod.splits if_splits)
  from tr fields(2) have training: "(case m_pTrainingSet s0 of
            None \<Rightarrow> m_pTrainingSet s = None
          | Some ts0 \<Rightarrow>
              (\<exists>ts. TrainingSetTargetFeatureLoop ext c fc ts0 U (m_cTargetStates s0) = Some ts
                 \<and> m_pTrainingSet s = Some ts))"
    by (auto split: option.splits)
  from va have validation: "(case m_pValidationSet s0 of
            None \<Rightarrow> m_pValidationSet s = None \<and> st = 0 \<and> vmr' = map_option (\<lambda>_. Finite 0) vmr
                    \<and> m_bestModelMetric s = m_bestModelMetric s0
                    \<and> m_apBestModel s = m_apBestModel s0
          | Some vs0 \<Rightarrow>
              (\<exists>vs mm. ValidationSetTargetFeatureLoop ext c fc vs0 U (m_cTargetStates s0)
                          = Some (vs, mm)
                 \<and> m_pValidationSet s = Some vs
                 \<and> \<not> flt mm (m_bestModelMetric s)
                 \<and> (st = 0 \<longrightarrow> vmr' = map_option (\<lambda>_. mm) vmr)
                 \<and> (\<not> flt mm (m_bestModelMetric s0) \<longrightarrow>
                       st = 0 \<and> m_bestModelMetric s = m_bestModelMetric s0
                       \<and> m_apBestModel s = m_apBestModel s0)))"
    by (auto simp: flt_irrefl split: option.splits Option.bind_splits prod.splits if_splits)
  from c fields(1) training validation rec show ?thesis by blast
qed


lemma PerTargetStates_zero_after:
  assumes prev: "ApplyModelFeatureCombinationUpdatePerTargetStates ext c s0 j0 U0 vmr0
                   = Some (s, st0, vmr1)"
    and zero: "ApplyModelFeatureCombinationUpdatePerTargetStates ext c s j
                 (replicate n (Finite 0)) vmr = Some (s', st, vmr')"
    and v: "1 \<le> GET_VECTOR_LENGTH c (m_cTargetStates s0)"
    and z: "IsRegression c \<or> IsBinaryClassification c
            \<or> k_iZeroResidual ext < int (GET_VECTOR_LENGTH c (m_cTargetStates s0))"
    and loc: "IsRegression c \<or> IsBinaryClassification c
            \<or> (\<forall>vs0. m_pValidationSet s0 = Some vs0 \<longrightarrow>
                  LogLossLocal ext (GET_VECTOR_LENGTH c (m_cTargetStates s0))
                    (m_aTargetData vs0) (m_cCases vs0))"
  shows "s' = s \<and> st = 0
       \<and> (st0 = 0 \<longrightarrow> (\<exists>mm. vmr1 = map_option (\<lambda>_. mm) vmr0 \<and> vmr' = map_option (\<lambda>_. mm) vmr))"
proof -
  from PerTargetStates_effect [OF prev] obtain cur0 t0 t0' fcs0 fc0 where
    p_tr: "(case m_pTrainingSet s0 of
            None \<Rightarrow> m_pTrainingSet s = None
          | Some ts0 \<Rightarrow>
              (\<exists>ts. TrainingSetTargetFeatureLoop ext c fc0 ts0 U0 (m_cTargetStates s0) = Some ts
                 \<and> m_pTrainingSet s = Some ts))"
    and p_va: "(case m_pValidationSet s0 of
            None \<Rightarrow> m_pValidationSet s = None \<and> st0 = 0 \<and> vmr1 = map_option (\<lambda>_. Finite 0) vmr0
                    \<and> m_bestModelMetric s = m_bestModelMetric s0
                    \<and> m_apBestModel s = m_apBestModel s0
          | Some vs0 \<Rightarrow>
              (\<exists>vs mm. ValidationSetTargetFeatureLoop ext c fc0 vs0 U0 (m_cTargetStates s0)
                          = Some (vs, mm)
                 \<and> m_pValidationSet s = Some vs
                 \<and> \<not> flt mm (m_bestModelMetric s)
                 \<and> (st0 = 0 \<longrightarrow> vmr1 = map_option (\<lambda>_. mm) vmr0)
                 \<and> (\<not> flt mm (m_bestModelMetric s0) \<longrightarrow>
                       st0 = 0 \<and> m_bestModelMetric s = m_bestModelMetric s0
                       \<and> m_apBestModel s = m_apBestModel s0)))"
    and p_rec: "s = s0\<lparr>m_apCurrentModel := m_apCurrentModel s, m_pTrainingSet := m_pTrainingSet s,
                m_pValidationSet := m_pValidationSet s,
                m_bestModelMetric := m_bestModelMetric s, m_apBestModel := m_apBestModel s\<rparr>"
    by blast
  from p_rec have K: "m_cTargetStates s = m_cTargetStates s0"
    by (auto dest: arg_cong [where f = m_cTargetStates])
  from PerTargetStates_effect [OF zero] obtain cur t t' fcs fc where
    q_cur: "m_apCurrentModel s = Some cur" "rd cur j = Some t"
       "AddExpanded t (replicate n (Finite 0)) = Some t'"
       "m_apCurrentModel s' = Some (cur[j := t'])"
    and q_tr: "(case m_pTrainingSet s of
            None \<Rightarrow> m_pTrainingSet s' = None
          | Some ts0 \<Rightarrow>
              (\<exists>ts. TrainingSetTargetFeatureLoop ext c fc ts0 (replicate n (Finite 0))
                       (m_cTargetStates s0) = Some ts
                 \<and> m_pTrainingSet s' = Some ts))"
    and q_va: "(case m_pValidationSet s of
            None \<Rightarrow> m_pValidationSet s' = None \<and> st = 0 \<and> vmr' = map_option (\<lambda>_. Finite 0) vmr
                    \<and> m_bestModelMetric s' = m_bestModelMetric s
                    \<and> m_apBestModel s' = m_apBestModel s
          | Some vs0 \<Rightarrow>
              (\<exists>vs mm. ValidationSetTargetFeatureLoop ext c fc vs0 (replicate n (Finite 0))
                          (m_cTargetStates s0) = Some (vs, mm)
                 \<and> m_pValidationSet s' = Some vs
                 \<and> \<not> flt mm (m_bestModelMetric s')
                 \<and> (st = 0 \<longrightarrow> vmr' = map_option (\<lambda>_. mm) vmr)
                 \<and> (\<not> flt mm (m_bestModelMetric s) \<longrightarrow>
                       st = 0 \<and> m_bestModelMetric s' = m_bestModelMetric s
                       \<and> m_apBestModel s' = m_apBestModel s)))"
    and q_rec: "s' = s\<lparr>m_apCurrentModel := m_apCurrentModel s', m_pTrainingSet := m_pTrainingSet s',
                m_pValidationSet := m_pValidationSet s',
                m_bestModelMetric := m_bestModelMetric s', m_apBestModel := m_apBestModel s'\<rparr>"
    unfolding K by blast
  have cur: "m_apCurrentModel s' = m_apCurrentModel s"
  proof -
    from q_cur(2) have "t = cur ! j" by (simp add: rd_def split: if_splits)
    with AddExpanded_zero [OF q_cur(3)] have "cur[j := t'] = cur" by simp
    with q_cur(1,4) show ?thesis by simp
  qed
  have tr: "m_pTrainingSet s' = m_pTrainingSet s"
  proof (cases "m_pTrainingSet s0")
    case None
    with p_tr have "m_pTrainingSet s = None" by simp
    with q_tr show ?thesis by simp
  next
    case (Some ts0)
    with p_tr obtain ts where
      a: "TrainingSetTargetFeatureLoop ext c fc0 ts0 U0 (m_cTargetStates s0) = Some ts"
      and ts: "m_pTrainingSet s = Some ts" by auto
    with q_tr obtain ts' where
      b: "TrainingSetTargetFeatureLoop ext c fc ts (replicate n (Finite 0)) (m_cTargetStates s0)
            = Some ts'"
      and ts': "m_pTrainingSet s' = Some ts'" by auto
    from training_pass_twice [OF a b v z] ts ts' show ?thesis by simp
  qed
  have va: "m_pValidationSet s' = m_pValidationSet s \<and> st = 0
       \<and> m_bestModelMetric s' = m_bestModelMetric s \<and> m_apBestModel s' = m_apBestModel s
       \<and> (st0 = 0 \<longrightarrow> (\<exists>mm. vmr1 = map_option (\<lambda>_. mm) vmr0 \<and> vmr' = map_option (\<lambda>_. mm) vmr))"
  proof (cases "m_pValidationSet s0")
    case None
    with p_va have n: "m_pValidationSet s = None" and r: "vmr1 = map_option (\<lambda>_. Finite 0) vmr0"
      by simp_all
    with q_va show ?thesis by auto
  next
    case (Some vs0)
    with p_va obtain vs mm where
      a: "ValidationSetTargetFeatureLoop ext c fc0 vs0 U0 (m_cTargetStates s0) = Some (vs, mm)"
      and vs: "m_pValidationSet s = Some vs"
      and nf: "\<not> flt mm (m_bestModelMetric s)"
      and r: "st0 = 0 \<longrightarrow> vmr1 = map_option (\<lambda>_. mm) vmr0"
      by auto
    with q_va obtain vs' mm' where
      b: "ValidationSetTargetFeatureLoop ext c fc vs (replicate n (Finite 0)) (m_cTargetStates s0)
            = Some (vs', mm')"
      and vs': "m_pValidationSet s' = Some vs'"
      and r': "st = 0 \<longrightarrow> vmr' = map_option (\<lambda>_. mm') vmr"
      and keep: "\<not> flt mm' (m_bestModelMetric s) \<longrightarrow>
                       st = 0 \<and> m_bestModelMetric s' = m_bestModelMetric s
                       \<and> m_apBestModel s' = m_apBestModel s"
      by auto
    from loc Some have loc': "IsRegression c \<or> IsBinaryClassification c
        \<or> LogLossLocal ext (GET_VECTOR_LENGTH c (m_cTargetStates s0))
             (m_aTargetData vs0) (m_cCases vs0)" by simp
    from validation_pass_twice [OF a b v loc'] have e: "vs' = vs" "mm' = mm" by simp_all
    with vs vs' nf r r' keep show ?thesis by auto
  qed
  from q_rec cur tr va have "s' = s" by simp
  with va show ?thesis by simp
qed


lemma CompiledTargetStates_vector_length:
  assumes "m_bRegression s \<or> 2 \<le> m_cTargetStates s"
  shows "1 \<le> GET_VECTOR_LENGTH (CompiledTargetStates ext s) (m_cTargetStates s)"
    and "IsRegression (CompiledTargetStates ext s) \<or> IsBinaryClassification (CompiledTargetStates ext s)
         \<or> (\<not> m_bRegression s
             \<and> GET_VECTOR_LENGTH (CompiledTargetStates ext s) (m_cTargetStates s) = m_cTargetStates s)"
  using assms
  by (auto simp: CompiledTargetStates_def GET_VECTOR_LENGTH_def GetVectorLengthFlatCore_def
        IsRegression_def IsBinaryClassification_def k_Regression_def k_DynamicClassification_def)


lemma map_option_bind: "map_option f x = Option.bind x (\<lambda>y. Some (f y))"
  by (cases x) simp_all

lemma ValidationSetTargetFeatureLoop_packed_eq:
  assumes "0 < m_cFeatures fc"
  shows "ValidationSetTargetFeatureLoop ext c fc vs U K = do {
           cBitsPerItemMax \<leftarrow> GetCountBits (m_cItemsPerBitPackDataUnit fc);
           maskBits \<leftarrow> GetMaskBits cBitsPerItemMax;
           pInputData \<leftarrow> GetDataPointer vs fc;
           st \<leftarrow> BitPackedLoop (ValidationCase ext c U (GET_VECTOR_LENGTH c K))
                  (m_cItemsPerBitPackDataUnit fc) cBitsPerItemMax maskBits pInputData
                  (GET_VECTOR_LENGTH c K) (m_cCases vs) 0 0 (vs, Finite 0);
           Some (fst st, ValidationMetric c (m_cCases vs) (snd st))
         }"
proof (cases "IsRegression c")
  case True
  have "ValidationCase ext c U (GET_VECTOR_LENGTH c K)
      = (\<lambda>iBin iCase st. do {
           smallChangeToPrediction \<leftarrow> rd U (iBin * GET_VECTOR_LENGTH c K);
           ValidationCaseRegression smallChangeToPrediction iCase st
         })"
    using True by (intro ext) (simp add: ValidationCase_def)
  with assms True show ?thesis
    by (simp add: ValidationSetTargetFeatureLoop_def Let_def ValidationMetric_def
          split_def)
next
  case False
  have "ValidationCase ext c U (GET_VECTOR_LENGTH c K)
      = (\<lambda>iBin iCase st.
           if IsBinaryClassification c then do {
             smallChangeToPredictionScores \<leftarrow> rd U (iBin * GET_VECTOR_LENGTH c K);
             ValidationCaseBinary ext smallChangeToPredictionScores iCase st
           }
           else ValidationCaseMulticlass ext U (iBin * GET_VECTOR_LENGTH c K)
                  (GET_VECTOR_LENGTH c K) iCase st)"
    using False by (intro ext) (simp add: ValidationCase_def)
  with assms False show ?thesis
    by (simp add: ValidationSetTargetFeatureLoop_def Let_def ValidationMetric_def)
qed





lemma example_multiclass_local:
  "LogLossLocal example_Externals_zeroing 3 [1] 1"
  unfolding LogLossLocal_def
proof (intro allI impI)
  fix iCase sumExp and aScores aScores' :: "FractionalDataType list"
  assume i: "iCase < 1" and l: "length aScores = length aScores'"
    and a: "\<forall>iVector<3. aScores ! (3 * iCase + iVector) = aScores' ! (3 * iCase + iVector)"
  have "(1::nat) < 3" by simp
  with a have "aScores ! (3 * iCase + 1) = aScores' ! (3 * iCase + 1)" by blast
  with i l show "ComputeClassificationSingleCaseLogLossMulticlass example_Externals_zeroing sumExp
         aScores (3 * iCase) ([1] ! iCase)
     = ComputeClassificationSingleCaseLogLossMulticlass example_Externals_zeroing sumExp
         aScores' (3 * iCase) ([1] ! iCase)"
    by (simp add: example_Externals_zeroing_def example_Externals_def rd_def)
qed







text \<open>After a call, a call with an update of zeros returns the metric of that call.\<close>

lemma metric_of_last_call:
  assumes prev: "ApplyModelFeatureCombinationUpdate ext s0 i0 (Some U0) (Some r0)
                   = Some (s, st0, Some m0)"
    and zero: "ApplyModelFeatureCombinationUpdate ext s i (Some (replicate n (Finite 0))) (Some r)
                 = Some (s', st, Some m)"
    and z: "m_bRegression s0 \<or> k_iZeroResidual ext < int (m_cTargetStates s0)"
    and loc: "m_bRegression s0
            \<or> (\<forall>vs0. m_pValidationSet s0 = Some vs0 \<longrightarrow>
                  LogLossLocal ext (m_cTargetStates s0) (m_aTargetData vs0) (m_cCases vs0))"
  shows "s' = s \<and> st = 0 \<and> (st0 = 0 \<longrightarrow> m = m0)"
proof (cases "m_bRegression s0 \<or> 2 \<le> m_cTargetStates s0")
  case False
  with prev have "s = s0" "st0 = 0" "m0 = Finite 0"
    by (simp_all add: ApplyModelFeatureCombinationUpdate_def)
  with False zero show ?thesis
    by (simp add: ApplyModelFeatureCombinationUpdate_def)
next
  case True
  define c where "c = CompiledTargetStates ext s0"
  from prev have p: "ApplyModelFeatureCombinationUpdatePerTargetStates ext c s0
                       (size_t_of_IntegerDataType i0) U0 (Some r0) = Some (s, st0, Some m0)"
    unfolding ApplyModelFeatureCombinationUpdate_dispatch [OF True] c_def .
  from PerTargetStates_effect [OF p] have
    "s = s0\<lparr>m_apCurrentModel := m_apCurrentModel s, m_pTrainingSet := m_pTrainingSet s,
                m_pValidationSet := m_pValidationSet s,
                m_bestModelMetric := m_bestModelMetric s, m_apBestModel := m_apBestModel s\<rparr>"
    by blast
  then have same: "m_bRegression s = m_bRegression s0" "m_cTargetStates s = m_cTargetStates s0"
    by (auto dest: arg_cong [where f = m_bRegression] arg_cong [where f = m_cTargetStates])
  then have c': "CompiledTargetStates ext s = c" by (simp add: CompiledTargetStates_def c_def)
  from True same have "m_bRegression s \<or> 2 \<le> m_cTargetStates s" by simp
  from zero [unfolded ApplyModelFeatureCombinationUpdate_dispatch [OF this] c']
  have q: "ApplyModelFeatureCombinationUpdatePerTargetStates ext c s
             (size_t_of_IntegerDataType i) (replicate n (Finite 0)) (Some r) = Some (s', st, Some m)" .
  note vl = CompiledTargetStates_vector_length [OF True, of ext, folded c_def]
  from vl(2) z have z': "IsRegression c \<or> IsBinaryClassification c
            \<or> k_iZeroResidual ext < int (GET_VECTOR_LENGTH c (m_cTargetStates s0))"
    by auto
  from vl(2) loc have loc': "IsRegression c \<or> IsBinaryClassification c
            \<or> (\<forall>vs0. m_pValidationSet s0 = Some vs0 \<longrightarrow>
                  LogLossLocal ext (GET_VECTOR_LENGTH c (m_cTargetStates s0))
                    (m_aTargetData vs0) (m_cCases vs0))"
    by auto
  from PerTargetStates_zero_after [OF p q vl(1) z' loc'] show ?thesis by auto
qed

section \<open>The claims\<close>

text \<open>
  C3.  A classification with at most one target state is degenerate and is not an error:
  \<open>GenerateModelFeatureCombinationUpdate\<close> returns the null pointer and writes the gain 0,
  \<open>ApplyModelFeatureCombinationUpdate\<close> and \<open>TrainingStep\<close> return the status 0 and write the
  metric 0.  Each writes through its pointer when that is not null, and leaves the state as
  it is.
\<close>

theorem degenerate_classification:
  assumes "\<not> m_bRegression s" and "m_cTargetStates s \<le> 1"
  shows "GenerateModelFeatureCombinationUpdate ext s i learningRate cSplits cMin gainReturn
           = Some (s, None, map_option (\<lambda>_. Finite 0) gainReturn)
       \<and> ApplyModelFeatureCombinationUpdate ext s i U vmr
           = Some (s, 0, map_option (\<lambda>_. Finite 0) vmr)
       \<and> TrainingStep ext s i learningRate cSplits cMin vmr
           = Some (s, 0, map_option (\<lambda>_. Finite 0) vmr)"
  using assms
  by (simp add: GenerateModelFeatureCombinationUpdate_def ApplyModelFeatureCombinationUpdate_def
        TrainingStep_def split: option.splits)

theorem degenerate_classification_witness:
  "GenerateModelFeatureCombinationUpdate example_Externals
       (example_state\<lparr>m_bRegression := False, m_cTargetStates := 1\<rparr>) 0 (Finite 1) 2 2
       (Some (Finite 5))
     = Some (example_state\<lparr>m_bRegression := False, m_cTargetStates := 1\<rparr>, None,
             Some (Finite 0))
   \<and> ApplyModelFeatureCombinationUpdate example_Externals
       (example_state\<lparr>m_bRegression := False, m_cTargetStates := 1\<rparr>) 0 (Some [Finite 1])
       (Some (Finite 5))
     = Some (example_state\<lparr>m_bRegression := False, m_cTargetStates := 1\<rparr>, 0, Some (Finite 0))
   \<and> TrainingStep example_Externals
       (example_state\<lparr>m_bRegression := False, m_cTargetStates := 1\<rparr>) 0 (Finite 1) 2 2
       (Some (Finite 5))
     = Some (example_state\<lparr>m_bRegression := False, m_cTargetStates := 1\<rparr>, 0, Some (Finite 0))"
  using degenerate_classification
          [of "example_state\<lparr>m_bRegression := False, m_cTargetStates := 1\<rparr>"
              example_Externals 0 "Finite 1" 2 2 "Some (Finite 5)" "Some [Finite 1]"
              "Some (Finite 5)"]
  by simp

text \<open>
  C5.  A call of \<open>ApplyModelFeatureCombinationUpdate\<close> on a training state without a
  validation set returns the status 0 and the metric 0, and modifies neither the best
  metric nor any tensor of the best model.
\<close>

theorem apply_without_validation_set:
  assumes "m_pValidationSet s = None"
    and "ApplyModelFeatureCombinationUpdate ext s i U vmr = Some (s', ret, vmr')"
  shows "ret = 0 \<and> vmr' = map_option (\<lambda>_. Finite 0) vmr
         \<and> m_bestModelMetric s' = m_bestModelMetric s \<and> m_apBestModel s' = m_apBestModel s"
proof -
  from ApplyModelFeatureCombinationUpdate_cases [of ext s i U vmr]
  show ?thesis
  proof
    assume "ApplyModelFeatureCombinationUpdate ext s i U vmr
              = Some (s, 0, map_option (\<lambda>_. Finite 0) vmr)"
    with assms(2) show ?thesis by simp
  next
    assume "\<exists>c aU. U = Some aU
         \<and> ApplyModelFeatureCombinationUpdate ext s i U vmr
           = ApplyModelFeatureCombinationUpdatePerTargetStates ext c s
               (size_t_of_IntegerDataType i) aU vmr"
    then obtain c aU where
      "ApplyModelFeatureCombinationUpdatePerTargetStates ext c s
               (size_t_of_IntegerDataType i) aU vmr = Some (s', ret, vmr')"
      using assms(2) by auto
    with assms(1) show ?thesis by (rule PerTargetStates_no_validation)
  qed
qed

theorem apply_without_validation_set_witness:
  "m_pValidationSet (example_state\<lparr>m_pValidationSet := None\<rparr>) = None
   \<and> ApplyModelFeatureCombinationUpdate example_Externals
        (example_state\<lparr>m_pValidationSet := None\<rparr>) 0 (Some [Finite 2]) (Some NaN)
      = Some (example_state\<lparr>m_pValidationSet := None,
                m_apCurrentModel := Some [example_tensor [Finite 2]],
                m_pTrainingSet :=
                  Some (example_data [Finite (- 1), Finite 1, Finite 3, Finite 5])\<rparr>,
              0, Some (Finite 0))
   \<and> m_bestModelMetric (example_state\<lparr>m_pValidationSet := None,
                m_apCurrentModel := Some [example_tensor [Finite 2]],
                m_pTrainingSet :=
                  Some (example_data [Finite (- 1), Finite 1, Finite 3, Finite 5])\<rparr>) = PosInf"
proof -
  have e: "ApplyModelFeatureCombinationUpdate example_Externals
        (example_state\<lparr>m_pValidationSet := None\<rparr>) 0 (Some [Finite 2]) (Some NaN)
      = Some (example_state\<lparr>m_pValidationSet := None,
                m_apCurrentModel := Some [example_tensor [Finite 2]],
                m_pTrainingSet :=
                  Some (example_data [Finite (- 1), Finite 1, Finite 3, Finite 5])\<rparr>,
              0, Some (Finite 0))"
    by (simp add: apply_defs example_defs upt_4)
  have n: "m_pValidationSet (example_state\<lparr>m_pValidationSet := None\<rparr>) = None" by simp
  from apply_without_validation_set [OF n e] n e show ?thesis
    by (simp add: example_state_def)
qed

text \<open>
  C6.  The constructor of the training state sets the best metric to positive infinity, and
  along every sequence of calls of \<open>ApplyModelFeatureCombinationUpdate\<close> on a training state
  that starts with that best metric, the best metric never increases: the best metric after
  a call is less than or equal to the best metric before it.
\<close>

theorem best_metric_nonincreasing:
  "m_bestModelMetric
     (EbmTrainingState_new bRegression cTargetStates cFeatures cFeatureCombinations cSamplingSets
        allocatedFeatureCombinations allocatedOverwrite allocatedAccumulated allocatedFeatures)
     = PosInf
   \<and> nonincreasing
       (map m_bestModelMetric (ApplyCalls ext (s\<lparr>m_bestModelMetric := PosInf\<rparr>) calls))"
proof
  show "m_bestModelMetric
     (EbmTrainingState_new bRegression cTargetStates cFeatures cFeatureCombinations cSamplingSets
        allocatedFeatureCombinations allocatedOverwrite allocatedAccumulated allocatedFeatures)
     = PosInf"
    by (simp add: EbmTrainingState_new_def)
next
  have "m_bestModelMetric (s\<lparr>m_bestModelMetric := PosInf\<rparr>) \<noteq> NaN" by simp
  then show "nonincreasing
       (map m_bestModelMetric (ApplyCalls ext (s\<lparr>m_bestModelMetric := PosInf\<rparr>) calls))"
    by (rule ApplyCalls_nonincreasing)
qed

text \<open>
  C10.  \<open>ApplyModelFeatureCombinationUpdate\<close> with the null pointer for the update returns
  the status 0, writes 0 through \<open>validationMetricReturn\<close> when that is not null, and leaves
  the state as it is.
\<close>

theorem apply_null_update:
  "ApplyModelFeatureCombinationUpdate ext s i None vmr
     = Some (s, 0, map_option (\<lambda>_. Finite 0) vmr)"
  by (simp add: ApplyModelFeatureCombinationUpdate_def)

theorem apply_null_update_witness:
  "ApplyModelFeatureCombinationUpdate example_Externals example_state 0 None (Some (Finite 7))
     = Some (example_state, 0, Some (Finite 0))
   \<and> ApplyModelFeatureCombinationUpdate example_Externals example_state 0 None None
     = Some (example_state, 0, None)"
  using apply_null_update [of example_Externals example_state 0 "Some (Finite 7)"]
        apply_null_update [of example_Externals example_state 0 None]
  by simp

text \<open>
  C1.  As stated the claim fails: when a copy of the commit loop reports a failure, the
  best metric is the new metric already, but the best model is not the current model.
\<close>

theorem best_model_commit_counterexample:
  "m_pValidationSet example_state = Some (example_data [Finite 2])
   \<and> ValidationSetInputFeatureLoop example_Externals_failing_copy k_Regression example_intercept
        (example_data [Finite 2]) [Finite 2] 0
      = Some (example_data [Finite 0], Finite 0)
   \<and> flt (Finite 0) (m_bestModelMetric example_state)
   \<and> ApplyModelFeatureCombinationUpdate example_Externals_failing_copy example_state 0
        (Some [Finite 2]) (Some NaN)
      = Some (example_state\<lparr>
                m_apCurrentModel := Some [example_tensor [Finite 2]],
                m_pTrainingSet :=
                  Some (example_data [Finite (- 1), Finite 1, Finite 3, Finite 5]),
                m_pValidationSet := Some (example_data [Finite 0]),
                m_bestModelMetric := Finite 0,
                m_apBestModel := Some [example_tensor [Finite 0]]\<rparr>,
              1, Some (Finite 0))
   \<and> example_tensor [Finite 0] \<noteq> example_tensor [Finite 2]"
  by (simp add: apply_defs example_defs upt_4 CopyBestModels.simps example_Externals_def
        example_Externals_failing_copy_def Let_def)

text \<open>
  C1, amended.  Let a call of \<open>ApplyModelFeatureCombinationUpdate\<close> on a state with a
  validation set get an update (not the null pointer, and not a degenerate classification),
  and let \<open>m\<close> be the metric that the validation-set pass computes.  If \<open>m\<close> is less than the
  best metric, the best metric is set to \<open>m\<close>, and either no copy fails, the status is 0 and
  for every feature combination \<open>j\<close> the best model \<open>j\<close> is what \<open>Copy\<close> made of the current
  model \<open>j\<close>, or a copy fails, the status is 1 and the metric written is 0.  If \<open>m\<close> is greater
  than or equal to the best metric, or \<open>NaN\<close>, neither the best metric nor the best model is
  modified.
\<close>

theorem best_model_commit:
  assumes "m_bRegression s \<or> 2 \<le> m_cTargetStates s"
    and "m_pValidationSet s = Some vs"
    and "m_apFeatureCombinations s = Some fcs"
    and "rd fcs (size_t_of_IntegerDataType i) = Some fc"
    and "ValidationSetInputFeatureLoop ext (CompiledTargetStates ext s) fc vs U
           (m_cTargetStates s) = Some (vs', m)"
    and "ApplyModelFeatureCombinationUpdate ext s i (Some U) vmr = Some (s', ret, vmr')"
  shows "(flt m (m_bestModelMetric s) \<longrightarrow>
            m_bestModelMetric s' = m
            \<and> (\<exists>cur' bestl bestl'.
                  m_apCurrentModel s' = Some cur' \<and> m_apBestModel s = Some bestl
                  \<and> m_apBestModel s' = Some bestl'
                  \<and> (ret = 0 \<and> vmr' = map_option (\<lambda>_. m) vmr
                       \<and> (\<forall>j<m_cFeatureCombinations s.
                             \<not> fst (Copy ext (bestl ! j) (cur' ! j))
                             \<and> bestl' ! j = snd (Copy ext (bestl ! j) (cur' ! j)))
                     \<or> ret = 1 \<and> vmr' = map_option (\<lambda>_. Finite 0) vmr
                       \<and> (\<exists>j. fst (Copy ext (bestl ! j) (cur' ! j))))))
       \<and> (fle (m_bestModelMetric s) m \<or> m = NaN \<longrightarrow>
            ret = 0 \<and> vmr' = map_option (\<lambda>_. m) vmr
            \<and> m_bestModelMetric s' = m_bestModelMetric s
            \<and> m_apBestModel s' = m_apBestModel s)"
proof -
  from assms(1,6) have a:
    "ApplyModelFeatureCombinationUpdatePerTargetStates ext (CompiledTargetStates ext s) s
       (size_t_of_IntegerDataType i) U vmr = Some (s', ret, vmr')"
    by (simp add: ApplyModelFeatureCombinationUpdate_dispatch)
  note v = Apply_PerTargetStates_validation [OF assms(2,3,4,5) a]
  show ?thesis
  proof (intro conjI impI)
    assume lt: "flt m (m_bestModelMetric s)"
    with v show "m_bestModelMetric s' = m" by simp
    from v lt obtain cur' bestl err bestl' where c:
      "m_apCurrentModel s' = Some cur'" "m_apBestModel s = Some bestl"
      "CopyBestModels ext cur' (m_cFeatureCombinations s) 0 bestl = Some (err, bestl')"
      "m_apBestModel s' = Some bestl'"
      "ret = (if err then 1 else 0)"
      "vmr' = map_option (\<lambda>_. if err then Finite 0 else m) vmr"
      by blast
    show "\<exists>cur' bestl bestl'.
                  m_apCurrentModel s' = Some cur' \<and> m_apBestModel s = Some bestl
                  \<and> m_apBestModel s' = Some bestl'
                  \<and> (ret = 0 \<and> vmr' = map_option (\<lambda>_. m) vmr
                       \<and> (\<forall>j<m_cFeatureCombinations s.
                             \<not> fst (Copy ext (bestl ! j) (cur' ! j))
                             \<and> bestl' ! j = snd (Copy ext (bestl ! j) (cur' ! j)))
                     \<or> ret = 1 \<and> vmr' = map_option (\<lambda>_. Finite 0) vmr
                       \<and> (\<exists>j. fst (Copy ext (bestl ! j) (cur' ! j))))"
    proof (cases err)
      case True
      with c(3) have "\<exists>j\<ge>0. fst (Copy ext (bestl ! j) (cur' ! j))"
        by (auto dest: CopyBestModels_failed)
      with True c show ?thesis by auto
    next
      case False
      with CopyBestModels_Some [OF c(3)]
      have "\<forall>j<m_cFeatureCombinations s.
               \<not> fst (Copy ext (bestl ! j) (cur' ! j))
               \<and> bestl' ! j = snd (Copy ext (bestl ! j) (cur' ! j))"
        by simp
      with False c show ?thesis by auto
    qed
  next
    assume "fle (m_bestModelMetric s) m \<or> m = NaN"
    then have n: "\<not> flt m (m_bestModelMetric s)" by (rule fle_not_flt)
    with v show "ret = 0" "vmr' = map_option (\<lambda>_. m) vmr"
      "m_bestModelMetric s' = m_bestModelMetric s" "m_apBestModel s' = m_apBestModel s"
      by simp_all
  qed
qed

theorem best_model_commit_witness:
  "flt (Finite 0) (m_bestModelMetric example_state)
   \<and> ApplyModelFeatureCombinationUpdate example_Externals example_state 0
        (Some [Finite 2]) (Some NaN)
      = Some (example_state\<lparr>
                m_apCurrentModel := Some [example_tensor [Finite 2]],
                m_pTrainingSet :=
                  Some (example_data [Finite (- 1), Finite 1, Finite 3, Finite 5]),
                m_pValidationSet := Some (example_data [Finite 0]),
                m_bestModelMetric := Finite 0,
                m_apBestModel := Some [example_tensor [Finite 2]]\<rparr>,
              0, Some (Finite 0))
   \<and> fle (Finite 0) (Finite 1)
   \<and> ApplyModelFeatureCombinationUpdate example_Externals
        (example_state\<lparr>m_bestModelMetric := Finite 0\<rparr>) 0 (Some [Finite 1]) (Some NaN)
      = Some (example_state\<lparr>
                m_bestModelMetric := Finite 0,
                m_apCurrentModel := Some [example_tensor [Finite 1]],
                m_pTrainingSet :=
                  Some (example_data [Finite 0, Finite 2, Finite 4, Finite 6]),
                m_pValidationSet := Some (example_data [Finite 1])\<rparr>,
              0, Some (Finite 1))"
proof -
  have r: "m_bRegression example_state \<or> 2 \<le> m_cTargetStates example_state"
    by (simp add: example_state_def)
  have vs: "m_pValidationSet example_state = Some (example_data [Finite 2])"
    by (simp add: example_state_def)
  have fcs: "m_apFeatureCombinations example_state = Some [example_intercept]"
    by (simp add: example_state_def)
  have fc: "rd [example_intercept] (size_t_of_IntegerDataType 0) = Some example_intercept"
    by (simp add: rd_def size_t_of_IntegerDataType_def)
  have c: "CompiledTargetStates example_Externals example_state = k_Regression"
    by (simp add: CompiledTargetStates_def example_state_def)
  have v: "ValidationSetInputFeatureLoop example_Externals
             (CompiledTargetStates example_Externals example_state) example_intercept
             (example_data [Finite 2]) [Finite 2] (m_cTargetStates example_state)
           = Some (example_data [Finite 0], Finite 0)"
    unfolding c by (simp add: validation_defs example_defs Let_def)
  have a: "ApplyModelFeatureCombinationUpdate example_Externals example_state 0
        (Some [Finite 2]) (Some NaN)
      = Some (example_state\<lparr>
                m_apCurrentModel := Some [example_tensor [Finite 2]],
                m_pTrainingSet :=
                  Some (example_data [Finite (- 1), Finite 1, Finite 3, Finite 5]),
                m_pValidationSet := Some (example_data [Finite 0]),
                m_bestModelMetric := Finite 0,
                m_apBestModel := Some [example_tensor [Finite 2]]\<rparr>,
              0, Some (Finite 0))"
    by (simp add: apply_defs example_defs upt_4 CopyBestModels.simps example_Externals_def Let_def)
  have b: "ApplyModelFeatureCombinationUpdate example_Externals
        (example_state\<lparr>m_bestModelMetric := Finite 0\<rparr>) 0 (Some [Finite 1]) (Some NaN)
      = Some (example_state\<lparr>
                m_bestModelMetric := Finite 0,
                m_apCurrentModel := Some [example_tensor [Finite 1]],
                m_pTrainingSet :=
                  Some (example_data [Finite 0, Finite 2, Finite 4, Finite 6]),
                m_pValidationSet := Some (example_data [Finite 1])\<rparr>,
              0, Some (Finite 1))"
    by (simp add: apply_defs example_defs upt_4 Let_def)
  from best_model_commit [OF r vs fcs fc v a] a b show ?thesis
    by (simp add: example_state_def fle_def)
qed


text \<open>
  C4.  Let \<open>GenerateModelFeatureCombinationUpdate\<close> return a tensor for a state that has
  sampling sets, and let $S$ be the number of sampling sets, 1 when the state says 0.  The
  tensor that the loop over the sampling sets accumulated is multiplied by the learning
  rate over $2 S$ when the state is a binary classification and \<open>EXPAND_BINARY_LOGITS\<close> is
  defined, and by the learning rate over $S$ in every other case.  \<open>Multiply\<close> multiplies each
  value of the tensor by that factor.  The product, expanded when the feature combination
  has features, holds the values that are returned.  The template must have its instance
  for two target states: \<open>k_cCompilerOptimizedTargetStatesMax\<close> is 2 at least.
\<close>

theorem update_scaling:
  assumes "2 \<le> k_cCompilerOptimizedTargetStatesMax ext"
    and "m_apSamplingSets s = Some apSamplingSets"
    and "GenerateModelFeatureCombinationUpdate ext s i learningRate nSplits nMin g
           = Some (s', Some values, g')"
  shows "\<exists>fcs fc over0 acc0 over acc G acc'.
           m_apFeatureCombinations s = Some fcs
         \<and> rd fcs (size_t_of_IntegerDataType i) = Some fc
         \<and> m_pSmallChangeToModelOverwriteSingleSamplingSet s = Some over0
         \<and> m_pSmallChangeToModelAccumulatedFromSamplingSets s = Some acc0
         \<and> SamplingSetLoop ext (CompiledTargetStates ext s) fc
              (size_t_count_of_IntegerDataType nSplits) (size_t_count_of_IntegerDataType nMin)
              (m_cTargetStates s) apSamplingSets
              [0..<(if m_cSamplingSets s = 0 then 1 else m_cSamplingSets s)]
              (SetCountDimensions over0 (m_cFeatures fc),
               Reset (SetCountDimensions acc0 (m_cFeatures fc)), Finite 0)
            = Some (Done (over, acc, G))
         \<and> (if m_cFeatures fc = 0
             then acc' =
                    Multiply acc
                      (if \<not> m_bRegression s \<and> m_cTargetStates s = 2 \<and> bExpandBinaryLogits ext
                       then fdiv learningRate
                              (Finite (2 * real (if m_cSamplingSets s = 0 then 1
                                                 else m_cSamplingSets s)))
                       else fdiv learningRate
                              (Finite (real (if m_cSamplingSets s = 0 then 1
                                             else m_cSamplingSets s))))
             else \<exists>ends.
                    Expand ext
                      (Multiply acc
                         (if \<not> m_bRegression s \<and> m_cTargetStates s = 2 \<and> bExpandBinaryLogits ext
                          then fdiv learningRate
                                 (Finite (2 * real (if m_cSamplingSets s = 0 then 1
                                                    else m_cSamplingSets s)))
                          else fdiv learningRate
                                 (Finite (real (if m_cSamplingSets s = 0 then 1
                                                else m_cSamplingSets s)))))
                      ends
                    = Some acc')
         \<and> (\<forall>F. m_aValues (Multiply acc F) = map (\<lambda>x. fmul x F) (m_aValues acc))
         \<and> values = m_aValues acc'"
proof -
  have nd: "m_bRegression s \<or> 2 \<le> m_cTargetStates s"
  proof (rule ccontr)
    assume "\<not> (m_bRegression s \<or> 2 \<le> m_cTargetStates s)"
    from GenerateModelFeatureCombinationUpdate_degenerate [OF this] assms(3)
    show False by simp
  qed
  define S where "S = (if m_cSamplingSets s = 0 then 1 else m_cSamplingSets s)"
  have S1: "1 \<le> S" by (simp add: S_def)
  have S0: "(if 0 = m_cSamplingSets s then 1 else m_cSamplingSets s) = S" by (simp add: S_def)
  have c2: "(CompiledTargetStates ext s = 2) = (\<not> m_bRegression s \<and> m_cTargetStates s = 2)"
    using assms(1) by (auto simp: CompiledTargetStates_def k_Regression_def
          k_DynamicClassification_def)
  have F: "UpdateMultiple ext (CompiledTargetStates ext s) learningRate S
         = (if \<not> m_bRegression s \<and> m_cTargetStates s = 2 \<and> bExpandBinaryLogits ext
            then fdiv learningRate (Finite (2 * real S))
            else fdiv learningRate (Finite (real S)))"
    using UpdateMultiple_eq [OF S1, of ext "CompiledTargetStates ext s" learningRate] c2
    by auto
  from assms(3) nd have
    "GenerateModelFeatureCombinationUpdatePerTargetStates ext (CompiledTargetStates ext s) s
       (size_t_of_IntegerDataType i) learningRate (size_t_count_of_IntegerDataType nSplits)
       (size_t_count_of_IntegerDataType nMin) g = Some (s', Some values, g')"
    by (simp add: GenerateModelFeatureCombinationUpdate_dispatch)
  from Generate_PerTargetStates_Some [OF this] obtain fcs fc acc0 over acc G acc' where h:
    "m_apFeatureCombinations s = Some fcs" "rd fcs (size_t_of_IntegerDataType i) = Some fc"
    "m_pSmallChangeToModelAccumulatedFromSamplingSets s = Some acc0"
    "case m_apSamplingSets s of
       None \<Rightarrow> acc = Reset (SetCountDimensions acc0 (m_cFeatures fc)) \<and> G = Finite 0
     | Some smp \<Rightarrow>
         (\<exists>over0 acc1 G1.
            m_pSmallChangeToModelOverwriteSingleSamplingSet s = Some over0
          \<and> SamplingSetLoop ext (CompiledTargetStates ext s) fc
               (size_t_count_of_IntegerDataType nSplits) (size_t_count_of_IntegerDataType nMin)
               (m_cTargetStates s) smp [0..<S]
               (SetCountDimensions over0 (m_cFeatures fc),
                Reset (SetCountDimensions acc0 (m_cFeatures fc)), Finite 0)
             = Some (Done (over, acc1, G1))
          \<and> acc = Multiply acc1 (UpdateMultiple ext (CompiledTargetStates ext s) learningRate S)
          \<and> G = fdiv G1 (FractionalDataType_of_size_t S))"
    "if m_cFeatures fc = 0 then acc' = acc else \<exists>ends. Expand ext acc ends = Some acc'"
    "values = m_aValues acc'"
    unfolding S0 by blast
  from h(4) assms(2) obtain over0 acc1 G1 where l:
    "m_pSmallChangeToModelOverwriteSingleSamplingSet s = Some over0"
    "SamplingSetLoop ext (CompiledTargetStates ext s) fc
       (size_t_count_of_IntegerDataType nSplits) (size_t_count_of_IntegerDataType nMin)
       (m_cTargetStates s) apSamplingSets [0..<S]
       (SetCountDimensions over0 (m_cFeatures fc),
        Reset (SetCountDimensions acc0 (m_cFeatures fc)), Finite 0)
     = Some (Done (over, acc1, G1))"
    "acc = Multiply acc1 (UpdateMultiple ext (CompiledTargetStates ext s) learningRate S)"
    by auto
  show ?thesis
    unfolding S_def [symmetric] F [symmetric]
  proof (intro exI conjI)
    show "m_apFeatureCombinations s = Some fcs" by fact
    show "rd fcs (size_t_of_IntegerDataType i) = Some fc" by fact
    show "m_pSmallChangeToModelOverwriteSingleSamplingSet s = Some over0" by fact
    show "m_pSmallChangeToModelAccumulatedFromSamplingSets s = Some acc0" by fact
    show "SamplingSetLoop ext (CompiledTargetStates ext s) fc
       (size_t_count_of_IntegerDataType nSplits) (size_t_count_of_IntegerDataType nMin)
       (m_cTargetStates s) apSamplingSets [0..<S]
       (SetCountDimensions over0 (m_cFeatures fc),
        Reset (SetCountDimensions acc0 (m_cFeatures fc)), Finite 0)
     = Some (Done (over, acc1, G1))" by fact
    show "if m_cFeatures fc = 0
          then acc' = Multiply acc1
                 (UpdateMultiple ext (CompiledTargetStates ext s) learningRate S)
          else \<exists>ends. Expand ext
                 (Multiply acc1
                    (UpdateMultiple ext (CompiledTargetStates ext s) learningRate S))
                 ends = Some acc'"
      using h(5) unfolding l(3) by (auto split: if_splits)
    show "\<forall>F. m_aValues (Multiply acc1 F) = map (\<lambda>x. fmul x F) (m_aValues acc1)"
      by (simp add: Multiply_def)
    show "values = m_aValues acc'" by fact
  qed
qed


theorem update_scaling_witness:
  "GenerateModelFeatureCombinationUpdate example_Externals example_state 0 (Finite (1 / 2)) 2 2
       (Some NaN)
     = Some (example_state
               \<lparr>m_pSmallChangeToModelOverwriteSingleSamplingSet := Some (example_tensor [Finite 4]),
                m_pSmallChangeToModelAccumulatedFromSamplingSets :=
                  Some ((example_tensor [Finite 2])\<lparr>m_bExpanded := False\<rparr>)\<rparr>,
             Some [Finite 2], Some (Finite 0))
   \<and> (\<exists>over acc G.
         SamplingSetLoop example_Externals k_Regression example_intercept 2 2 0 [[1, 1, 1, 1]] [0..<1]
           (example_tensor [Finite 0], (example_tensor [Finite 0])\<lparr>m_bExpanded := False\<rparr>, Finite 0)
         = Some (Done (over, acc, G))
       \<and> [Finite 2] = m_aValues (Multiply acc (fdiv (Finite (1 / 2)) (Finite 1))))
   \<and> GenerateModelFeatureCombinationUpdate example_Externals_expanded_logits example_state_binary 0
       (Finite 1) 2 2 (Some NaN)
     = Some (example_state_binary
               \<lparr>m_pSmallChangeToModelOverwriteSingleSamplingSet := Some (example_tensor [Finite 4]),
                m_pSmallChangeToModelAccumulatedFromSamplingSets :=
                  Some ((example_tensor [Finite 2])\<lparr>m_bExpanded := False\<rparr>)\<rparr>,
             Some [Finite 2], Some (Finite 0))
   \<and> (\<exists>over acc G.
         SamplingSetLoop example_Externals_expanded_logits 2 example_intercept 2 2 2 [[1, 1]] [0..<1]
           (example_tensor [Finite 0], (example_tensor [Finite 0])\<lparr>m_bExpanded := False\<rparr>, Finite 0)
         = Some (Done (over, acc, G))
       \<and> [Finite 2] = m_aValues (Multiply acc (fdiv (Finite 1) (Finite 2))))"
proof -
  have k1: "2 \<le> k_cCompilerOptimizedTargetStatesMax example_Externals"
    by (simp add: example_Externals_def)
  have k2: "2 \<le> k_cCompilerOptimizedTargetStatesMax example_Externals_expanded_logits"
    by (simp add: example_more_defs)
  have s1: "m_apSamplingSets example_state = Some [[1, 1, 1, 1]]"
    by (simp add: example_state_def)
  have s2: "m_apSamplingSets example_state_binary = Some [[1, 1]]"
    by (simp add: example_state_binary_def)
  have c1: "CompiledTargetStates example_Externals example_state = k_Regression"
    by (simp add: CompiledTargetStates_def example_state_def)
  have c2: "CompiledTargetStates example_Externals_expanded_logits example_state_binary = 2"
    by (simp add: CompiledTargetStates_def example_state_def example_more_defs)
  have g1: "GenerateModelFeatureCombinationUpdate example_Externals example_state 0
       (Finite (1 / 2)) 2 2 (Some NaN)
     = Some (example_state
               \<lparr>m_pSmallChangeToModelOverwriteSingleSamplingSet := Some (example_tensor [Finite 4]),
                m_pSmallChangeToModelAccumulatedFromSamplingSets :=
                  Some ((example_tensor [Finite 2])\<lparr>m_bExpanded := False\<rparr>)\<rparr>,
             Some [Finite 2], Some (Finite 0))"
    by (simp add: GenerateModelFeatureCombinationUpdate_def generate_defs example_defs
          example_Externals_def Let_def)
  have nd: "m_bRegression example_state_binary \<or> 2 \<le> m_cTargetStates example_state_binary"
    by (simp add: example_state_binary_def)
  have "GenerateModelFeatureCombinationUpdate example_Externals_expanded_logits
       example_state_binary 0 (Finite 1) 2 2 (Some NaN)
     = GenerateModelFeatureCombinationUpdatePerTargetStates example_Externals_expanded_logits
         (CompiledTargetStates example_Externals_expanded_logits example_state_binary)
         example_state_binary (size_t_of_IntegerDataType 0) (Finite 1)
         (size_t_count_of_IntegerDataType 2) (size_t_count_of_IntegerDataType 2) (Some NaN)"
    by (rule GenerateModelFeatureCombinationUpdate_dispatch [OF nd])
  also have "\<dots> = Some (example_state_binary
               \<lparr>m_pSmallChangeToModelOverwriteSingleSamplingSet := Some (example_tensor [Finite 4]),
                m_pSmallChangeToModelAccumulatedFromSamplingSets :=
                  Some ((example_tensor [Finite 2])\<lparr>m_bExpanded := False\<rparr>)\<rparr>,
             Some [Finite 2], Some (Finite 0))"
    unfolding c2
    by (simp add: generate_defs example_defs example_more_defs Let_def)
  finally have g2: "GenerateModelFeatureCombinationUpdate example_Externals_expanded_logits
       example_state_binary 0 (Finite 1) 2 2 (Some NaN)
     = Some (example_state_binary
               \<lparr>m_pSmallChangeToModelOverwriteSingleSamplingSet := Some (example_tensor [Finite 4]),
                m_pSmallChangeToModelAccumulatedFromSamplingSets :=
                  Some ((example_tensor [Finite 2])\<lparr>m_bExpanded := False\<rparr>)\<rparr>,
             Some [Finite 2], Some (Finite 0))" .
  from update_scaling [OF k1 s1 g1] have w1:
    "\<exists>over acc G.
         SamplingSetLoop example_Externals k_Regression example_intercept 2 2 0 [[1, 1, 1, 1]] [0..<1]
           (example_tensor [Finite 0], (example_tensor [Finite 0])\<lparr>m_bExpanded := False\<rparr>, Finite 0)
         = Some (Done (over, acc, G))
       \<and> [Finite 2] = m_aValues (Multiply acc (fdiv (Finite (1 / 2)) (Finite 1)))"
    unfolding c1
    by (auto simp: example_defs rd_def size_t_of_IntegerDataType_def
          size_t_count_of_IntegerDataType_def SetCountDimensions_def Reset_def
          simp del: SamplingSetLoop.simps)
  from update_scaling [OF k2 s2 g2] have w2:
    "\<exists>over acc G.
         SamplingSetLoop example_Externals_expanded_logits 2 example_intercept 2 2 2 [[1, 1]] [0..<1]
           (example_tensor [Finite 0], (example_tensor [Finite 0])\<lparr>m_bExpanded := False\<rparr>, Finite 0)
         = Some (Done (over, acc, G))
       \<and> [Finite 2] = m_aValues (Multiply acc (fdiv (Finite 1) (Finite 2)))"
    unfolding c2
    by (auto simp: example_defs example_more_defs rd_def size_t_of_IntegerDataType_def
          size_t_count_of_IntegerDataType_def SetCountDimensions_def Reset_def
          simp del: SamplingSetLoop.simps)
  from g1 g2 w1 w2 show ?thesis by blast
qed


text \<open>
  C7.  As stated the claim fails where the call fails: here the only sampling set has the
  gain $-6$, \<open>Expand\<close> reports a failure after the loop, and the gain that the call leaves
  behind \<open>gainReturn\<close> is 0.
\<close>

theorem gain_is_average_counterexample:
  "TrainOneSamplingSet example_Externals_failing_expand k_Regression example_main_effect 2 2 0
       [1, 1, 1, 1] ((example_tensor [Finite 0])\<lparr>m_cDimensions := 1\<rparr>)
     = Some ((example_tensor [Finite 4])\<lparr>m_cDimensions := 1\<rparr>, Finite (- 6))
   \<and> fdiv (foldl fadd (Finite 0) [Finite (- 6)]) (FractionalDataType_of_size_t 1) = Finite (- 6)
   \<and> GenerateModelFeatureCombinationUpdate example_Externals_failing_expand
        example_state_main_effect 0 (Finite (1 / 2)) 2 2 (Some NaN)
      = Some (example_state_main_effect, None, Some (Finite 0))
   \<and> Finite 0 \<noteq> Finite (- 6)"
  by (simp add: GenerateModelFeatureCombinationUpdate_def generate_defs example_defs
        example_more_defs Let_def)

text \<open>
  C7, amended.  When \<open>GenerateModelFeatureCombinationUpdate\<close> returns a tensor, the gain
  behind \<open>gainReturn\<close> is the sum of the gains of the sampling sets, in their order, divided
  by the number $S$ of sampling sets, 1 when the state says 0: there is one gain for each
  sampling set, the value that the tree learner left in \<open>gain\<close> for it, and none when the
  state has no sampling sets.  When the call returns the null pointer, the gain behind
  \<open>gainReturn\<close> is 0.
\<close>

theorem gain_is_average:
  assumes "GenerateModelFeatureCombinationUpdate ext s i learningRate nSplits nMin g
             = Some (s', pTensor, g')"
  shows "(pTensor = None \<longrightarrow> g' = map_option (\<lambda>_. Finite 0) g)
       \<and> (pTensor \<noteq> None \<longrightarrow>
            (\<exists>gains fcs fc.
               g' = map_option
                      (\<lambda>_. fdiv (foldl fadd (Finite 0) gains)
                              (FractionalDataType_of_size_t
                                 (if m_cSamplingSets s = 0 then 1 else m_cSamplingSets s))) g
             \<and> m_apFeatureCombinations s = Some fcs
             \<and> rd fcs (size_t_of_IntegerDataType i) = Some fc
             \<and> (case m_apSamplingSets s of
                   None \<Rightarrow> gains = []
                 | Some apSamplingSets \<Rightarrow>
                     length gains = (if m_cSamplingSets s = 0 then 1 else m_cSamplingSets s)
                     \<and> (\<forall>k<(if m_cSamplingSets s = 0 then 1 else m_cSamplingSets s).
                           \<exists>pSamplingSet overIn t.
                             rd apSamplingSets k = Some pSamplingSet
                             \<and> TrainOneSamplingSet ext (CompiledTargetStates ext s) fc
                                 (size_t_count_of_IntegerDataType nSplits)
                                 (size_t_count_of_IntegerDataType nMin)
                                 (m_cTargetStates s) pSamplingSet overIn
                               = Some (t, gains ! k)))))"
proof (cases "m_bRegression s \<or> 2 \<le> m_cTargetStates s")
  case False
  from GenerateModelFeatureCombinationUpdate_degenerate [OF False] assms
  show ?thesis by simp
next
  case True
  define S where "S = (if m_cSamplingSets s = 0 then 1 else m_cSamplingSets s)"
  have S1: "1 \<le> S" by (simp add: S_def)
  have S0: "(if 0 = m_cSamplingSets s then 1 else m_cSamplingSets s) = S" by (simp add: S_def)
  from assms True have p:
    "GenerateModelFeatureCombinationUpdatePerTargetStates ext (CompiledTargetStates ext s) s
       (size_t_of_IntegerDataType i) learningRate (size_t_count_of_IntegerDataType nSplits)
       (size_t_count_of_IntegerDataType nMin) g = Some (s', pTensor, g')"
    by (simp add: GenerateModelFeatureCombinationUpdate_dispatch)
  show ?thesis
    unfolding S_def [symmetric]
  proof (intro conjI impI)
    assume "pTensor = None"
    with p show "g' = map_option (\<lambda>_. Finite 0) g"
      by (auto dest: Generate_PerTargetStates_None)
  next
    assume "pTensor \<noteq> None"
    then obtain vals where "pTensor = Some vals" by auto
    with p have "GenerateModelFeatureCombinationUpdatePerTargetStates ext
       (CompiledTargetStates ext s) s
       (size_t_of_IntegerDataType i) learningRate (size_t_count_of_IntegerDataType nSplits)
       (size_t_count_of_IntegerDataType nMin) g = Some (s', Some vals, g')" by simp
    from Generate_PerTargetStates_Some [OF this] obtain fcs fc acc0 over acc G acc' where h:
      "m_apFeatureCombinations s = Some fcs" "rd fcs (size_t_of_IntegerDataType i) = Some fc"
      "case m_apSamplingSets s of
         None \<Rightarrow> acc = Reset (SetCountDimensions acc0 (m_cFeatures fc)) \<and> G = Finite 0
       | Some smp \<Rightarrow>
           (\<exists>over0 acc1 G1.
              m_pSmallChangeToModelOverwriteSingleSamplingSet s = Some over0
            \<and> SamplingSetLoop ext (CompiledTargetStates ext s) fc
                 (size_t_count_of_IntegerDataType nSplits) (size_t_count_of_IntegerDataType nMin)
                 (m_cTargetStates s) smp [0..<S]
                 (SetCountDimensions over0 (m_cFeatures fc),
                  Reset (SetCountDimensions acc0 (m_cFeatures fc)), Finite 0)
               = Some (Done (over, acc1, G1))
            \<and> acc = Multiply acc1 (UpdateMultiple ext (CompiledTargetStates ext s) learningRate S)
            \<and> G = fdiv G1 (FractionalDataType_of_size_t S))"
      "g' = map_option (\<lambda>_. G) g"
      unfolding S0 by blast
    show "\<exists>gains fcs fc.
               g' = map_option
                      (\<lambda>_. fdiv (foldl fadd (Finite 0) gains) (FractionalDataType_of_size_t S)) g
             \<and> m_apFeatureCombinations s = Some fcs
             \<and> rd fcs (size_t_of_IntegerDataType i) = Some fc
             \<and> (case m_apSamplingSets s of
                   None \<Rightarrow> gains = []
                 | Some apSamplingSets \<Rightarrow>
                     length gains = S
                     \<and> (\<forall>k<S.
                           \<exists>pSamplingSet overIn t.
                             rd apSamplingSets k = Some pSamplingSet
                             \<and> TrainOneSamplingSet ext (CompiledTargetStates ext s) fc
                                 (size_t_count_of_IntegerDataType nSplits)
                                 (size_t_count_of_IntegerDataType nMin)
                                 (m_cTargetStates s) pSamplingSet overIn
                               = Some (t, gains ! k)))"
    proof (cases "m_apSamplingSets s")
      case None
      with h(3) have "G = Finite 0" by simp
      moreover have "fdiv (foldl fadd (Finite 0) []) (FractionalDataType_of_size_t S) = Finite 0"
        using S1 by (simp add: FractionalDataType_of_size_t_def)
      ultimately have "g' = map_option
            (\<lambda>_. fdiv (foldl fadd (Finite 0) []) (FractionalDataType_of_size_t S)) g"
        using h(4) by simp
      with None h(1,2) show ?thesis by auto
    next
      case (Some smp)
      with h(3) obtain over0 acc1 G1 where l:
        "SamplingSetLoop ext (CompiledTargetStates ext s) fc
                 (size_t_count_of_IntegerDataType nSplits) (size_t_count_of_IntegerDataType nMin)
                 (m_cTargetStates s) smp [0..<S]
                 (SetCountDimensions over0 (m_cFeatures fc),
                  Reset (SetCountDimensions acc0 (m_cFeatures fc)), Finite 0)
               = Some (Done (over, acc1, G1))"
        "G = fdiv G1 (FractionalDataType_of_size_t S)"
        by auto
      from SamplingSetLoop_gains [OF l(1)] obtain gains where g:
        "length gains = length [0..<S]" "G1 = foldl fadd (Finite 0) gains"
        "\<forall>k<length [0..<S]. \<exists>pSamplingSet overIn t.
             rd smp ([0..<S] ! k) = Some pSamplingSet
             \<and> TrainOneSamplingSet ext (CompiledTargetStates ext s) fc
                 (size_t_count_of_IntegerDataType nSplits) (size_t_count_of_IntegerDataType nMin)
                 (m_cTargetStates s) pSamplingSet overIn = Some (t, gains ! k)"
        by blast
      from g(3) have g3: "\<forall>k<S. \<exists>pSamplingSet overIn t.
             rd smp k = Some pSamplingSet
             \<and> TrainOneSamplingSet ext (CompiledTargetStates ext s) fc
                 (size_t_count_of_IntegerDataType nSplits) (size_t_count_of_IntegerDataType nMin)
                 (m_cTargetStates s) pSamplingSet overIn = Some (t, gains ! k)"
        by simp
      from h(4) l(2) g(2) have "g' = map_option
            (\<lambda>_. fdiv (foldl fadd (Finite 0) gains) (FractionalDataType_of_size_t S)) g"
        by simp
      with Some h(1,2) g(1) g3 show ?thesis
        by (intro exI [of _ gains] exI [of _ fcs] exI [of _ fc]) simp
    qed
  qed
qed

theorem gain_is_average_witness:
  "GenerateModelFeatureCombinationUpdate example_Externals example_state_main_effect 0
       (Finite (1 / 2)) 2 2 (Some NaN)
     = Some (example_state_main_effect
               \<lparr>m_pSmallChangeToModelOverwriteSingleSamplingSet :=
                  Some ((example_tensor [Finite 4])\<lparr>m_cDimensions := 1\<rparr>),
                m_pSmallChangeToModelAccumulatedFromSamplingSets :=
                  Some ((example_tensor [Finite 2])\<lparr>m_cDimensions := 1, m_aDivisions := [[]]\<rparr>)\<rparr>,
             Some [Finite 2], Some (Finite (- 6)))
   \<and> (\<exists>gains. Some (Finite (- 6))
         = map_option (\<lambda>_. fdiv (foldl fadd (Finite 0) gains) (FractionalDataType_of_size_t 1))
             (Some NaN)
         \<and> length gains = 1)
   \<and> GenerateModelFeatureCombinationUpdate example_Externals_failing_expand
        example_state_main_effect 0 (Finite (1 / 2)) 2 2 (Some NaN)
      = Some (example_state_main_effect, None, Some (Finite 0))"
proof -
  have g1: "GenerateModelFeatureCombinationUpdate example_Externals example_state_main_effect 0
       (Finite (1 / 2)) 2 2 (Some NaN)
     = Some (example_state_main_effect
               \<lparr>m_pSmallChangeToModelOverwriteSingleSamplingSet :=
                  Some ((example_tensor [Finite 4])\<lparr>m_cDimensions := 1\<rparr>),
                m_pSmallChangeToModelAccumulatedFromSamplingSets :=
                  Some ((example_tensor [Finite 2])\<lparr>m_cDimensions := 1, m_aDivisions := [[]]\<rparr>)\<rparr>,
             Some [Finite 2], Some (Finite (- 6)))"
    by (simp add: GenerateModelFeatureCombinationUpdate_def generate_defs example_defs
        example_more_defs Let_def)
  have g2: "GenerateModelFeatureCombinationUpdate example_Externals_failing_expand
        example_state_main_effect 0 (Finite (1 / 2)) 2 2 (Some NaN)
      = Some (example_state_main_effect, None, Some (Finite 0))"
    by (simp add: GenerateModelFeatureCombinationUpdate_def generate_defs example_defs
        example_more_defs Let_def)
  from gain_is_average [OF g1] have
    "\<exists>gains. Some (Finite (- 6))
         = map_option (\<lambda>_. fdiv (foldl fadd (Finite 0) gains) (FractionalDataType_of_size_t 1))
             (Some NaN)
         \<and> length gains = 1"
    by (auto simp: example_defs example_more_defs)
  with g1 g2 show ?thesis by blast
qed


text \<open>C2.  For a feature combination with at least one feature, \<open>P\<close> items per storage word
  and \<open>B = 64 div P\<close> bits per item, on the packed column of the bins \<open>bins\<close> (one per case,
  each below \<open>2 ^ B\<close>): the mask is \<open>2 ^ B - 1\<close>, the bin of case \<open>iCase\<close> is
  the word \<open>iCase div P\<close> shifted right by \<open>B\<close> once per earlier case of the block and masked,
  the iterator visits every case once, in case order, with its original bin (also when the last
  block is partial), and the training-set pass and the validation-set pass on a data set with
  this column are their work on one case applied to these bins in this order.\<close>

theorem bit_packed_iteration:
  assumes d: "0 < m_cFeatures fc"
    and P: "m_cItemsPerBitPackDataUnit fc = P" "1 \<le> P" "P \<le> 64"
    and B: "B = 64 div P"
    and col: "GetDataPointer ts fc = Some (PackColumn P B bins)"
    and len: "length bins = m_cCases ts"
    and small: "\<forall>iBin\<in>set bins. iBin < 2 ^ B"
    and V: "1 \<le> GET_VECTOR_LENGTH c K"
  shows "GetCountBits P = Some B \<and> GetMaskBits B = Some (2 ^ B - 1)
       \<and> (\<forall>iCase<m_cCases ts.
             unat ((2 ^ B - 1) AND drop_bit (B * (iCase mod P))
                                    (PackColumn P B bins ! (iCase div P)))
               = bins ! iCase)
       \<and> BitPackedLoop (\<lambda>iBin iCase visited. Some (visited @ [(iCase, iBin)])) P B (2 ^ B - 1)
           (PackColumn P B bins) (GET_VECTOR_LENGTH c K) (m_cCases ts) 0 0 []
           = Some (zip [0..<m_cCases ts] bins)
       \<and> TrainingSetTargetFeatureLoop ext c fc ts U K
           = foldM (\<lambda>(iCase, iBin). TrainingCase ext c U (GET_VECTOR_LENGTH c K) iBin iCase)
               (zip [0..<m_cCases ts] bins) ts
       \<and> ValidationSetTargetFeatureLoop ext c fc ts U K
           = map_option (\<lambda>st. (fst st, ValidationMetric c (m_cCases ts) (snd st)))
               (foldM (\<lambda>(iCase, iBin). ValidationCase ext c U (GET_VECTOR_LENGTH c K) iBin iCase)
                  (zip [0..<m_cCases ts] bins) (ts, Finite 0))"
proof -
  have "0 < 64 div P" using P by (simp add: div_greater_zero_iff)
  then have B1: "1 \<le> B" "B \<le> 64" using B by simp_all
  have fit: "P * B \<le> 64" using B by simp
  have cb: "GetCountBits P = Some B"
    using P B by (simp add: GetCountBits_def k_cBitsForStorageType_def)
  have m: "(2 ^ B - 1 :: 64 word) = mask B" by (simp add: mask_eq_exp_minus_1)
  have mb: "GetMaskBits B = Some (2 ^ B - 1)"
    using GetMaskBits_mask [OF B1] m by simp
  have ex: "\<forall>iCase<m_cCases ts.
             unat ((2 ^ B - 1) AND drop_bit (B * (iCase mod P))
                                    (PackColumn P B bins ! (iCase div P)))
               = bins ! iCase"
    using PackedBin_PackColumn [OF P(2) fit small] len
    unfolding m by (simp add: PackedBin_def)
  have vis: "BitPackedLoop (\<lambda>iBin iCase visited. Some (visited @ [(iCase, iBin)])) P B (2 ^ B - 1)
           (PackColumn P B bins) (GET_VECTOR_LENGTH c K) (m_cCases ts) 0 0 []
           = Some (zip [0..<m_cCases ts] bins)"
    using BitPackedLoop_PackColumn [OF V P(2) fit small,
            of "\<lambda>iBin iCase visited. Some (visited @ [(iCase, iBin)])" "[]"]
    unfolding m len by (simp add: foldM_visited)
  have "TrainingSetTargetFeatureLoop ext c fc ts U K
      = BitPackedLoop (TrainingCase ext c U (GET_VECTOR_LENGTH c K)) P B (mask B)
          (PackColumn P B bins) (GET_VECTOR_LENGTH c K) (length bins) 0 0 ts"
    using cb mb col P(1) len
    by (simp add: TrainingSetTargetFeatureLoop_packed [OF d] m)
  also have "\<dots> = foldM (\<lambda>(iCase, iBin). TrainingCase ext c U (GET_VECTOR_LENGTH c K) iBin iCase)
               (zip [0..<length bins] bins) ts"
    by (rule BitPackedLoop_PackColumn [OF V P(2) fit small])
  finally have tr: "TrainingSetTargetFeatureLoop ext c fc ts U K
      = foldM (\<lambda>(iCase, iBin). TrainingCase ext c U (GET_VECTOR_LENGTH c K) iBin iCase)
               (zip [0..<m_cCases ts] bins) ts"
    using len by simp
  have "ValidationSetTargetFeatureLoop ext c fc ts U K
      = map_option (\<lambda>st. (fst st, ValidationMetric c (m_cCases ts) (snd st)))
          (BitPackedLoop (ValidationCase ext c U (GET_VECTOR_LENGTH c K)) P B (mask B)
             (PackColumn P B bins) (GET_VECTOR_LENGTH c K) (length bins) 0 0 (ts, Finite 0))"
    using cb mb col P(1) len
    by (simp add: ValidationSetTargetFeatureLoop_packed_eq [OF d] m map_option_bind)
  also have "BitPackedLoop (ValidationCase ext c U (GET_VECTOR_LENGTH c K)) P B (mask B)
             (PackColumn P B bins) (GET_VECTOR_LENGTH c K) (length bins) 0 0 (ts, Finite 0)
      = foldM (\<lambda>(iCase, iBin). ValidationCase ext c U (GET_VECTOR_LENGTH c K) iBin iCase)
               (zip [0..<length bins] bins) (ts, Finite 0)"
    by (rule BitPackedLoop_PackColumn [OF V P(2) fit small])
  finally have va: "ValidationSetTargetFeatureLoop ext c fc ts U K
           = map_option (\<lambda>st. (fst st, ValidationMetric c (m_cCases ts) (snd st)))
               (foldM (\<lambda>(iCase, iBin). ValidationCase ext c U (GET_VECTOR_LENGTH c K) iBin iCase)
                  (zip [0..<m_cCases ts] bins) (ts, Finite 0))"
    using len by simp
  show ?thesis using cb mb ex vis tr va by simp
qed



theorem bit_packed_iteration_witness:
  "GetDataPointer
       ((example_data [Finite 1, Finite 3, Finite 5, Finite 7, Finite 9])
          \<lparr>m_aaInputData := [[4294967299, 2, 1]]\<rparr>)
       (example_main_effect\<lparr>m_cItemsPerBitPackDataUnit := 2\<rparr>)
     = Some (PackColumn 2 32 [3, 1, 2, 0, 1])
   \<and> BitPackedLoop (\<lambda>iBin iCase visited. Some (visited @ [(iCase, iBin)])) 2 32 (2 ^ 32 - 1)
           [4294967299, 2, 1] 1 5 0 0 []
     = Some [(0, 3), (1, 1), (2, 2), (3, 0), (4, 1)]
   \<and> TrainingSetTargetFeatureLoop example_Externals k_Regression
       (example_main_effect\<lparr>m_cItemsPerBitPackDataUnit := 2\<rparr>)
       ((example_data [Finite 1, Finite 3, Finite 5, Finite 7, Finite 9])
          \<lparr>m_aaInputData := [[4294967299, 2, 1]]\<rparr>)
       [Finite 10, Finite 20, Finite 30, Finite 40] 0
     = Some ((example_data [Finite (- 39), Finite (- 17), Finite (- 25), Finite (- 3), Finite (- 11)])
               \<lparr>m_aaInputData := [[4294967299, 2, 1]]\<rparr>)
   \<and> ValidationSetTargetFeatureLoop example_Externals k_Regression
       (example_main_effect\<lparr>m_cItemsPerBitPackDataUnit := 2\<rparr>)
       ((example_data [Finite 1, Finite 3, Finite 5, Finite 7, Finite 9])
          \<lparr>m_aaInputData := [[4294967299, 2, 1]]\<rparr>)
       [Finite 10, Finite 20, Finite 30, Finite 40] 0
     = Some ((example_data [Finite (- 39), Finite (- 17), Finite (- 25), Finite (- 3), Finite (- 11)])
               \<lparr>m_aaInputData := [[4294967299, 2, 1]]\<rparr>, Finite (sqrt 513))"
proof -
  have d: "0 < m_cFeatures (example_main_effect\<lparr>m_cItemsPerBitPackDataUnit := 2\<rparr>)"
    by (simp add: example_main_effect_def)
  have P: "m_cItemsPerBitPackDataUnit (example_main_effect\<lparr>m_cItemsPerBitPackDataUnit := 2\<rparr>) = 2"
    "1 \<le> (2::nat)" "(2::nat) \<le> 64"
    by simp_all
  have B: "(32::nat) = 64 div 2" by simp
  have col: "GetDataPointer
       ((example_data [Finite 1, Finite 3, Finite 5, Finite 7, Finite 9])
          \<lparr>m_aaInputData := [[4294967299, 2, 1]]\<rparr>)
       (example_main_effect\<lparr>m_cItemsPerBitPackDataUnit := 2\<rparr>)
     = Some (PackColumn 2 32 [3, 1, 2, 0, 1])"
    unfolding PackColumn_example_blocks
    by (simp add: GetDataPointer_def rd_def example_data_def example_main_effect_def)
  have len: "length [3, 1, 2, 0, 1 :: nat]
     = m_cCases ((example_data [Finite 1, Finite 3, Finite 5, Finite 7, Finite 9])
          \<lparr>m_aaInputData := [[4294967299, 2, 1]]\<rparr>)"
    by (simp add: example_data_def)
  have small: "\<forall>iBin\<in>set [3, 1, 2, 0, 1 :: nat]. iBin < 2 ^ 32" by simp
  have V: "1 \<le> GET_VECTOR_LENGTH k_Regression 0"
    by (simp add: GET_VECTOR_LENGTH_def GetVectorLengthFlatCore_def k_Regression_def
          k_DynamicClassification_def)
  have z: "zip [0..<5] [3, Suc 0, 2, 0, Suc 0 :: nat]
             = [(0, 3), (Suc 0, Suc 0), (2, 2), (3, 0), (4, Suc 0)]"
    by (simp add: upt_5)
  from bit_packed_iteration [OF d P B col len small V,
         of example_Externals "[Finite 10, Finite 20, Finite 30, Finite 40]"]
  show ?thesis
    using col unfolding PackColumn_example_blocks
    by (simp add: numeral_2_eq_2 [symmetric] example_data_def z TrainingCase_def
          TrainingCaseRegression_def ComputeRegressionResidualError_def rd_def wr_def
          IsRegression_def GET_VECTOR_LENGTH_def GetVectorLengthFlatCore_def k_Regression_def
          k_DynamicClassification_def fsub_def ValidationCase_def ValidationCaseRegression_def
          ValidationMetric_def FractionalDataType_of_size_t_def Let_def)
qed

text \<open>C8.  With a zeroing index \<open>k_iZeroResidual\<close> from 0 to below the vector length (the number
  of classes), after the multiclass training-set pass the residual at that class index is 0
  for every case of the training set, whatever the residual computed for that class was: the
  0 is written after the residuals of the case.\<close>

theorem residual_zeroing:
  assumes "\<not> IsRegression c" and "\<not> IsBinaryClassification c"
    and "0 \<le> k_iZeroResidual ext" and "k_iZeroResidual ext < int (GET_VECTOR_LENGTH c K)"
    and "TrainingSetTargetFeatureLoop ext c fc ts U K = Some ts'"
    and "iCase < m_cCases ts"
  shows "rd (m_aResidualErrors ts') (GET_VECTOR_LENGTH c K * iCase + nat (k_iZeroResidual ext))
           = Some (Finite 0)"
  using TrainingSetTargetFeatureLoop_zeroed [OF assms(1-5)] assms(6)
  by (simp add: zeroed_def)

theorem residual_zeroing_witness:
  "\<not> IsRegression 3 \<and> \<not> IsBinaryClassification 3
   \<and> 0 \<le> k_iZeroResidual example_Externals_zeroing
   \<and> k_iZeroResidual example_Externals_zeroing < int (GET_VECTOR_LENGTH 3 3)
   \<and> TrainingSetTargetFeatureLoop example_Externals_zeroing 3 example_intercept
         example_data_multiclass [Finite 0, Finite 0, Finite 0] 3
       = Some (example_data_multiclass\<lparr>m_aResidualErrors :=
                 [Finite 0, Finite (- 2 / 3), Finite (1 / 3),
                  Finite 0, Finite (1 / 3), Finite (- 2 / 3)]\<rparr>)
   \<and> 1 < m_cCases example_data_multiclass
   \<and> rd (m_aResidualErrors (example_data_multiclass\<lparr>m_aResidualErrors :=
                 [Finite 0, Finite (- 2 / 3), Finite (1 / 3),
                  Finite 0, Finite (1 / 3), Finite (- 2 / 3)]\<rparr>))
         (GET_VECTOR_LENGTH 3 3 * 1 + nat (k_iZeroResidual example_Externals_zeroing))
       = Some (Finite 0)"
proof -
  have mc: "\<not> IsRegression 3" "\<not> IsBinaryClassification 3"
    by (simp_all add: IsRegression_def IsBinaryClassification_def k_Regression_def)
  have z: "0 \<le> k_iZeroResidual example_Externals_zeroing"
    "k_iZeroResidual example_Externals_zeroing < int (GET_VECTOR_LENGTH 3 3)"
    by (simp_all add: example_Externals_zeroing_def example_Externals_def GET_VECTOR_LENGTH_def
          GetVectorLengthFlatCore_def k_DynamicClassification_def)
  have i: "1 < m_cCases example_data_multiclass"
    by (simp add: example_data_multiclass_def)
  from residual_zeroing [OF mc z example_multiclass_pass i] mc z example_multiclass_pass i
  show ?thesis by simp
qed





end
